theory Spec2Isabelle
  imports Complex_Main "HOL-Library.Log_Nat"
begin

text \<open>
  A model of the CVSS v3.0/v3.1 library: the metric model (\<^verbatim>\<open>models.ts\<close>), the vector
  parser (\<^verbatim>\<open>parser.ts\<close>), the validator (\<^verbatim>\<open>validator.ts\<close>) and the score calculator
  (\<^verbatim>\<open>score-calculator.ts\<close>), each function translated from its source, followed by the
  properties of the specification proved about them.
\<close>

section \<open>Errors\<close>

text \<open>
  Every failure of the source is a \<^verbatim>\<open>throw new Error(message)\<close>. The model has one
  constructor for each kind of throw site, named as the error taxonomy of the
  specification names it, and carrying what the message interpolates:
  \<^item> \<open>MissingPrefix\<close>: \<^verbatim>\<open>validate\<close>, the string does not start with \<^verbatim>\<open>CVSS:\<close>;
  \<^item> \<open>UnsupportedVersion v\<close>: the two throws of \<^verbatim>\<open>validateVersion\<close>, \<open>v = None\<close> when
    the version is undefined and \<open>v = Some w\<close> when \<open>w\<close> is neither 3.0 nor 3.1;
  \<^item> \<open>MalformedVector\<close>: the throw of \<^verbatim>\<open>validate\<close> on an empty vector and the throw of
    \<^verbatim>\<open>validateVector\<close>;
  \<^item> \<open>InvalidMetricSegment seg\<close>: \<^verbatim>\<open>parseMetrics\<close>;
  \<^item> \<open>DuplicateMetric key value\<close>: \<^verbatim>\<open>parseMetricsAsMap\<close>;
  \<^item> \<open>MissingMandatoryMetric m\<close>: \<^verbatim>\<open>checkMandatoryMetrics\<close>;
  \<^item> \<open>UnknownMetric key\<close>: \<^verbatim>\<open>checkUnknownMetrics\<close>;
  \<^item> \<open>InvalidMetricValue m value\<close>: \<^verbatim>\<open>checkMetricsValues\<close>;
  \<^item> \<open>MissingModifiedMetric m\<close>: \<^verbatim>\<open>populateEnvironmentalMetricDefaults\<close>;
  \<^item> \<open>MissingMetric m\<close>: \<^verbatim>\<open>getMetricValue\<close>;
  \<^item> \<open>UnknownScopeValue v\<close>, \<open>UnknownPrivilegesRequiredValue v\<close>:
    \<^verbatim>\<open>getPrivilegesRequiredNumericValue\<close>;
  \<^item> \<open>InternalScoreTableError m\<close>, \<open>UnknownMetricValue v\<close>: \<^verbatim>\<open>getMetricNumericValue\<close>;
  \<^item> \<open>VersionNotFound\<close>: \<^verbatim>\<open>calculateEnvironmentalResult\<close>;
  \<^item> \<open>TypeError\<close>: the run-time error of reading a property of \<^verbatim>\<open>undefined\<close>, in
    \<^verbatim>\<open>checkMetricsValues\<close> when the table of legal values has no entry for a metric.

  The errors are told apart by throw site, not by message: the throw of
  \<^verbatim>\<open>validateVersion\<close> for an undefined version has the message of the two
  \<open>MalformedVector\<close> throws (\<^verbatim>\<open>Invalid CVSS string. Example: ...\<close>). The message of
  \<^verbatim>\<open>checkMandatoryMetrics\<close> interpolates the whole list \<^verbatim>\<open>metrics\<close> and the humanized
  name of the missing \<^verbatim>\<open>metric\<close>; the model keeps the missing metric.
\<close>

datatype error =
    MissingPrefix
  | UnsupportedVersion "string option"
  | MalformedVector
  | InvalidMetricSegment string
  | DuplicateMetric string string
  | MissingMandatoryMetric string
  | UnknownMetric string
  | InvalidMetricValue string string
  | MissingModifiedMetric string
  | MissingMetric string
  | UnknownScopeValue string
  | UnknownPrivilegesRequiredValue string
  | InternalScoreTableError string
  | UnknownMetricValue string
  | VersionNotFound
  | TypeError

text \<open>Sequencing of computations that may throw: the first error ends the computation.\<close>

definition ebind :: "error + 'a \<Rightarrow> ('a \<Rightarrow> error + 'b) \<Rightarrow> error + 'b" where
  "ebind m f = (case m of Inl e \<Rightarrow> Inl e | Inr x \<Rightarrow> f x)"

section \<open>The metric model (models.ts)\<close>

text \<open>
  The enums \<^verbatim>\<open>BaseMetric\<close>, \<^verbatim>\<open>TemporalMetric\<close> and \<^verbatim>\<open>EnvironmentalMetric\<close> are string
  enums: at run time a metric is its code, and the keys of the metrics map are the
  strings the parser produced. Metrics and metric values are therefore strings.
\<close>

definition baseMetrics :: "string list" where
  "baseMetrics = [''AV'', ''AC'', ''PR'', ''UI'', ''S'', ''C'', ''I'', ''A'']"

definition temporalMetrics :: "string list" where
  "temporalMetrics = [''E'', ''RL'', ''RC'']"

definition environmentalMetrics :: "string list" where
  "environmentalMetrics =
     [''AR'', ''CR'', ''IR'', ''MAV'', ''MAC'', ''MPR'', ''MUI'', ''MS'', ''MC'', ''MI'', ''MA'']"

definition baseMetricValues :: "(string \<times> string list) list" where
  "baseMetricValues =
     [(''AV'', [''N'', ''A'', ''L'', ''P'']),
      (''AC'', [''L'', ''H'']),
      (''PR'', [''N'', ''L'', ''H'']),
      (''UI'', [''N'', ''R'']),
      (''S'', [''U'', ''C'']),
      (''C'', [''N'', ''L'', ''H'']),
      (''I'', [''N'', ''L'', ''H'']),
      (''A'', [''N'', ''L'', ''H''])]"

definition temporalMetricValues :: "(string \<times> string list) list" where
  "temporalMetricValues =
     [(''E'', [''X'', ''H'', ''F'', ''P'', ''U'']),
      (''RL'', [''X'', ''U'', ''W'', ''T'', ''O'']),
      (''RC'', [''X'', ''C'', ''R'', ''U''])]"

definition environmentalMetricValues :: "(string \<times> string list) list" where
  "environmentalMetricValues =
     [(''CR'', [''X'', ''H'', ''M'', ''L'']),
      (''IR'', [''X'', ''H'', ''M'', ''L'']),
      (''AR'', [''X'', ''H'', ''M'', ''L'']),
      (''MAV'', [''X'', ''N'', ''A'', ''L'', ''P'']),
      (''MAC'', [''X'', ''L'', ''H'']),
      (''MPR'', [''X'', ''N'', ''L'', ''H'']),
      (''MUI'', [''X'', ''N'', ''R'']),
      (''MS'', [''X'', ''U'', ''C'']),
      (''MC'', [''X'', ''N'', ''L'', ''H'']),
      (''MI'', [''X'', ''N'', ''L'', ''H'']),
      (''MA'', [''X'', ''N'', ''L'', ''H''])]"

section \<open>The metrics map\<close>

text \<open>
  A JavaScript \<^verbatim>\<open>Map<string, string>\<close> keeps its keys in insertion order, and
  \<^verbatim>\<open>checkUnknownMetrics\<close> iterates over them: the map is an association list in
  insertion order. \<^verbatim>\<open>set\<close> on a key that is present replaces its value in place, on
  a new key it appends.
\<close>

type_synonym metrics_map = "(string \<times> string) list"

definition map_has :: "metrics_map \<Rightarrow> string \<Rightarrow> bool" where
  "map_has m k = (map_of m k \<noteq> None)"

definition map_get :: "metrics_map \<Rightarrow> string \<Rightarrow> string option" where
  "map_get m k = map_of m k"

fun map_set :: "metrics_map \<Rightarrow> string \<Rightarrow> string \<Rightarrow> metrics_map" where
  "map_set [] k v = [(k, v)]"
| "map_set (p # ps) k v = (if fst p = k then (k, v) # ps else p # map_set ps k v)"

definition map_keys :: "metrics_map \<Rightarrow> string list" where
  "map_keys m = map fst m"

section \<open>Strings\<close>

text \<open>
  A JavaScript string is modelled by a \<open>string\<close>, each \<open>char\<close> standing for the code
  unit of the same number (so the model covers strings of code units below 256).
\<close>

definition startsWith :: "string \<Rightarrow> string \<Rightarrow> bool" where
  "startsWith s p = (take (length p) s = p)"

fun str_includes :: "string \<Rightarrow> string \<Rightarrow> bool" where
  "str_includes [] p = (p = [])"
| "str_includes (c # cs) p = (startsWith (c # cs) p \<or> str_includes cs p)"

text \<open>\<^verbatim>\<open>s.split(sep)\<close> for a separator of one character.\<close>

fun js_split :: "char \<Rightarrow> string \<Rightarrow> string list" where
  "js_split sep [] = [[]]"
| "js_split sep (c # cs) =
     (if c = sep then [] # js_split sep cs
      else (case js_split sep cs of [] \<Rightarrow> [[c]] | piece # pieces \<Rightarrow> (c # piece) # pieces))"

text \<open>
  The white space and line terminators that \<^verbatim>\<open>trim\<close> removes, among the code units
  below 256: tab, line feed, vertical tab, form feed, carriage return, space and
  no-break space.
\<close>

definition isWhiteSpace :: "char \<Rightarrow> bool" where
  "isWhiteSpace c = (of_char c \<in> {9, 10, 11, 12, 13, 32, 160 :: nat})"

definition trim :: "string \<Rightarrow> string" where
  "trim s = rev (dropWhile isWhiteSpace (rev (dropWhile isWhiteSpace s)))"

text \<open>The regular expression class \<^verbatim>\<open>\d\<close>, and the line terminators that \<^verbatim>\<open>.\<close> excludes.\<close>

definition isDigit :: "char \<Rightarrow> bool" where
  "isDigit c = (c \<in> set ''0123456789'')"

definition isLineTerminator :: "char \<Rightarrow> bool" where
  "isLineTerminator c = (of_char c \<in> {10, 13 :: nat})"

section \<open>The vector parser (parser.ts)\<close>

text \<open>
  \<^verbatim>\<open>const VERSION_REGEX = /^CVSS:(\d(?:\.\d)?)(.*)?$/;\<close>

  \<open>VERSION_REGEX_exec s\<close> is \<open>None\<close> when the expression does not match, and the
  pair of its two capture groups otherwise. The second group is undefined (\<open>None\<close>)
  when nothing is left after the version: an optional group does not take part in
  the match when its body matches the empty string. When the greedy version
  \<^verbatim>\<open>\d\.\d\<close> is followed by a line terminator, the shorter version \<^verbatim>\<open>\d\<close> is followed
  by the same one, so backtracking finds no other match.
\<close>

definition regex_rest :: "string \<Rightarrow> string \<Rightarrow> (string \<times> string option) option" where
  "regex_rest version rest =
     (if list_ex isLineTerminator rest then None
      else Some (version, if rest = [] then None else Some rest))"

definition VERSION_REGEX_exec :: "string \<Rightarrow> (string \<times> string option) option" where
  "VERSION_REGEX_exec s =
     (if \<not> startsWith s ''CVSS:'' then None
      else (case drop 5 s of
              [] \<Rightarrow> None
            | d # r1 \<Rightarrow>
                if \<not> isDigit d then None
                else (case r1 of
                        p # e # r2 \<Rightarrow>
                          if p = CHR ''.'' \<and> isDigit e then regex_rest [d, p, e] r2
                          else regex_rest [d] r1
                      | _ \<Rightarrow> regex_rest [d] r1)))"

text \<open>
  \<^verbatim>\<open>
  export const parseVersion = (cvssStr: string): string | undefined => {
    const versionRegexRes = VERSION_REGEX.exec(cvssStr);
    return versionRegexRes?.[1];
  };
  export const parseVector = (cvssStr: string): string | undefined => {
    const versionRegexRes = VERSION_REGEX.exec(cvssStr);
    return versionRegexRes?.[2]?.substr(1).trim().toString();
  };
  \<close>
\<close>

definition parseVersion :: "string \<Rightarrow> string option" where
  "parseVersion cvssStr = map_option fst (VERSION_REGEX_exec cvssStr)"

definition parseVector :: "string \<Rightarrow> string option" where
  "parseVector cvssStr =
     (case VERSION_REGEX_exec cvssStr of
        None \<Rightarrow> None
      | Some (version, None) \<Rightarrow> None
      | Some (version, Some rest) \<Rightarrow> Some (trim (drop 1 rest)))"

text \<open>
  \<^verbatim>\<open>
  export const parseMetrics = (vectorStr: string): KeyValue<string, string>[] => {
    const metrics = vectorStr.split("/");
    return metrics.map((metric) => {
      const [key, value] = metric.split(":");
      if (!(key && value)) {
        throw new Error(`Invalid metric: "${metric}"`);
      }
      return { key, value };
    });
  };
  \<close>
  The destructuring takes the first two pieces of the split and ignores the others;
  a piece that is missing is \<^verbatim>\<open>undefined\<close>, which is falsy as the empty string is.
\<close>

definition parseMetric :: "string \<Rightarrow> error + (string \<times> string)" where
  "parseMetric metric =
     (case js_split CHR '':'' metric of
        key # value # others \<Rightarrow>
          if key \<noteq> [] \<and> value \<noteq> [] then Inr (key, value)
          else Inl (InvalidMetricSegment metric)
      | _ \<Rightarrow> Inl (InvalidMetricSegment metric))"

fun mapE :: "('a \<Rightarrow> error + 'b) \<Rightarrow> 'a list \<Rightarrow> error + 'b list" where
  "mapE f [] = Inr []"
| "mapE f (x # xs) =
     (case f x of
        Inl e \<Rightarrow> Inl e
      | Inr y \<Rightarrow> (case mapE f xs of Inl e \<Rightarrow> Inl e | Inr ys \<Rightarrow> Inr (y # ys)))"

definition parseMetrics :: "string \<Rightarrow> error + (string \<times> string) list" where
  "parseMetrics vectorStr = mapE parseMetric (js_split CHR ''/'' vectorStr)"

text \<open>
  \<^verbatim>\<open>
  export const parseMetricsAsMap = (cvssStr: string): Map<Metric, MetricValue> =>
    parseMetrics(parseVector(cvssStr) || "").reduce(
      (res, metric) => {
        if (res.has(metric.key)) {
          throw new Error(`Duplicated metric: "${metric.key}:${metric.value || ""}"`);
        }
        return res.set(metric.key, metric.value);
      },
      new Map(),
    );
  \<close>
\<close>

fun reduceMetrics :: "metrics_map \<Rightarrow> (string \<times> string) list \<Rightarrow> error + metrics_map" where
  "reduceMetrics res [] = Inr res"
| "reduceMetrics res (metric # metrics) =
     (if map_has res (fst metric) then Inl (DuplicateMetric (fst metric) (snd metric))
      else reduceMetrics (map_set res (fst metric) (snd metric)) metrics)"

definition parseMetricsAsMap :: "string \<Rightarrow> error + metrics_map" where
  "parseMetricsAsMap cvssStr =
     ebind (parseMetrics (case parseVector cvssStr of None \<Rightarrow> [] | Some v \<Rightarrow> v))
       (reduceMetrics [])"

section \<open>The validator (validator.ts)\<close>

text \<open>
  \<^verbatim>\<open>
  export const validateVersion = (versionStr: string | undefined): void => {
    if (!versionStr) { throw new Error("Invalid CVSS string. Example: ..."); }
    if (versionStr !== "3.0" && versionStr !== "3.1") {
      throw new Error(`Unsupported CVSS version: ${versionStr}. ...`);
    }
  };
  const validateVector = (vectorStr: string | null): void => {
    if (!vectorStr || vectorStr.includes("//")) {
      throw new Error("Invalid CVSS string. Example: ...");
    }
  };
  \<close>
\<close>

definition validateVersion :: "string option \<Rightarrow> error + unit" where
  "validateVersion versionStr =
     (case versionStr of
        None \<Rightarrow> Inl (UnsupportedVersion None)
      | Some v \<Rightarrow>
          if v = [] then Inl (UnsupportedVersion None)
          else if v \<noteq> ''3.0'' \<and> v \<noteq> ''3.1'' then Inl (UnsupportedVersion (Some v))
          else Inr ())"

definition validateVector :: "string option \<Rightarrow> error + unit" where
  "validateVector vectorStr =
     (case vectorStr of
        None \<Rightarrow> Inl MalformedVector
      | Some v \<Rightarrow> if v = [] \<or> str_includes v ''//'' then Inl MalformedVector else Inr ())"

text \<open>
  \<^verbatim>\<open>
  const checkUnknownMetrics = (metricsMap, knownMetrics?: Metrics): void => {
    const allKnownMetrics = knownMetrics || [...baseMetrics, ...temporalMetrics, ...environmentalMetrics];
    const keys = [...metricsMap.keys()];
    for (const userMetric of keys) {
      if (!allKnownMetrics.includes(userMetric as Metric)) {
        throw new Error(`Unknown CVSS metric "${userMetric}". Allowed metrics: ...`);
      }
    }
  };
  \<close>
\<close>

fun checkUnknownLoop :: "string list \<Rightarrow> string list \<Rightarrow> error + unit" where
  "checkUnknownLoop allKnownMetrics [] = Inr ()"
| "checkUnknownLoop allKnownMetrics (userMetric # keys) =
     (if userMetric \<notin> set allKnownMetrics then Inl (UnknownMetric userMetric)
      else checkUnknownLoop allKnownMetrics keys)"

definition checkUnknownMetrics :: "metrics_map \<Rightarrow> string list option \<Rightarrow> error + unit" where
  "checkUnknownMetrics metricsMap knownMetrics =
     (let allKnownMetrics =
            (case knownMetrics of
               Some known \<Rightarrow> known
             | None \<Rightarrow> baseMetrics @ temporalMetrics @ environmentalMetrics)
      in checkUnknownLoop allKnownMetrics (map_keys metricsMap))"

text \<open>
  \<^verbatim>\<open>
  const checkMandatoryMetrics = (metricsMap, metrics: readonly BaseMetric[] = baseMetrics): void => {
    for (const metric of metrics) {
      if (!metricsMap.has(metric)) {
        throw new Error(`Missing mandatory CVSS metric ${metrics} (${humanizeBaseMetric(metric)})`);
      }
    }
  };
  \<close>
\<close>

fun checkMandatoryMetrics :: "metrics_map \<Rightarrow> string list \<Rightarrow> error + unit" where
  "checkMandatoryMetrics metricsMap [] = Inr ()"
| "checkMandatoryMetrics metricsMap (metric # metrics) =
     (if \<not> map_has metricsMap metric then Inl (MissingMandatoryMetric metric)
      else checkMandatoryMetrics metricsMap metrics)"

text \<open>
  \<^verbatim>\<open>
  const checkMetricsValues = (metricsMap, metrics: Metrics, metricsValues: Record<Metric, MetricValue[]>): void => {
    for (const metric of metrics) {
      const userValue = metricsMap.get(metric);
      if (!userValue) { continue; }
      if (!metricsValues[metric].includes(userValue as MetricValue)) {
        ...
        throw new Error(`Invalid value for CVSS metric ${metric} (...): ${userValue}. Allowed values: ...`);
      }
    }
  };
  \<close>
\<close>

fun checkMetricsValues ::
  "metrics_map \<Rightarrow> string list \<Rightarrow> (string \<rightharpoonup> string list) \<Rightarrow> error + unit" where
  "checkMetricsValues metricsMap [] metricsValues = Inr ()"
| "checkMetricsValues metricsMap (metric # metrics) metricsValues =
     (case map_get metricsMap metric of
        None \<Rightarrow> checkMetricsValues metricsMap metrics metricsValues
      | Some userValue \<Rightarrow>
          if userValue = [] then checkMetricsValues metricsMap metrics metricsValues
          else (case metricsValues metric of
                  None \<Rightarrow> Inl TypeError
                | Some allowed \<Rightarrow>
                    if userValue \<notin> set allowed then Inl (InvalidMetricValue metric userValue)
                    else checkMetricsValues metricsMap metrics metricsValues))"

text \<open>
  The fields of \<open>ValidationResult\<close> keep their names; from here on a parameter that
  the source calls \<^verbatim>\<open>metricsMap\<close> is \<open>mm\<close>, and \<^verbatim>\<open>versionStr\<close> is \<open>version\<close>.
\<close>

record ValidationResult =
  isTemporal :: bool
  isEnvironmental :: bool
  metricsMap :: metrics_map
  versionStr :: "string option"

text \<open>
  \<^verbatim>\<open>
  export const validate = (cvssStr: string): ValidationResult => {
    if (!cvssStr?.startsWith("CVSS:")) { throw new Error('CVSS vector must start with "CVSS:"'); }
    const allKnownMetrics = [...baseMetrics, ...temporalMetrics, ...environmentalMetrics];
    const allKnownMetricsValues = {...baseMetricValues, ...temporalMetricValues, ...environmentalMetricValues};
    const versionStr = parseVersion(cvssStr);
    validateVersion(versionStr);
    const vectorStr = parseVector(cvssStr);
    if (!vectorStr) { throw new Error("Invalid CVSS string. Example: ..."); }
    validateVector(vectorStr);
    const metricsMap = parseMetricsAsMap(cvssStr);
    checkMandatoryMetrics(metricsMap);
    checkUnknownMetrics(metricsMap, allKnownMetrics);
    checkMetricsValues(metricsMap, allKnownMetrics, allKnownMetricsValues);
    const isTemporal = [...metricsMap.keys()].some((metric) => temporalMetrics.includes(metric));
    const isEnvironmental = [...metricsMap.keys()].some((metric) => environmentalMetrics.includes(metric));
    return { metricsMap, isTemporal, isEnvironmental, versionStr };
  };
  \<close>
  An object spread lets a later table override an earlier one, as \<open>++\<close> does.
\<close>

definition allKnownMetrics :: "string list" where
  "allKnownMetrics = baseMetrics @ temporalMetrics @ environmentalMetrics"

definition allKnownMetricsValues :: "string \<rightharpoonup> string list" where
  "allKnownMetricsValues =
     map_of baseMetricValues ++ map_of temporalMetricValues ++ map_of environmentalMetricValues"

definition validate :: "string \<Rightarrow> error + ValidationResult" where
  "validate cvssStr =
     (if \<not> startsWith cvssStr ''CVSS:'' then Inl MissingPrefix
      else
        ebind (validateVersion (parseVersion cvssStr)) (\<lambda>_.
        let vectorStr = parseVector cvssStr
        in if vectorStr = None \<or> vectorStr = Some [] then Inl MalformedVector
           else
             ebind (validateVector vectorStr) (\<lambda>_.
             ebind (parseMetricsAsMap cvssStr) (\<lambda>mm.
             ebind (checkMandatoryMetrics mm baseMetrics) (\<lambda>_.
             ebind (checkUnknownMetrics mm (Some allKnownMetrics)) (\<lambda>_.
             ebind (checkMetricsValues mm allKnownMetrics allKnownMetricsValues) (\<lambda>_.
             Inr \<lparr> isTemporal = list_ex (\<lambda>metric. metric \<in> set temporalMetrics) (map_keys mm),
                   isEnvironmental =
                     list_ex (\<lambda>metric. metric \<in> set environmentalMetrics) (map_keys mm),
                   metricsMap = mm,
                   versionStr = parseVersion cvssStr \<rparr>)))))))"

section \<open>The score calculator (score-calculator.ts)\<close>

subsection \<open>Numbers and the round-up function\<close>

text \<open>
  The scores of \<^verbatim>\<open>score-calculator.ts\<close> are JavaScript numbers. The model of the score
  equations computes with exact reals: every literal of the source (\<^verbatim>\<open>0.85\<close>, \<^verbatim>\<open>6.42\<close>,
  ...) is the decimal fraction it is written as, and \<^verbatim>\<open>+\<close>, \<^verbatim>\<open>-\<close>, \<^verbatim>\<open>*\<close>, \<^verbatim>\<open>/\<close>, \<^verbatim>\<open>**\<close>
  are the exact operations. The rounding error of the individual floating-point
  operations is not part of that model. The round-up function is modelled twice: as
  \<open>roundUp\<close> over the exact reals, which the score functions below call, and as
  \<open>roundUp_double\<close> over IEEE 754 double-precision numbers, with every operation of
  the source rounded as JavaScript rounds it. The two differ at doubles next to a
  rounding tie (lemma \<open>roundUp_double_near_tie\<close>) and agree away from the ties (lemma
  \<open>roundUp_double_exact\<close>).
\<close>

text \<open>\<^verbatim>\<open>Math.round\<close>: the nearest integer, a tie going to the larger one.\<close>

definition Math_round :: "real \<Rightarrow> int" where
  "Math_round x = \<lfloor>x + 1 / 2\<rfloor>"

text \<open>\<^verbatim>\<open>Math.floor\<close>.\<close>

definition Math_floor :: "real \<Rightarrow> int" where
  "Math_floor x = \<lfloor>x\<rfloor>"

text \<open>
  \<^verbatim>\<open>
  const roundUp = (input: number): number => {
    const intInput = Math.round(input * 100000);
    return intInput % 10000 === 0
      ? intInput / 100000
      : (Math.floor(intInput / 10000) + 1) / 10;
  };
  \<close>
  The remainder \<^verbatim>\<open>%\<close> of JavaScript truncates towards zero, so it is zero exactly when
  \<open>mod\<close> is.
\<close>

definition roundUp :: "real \<Rightarrow> real" where
  "roundUp input =
     (let intInput = Math_round (input * 100000)
      in if intInput mod 10000 = 0
         then real_of_int intInput / 100000
         else real_of_int (Math_floor (real_of_int intInput / 10000) + 1) / 10)"

subsection \<open>The round-up function in double precision\<close>

text \<open>
  A JavaScript number is an IEEE 754 double-precision number: a finite double, one of
  the two infinities, or NaN. A finite double is represented by the real number it
  denotes; the two zeros are not told apart (they are equal for \<^verbatim>\<open>===\<close>, and no
  operation of \<^verbatim>\<open>roundUp\<close> separates them).
\<close>

datatype number = Finite real | PosInfinity | NegInfinity | NaN

text \<open>
  Rounding a real to an integer, a tie going to the even one: the rounding of the
  significand in the default rounding mode of IEEE 754.
\<close>

definition roundEven :: "real \<Rightarrow> int" where
  "roundEven y =
     (let f = \<lfloor>y\<rfloor>; r = y - real_of_int f
      in if r < 1 / 2 then f else if 1 / 2 < r then f + 1 else if even f then f else f + 1)"

text \<open>
  Every finite double is an integer multiple of 2^-1074, the smallest subnormal. For a
  real \<open>z\<close> and \<open>Z = z * 2 ^ 1074\<close>, the doubles around \<open>z\<close> are 2^E * 2^-1074 apart,
  where \<open>E = 0\<close> when \<open>\<bar>Z\<bar> < 2 ^ 53\<close> (the subnormals and the first binade of normal
  numbers) and \<open>2 ^ (E + 52) \<le> \<bar>Z\<bar> < 2 ^ (E + 53)\<close> otherwise (a significand of 53 bits).
  \<open>bitlen n\<close> is the number of binary digits of the integer \<open>n\<close>.
\<close>

definition ulpExponent :: "real \<Rightarrow> nat" where
  "ulpExponent Z = nat (bitlen \<lfloor>\<bar>Z\<bar>\<rfloor> - 53)"

text \<open>The double nearest to a real, before the check for overflow.\<close>

definition nearestDouble :: "real \<Rightarrow> real" where
  "nearestDouble z =
     (let Z = z * 2 ^ 1074; E = ulpExponent Z
      in real_of_int (roundEven (Z / 2 ^ E)) * 2 ^ E / 2 ^ 1074)"

text \<open>
  The result of an arithmetic operation whose exact result is \<open>z\<close>: the nearest double,
  or an infinity when that is beyond the largest finite double, 2^1024 - 2^971.
\<close>

definition toNumber :: "real \<Rightarrow> number" where
  "toNumber z =
     (let d = nearestDouble z
      in if 2 ^ 1024 \<le> \<bar>d\<bar> then (if 0 < z then PosInfinity else NegInfinity) else Finite d)"

text \<open>
  The operations \<^verbatim>\<open>*\<close>, \<^verbatim>\<open>/\<close> and \<^verbatim>\<open>+\<close> with a number on the left and, on the right, one
  of the literals \<^verbatim>\<open>100000\<close>, \<^verbatim>\<open>10000\<close>, \<^verbatim>\<open>10\<close> and \<^verbatim>\<open>1\<close> of \<^verbatim>\<open>roundUp\<close>, which are positive
  finite doubles: on a finite number the exact result is rounded, and an infinity and
  NaN are returned unchanged.
\<close>

fun js_times :: "number \<Rightarrow> real \<Rightarrow> number" where
  "js_times (Finite a) c = toNumber (a * c)"
| "js_times x c = x"

fun js_over :: "number \<Rightarrow> real \<Rightarrow> number" where
  "js_over (Finite a) c = toNumber (a / c)"
| "js_over x c = x"

fun js_plus :: "number \<Rightarrow> real \<Rightarrow> number" where
  "js_plus (Finite a) c = toNumber (a + c)"
| "js_plus x c = x"

text \<open>
  \<^verbatim>\<open>Math.round\<close> and \<^verbatim>\<open>Math.floor\<close> on a number. Both are exact: the integer they
  return for a finite double is a double.
\<close>

fun js_Math_round :: "number \<Rightarrow> number" where
  "js_Math_round (Finite a) = Finite (real_of_int \<lfloor>a + 1 / 2\<rfloor>)"
| "js_Math_round x = x"

fun js_Math_floor :: "number \<Rightarrow> number" where
  "js_Math_floor (Finite a) = Finite (real_of_int \<lfloor>a\<rfloor>)"
| "js_Math_floor x = x"

text \<open>
  The test \<^verbatim>\<open>x % c === 0\<close>. The remainder of JavaScript is exact, and it is zero exactly
  when the finite \<open>x\<close> is an integer multiple of \<open>c\<close>; the remainder of an infinity and
  of NaN is NaN, which is not equal to 0.
\<close>

fun remainderIsZero :: "number \<Rightarrow> real \<Rightarrow> bool" where
  "remainderIsZero (Finite a) c = (a / c = real_of_int \<lfloor>a / c\<rfloor>)"
| "remainderIsZero x c = False"

text \<open>
  \<^verbatim>\<open>roundUp\<close> again, each operation of the source replaced by its double-precision
  counterpart.
\<close>

definition roundUp_double :: "number \<Rightarrow> number" where
  "roundUp_double input =
     (let intInput = js_Math_round (js_times input 100000)
      in if remainderIsZero intInput 10000 then js_over intInput 100000
         else js_over (js_plus (js_Math_floor (js_over intInput 10000)) 1) 10)"

subsection \<open>Weight tables\<close>

text \<open>
  A table entry is \<^verbatim>\<open>null\<close> (\<open>None\<close>) for the two Privileges Required metrics, whose
  weight depends on the scope. The entries of the Modified metrics are the very
  objects of their Base metrics.
\<close>

definition baseMetricValueScores :: "(string \<times> (string \<times> real) list option) list" where
  "baseMetricValueScores =
     [(''AV'', Some [(''N'', 0.85), (''A'', 0.62), (''L'', 0.55), (''P'', 0.2)]),
      (''AC'', Some [(''L'', 0.77), (''H'', 0.44)]),
      (''PR'', None),
      (''UI'', Some [(''N'', 0.85), (''R'', 0.62)]),
      (''S'', Some [(''U'', 0), (''C'', 0)]),
      (''C'', Some [(''N'', 0), (''L'', 0.22), (''H'', 0.56)]),
      (''I'', Some [(''N'', 0), (''L'', 0.22), (''H'', 0.56)]),
      (''A'', Some [(''N'', 0), (''L'', 0.22), (''H'', 0.56)])]"

definition temporalMetricValueScores :: "(string \<times> (string \<times> real) list option) list" where
  "temporalMetricValueScores =
     [(''E'', Some [(''X'', 1), (''U'', 0.91), (''F'', 0.97), (''P'', 0.94), (''H'', 1)]),
      (''RL'', Some [(''X'', 1), (''O'', 0.95), (''T'', 0.96), (''W'', 0.97), (''U'', 1)]),
      (''RC'', Some [(''X'', 1), (''U'', 0.92), (''R'', 0.96), (''C'', 1)])]"

definition baseScoresOf :: "string \<Rightarrow> (string \<times> real) list option" where
  "baseScoresOf metric =
     (case map_of baseMetricValueScores metric of None \<Rightarrow> None | Some entry \<Rightarrow> entry)"

definition environmentalMetricValueScores :: "(string \<times> (string \<times> real) list option) list" where
  "environmentalMetricValueScores =
     [(''CR'', Some [(''M'', 1), (''L'', 0.5), (''H'', 1.5), (''X'', 1)]),
      (''IR'', Some [(''M'', 1), (''L'', 0.5), (''H'', 1.5), (''X'', 1)]),
      (''AR'', Some [(''M'', 1), (''L'', 0.5), (''H'', 1.5), (''X'', 1)]),
      (''MAV'', baseScoresOf ''AV''),
      (''MAC'', baseScoresOf ''AC''),
      (''MPR'', None),
      (''MUI'', baseScoresOf ''UI''),
      (''MS'', baseScoresOf ''S''),
      (''MC'', baseScoresOf ''C''),
      (''MI'', baseScoresOf ''I''),
      (''MA'', baseScoresOf ''A'')]"

subsection \<open>Weight lookup\<close>

text \<open>
  \<^verbatim>\<open>
  const getPrivilegesRequiredNumericValue = (value, scopeValue): number => {
    if (scopeValue !== "U" && scopeValue !== "C") { throw new Error(`Unknown Scope value: ${scopeValue}`); }
    switch (value) {
      case "N": return 0.85;
      case "L": return scopeValue === "U" ? 0.62 : 0.68;
      case "H": return scopeValue === "U" ? 0.27 : 0.5;
      default: throw new Error(`Unknown PrivilegesRequired value: ${value}`);
    }
  };
  const getMetricValue = (metric, metricsMap): MetricValue => {
    if (!metricsMap.has(metric)) { throw new Error(`Missing metric: ${metric}`); }
    return metricsMap.get(metric) as BaseMetricValue;
  };
  \<close>
\<close>

definition getPrivilegesRequiredNumericValue :: "string \<Rightarrow> string \<Rightarrow> error + real" where
  "getPrivilegesRequiredNumericValue val scopeValue =
     (if scopeValue \<noteq> ''U'' \<and> scopeValue \<noteq> ''C'' then Inl (UnknownScopeValue scopeValue)
      else if val = ''N'' then Inr 0.85
      else if val = ''L'' then Inr (if scopeValue = ''U'' then 0.62 else 0.68)
      else if val = ''H'' then Inr (if scopeValue = ''U'' then 0.27 else 0.5)
      else Inl (UnknownPrivilegesRequiredValue val))"

definition getMetricValue :: "string \<Rightarrow> metrics_map \<Rightarrow> error + string" where
  "getMetricValue metric mm =
     (case map_get mm metric of
        None \<Rightarrow> Inl (MissingMetric metric)
      | Some v \<Rightarrow> Inr v)"

text \<open>
  \<^verbatim>\<open>
  const getMetricNumericValue = (metric, metricsMap): number => {
    const value = getMetricValue((metric as BaseMetric) || TemporalMetric || EnvironmentalMetric, metricsMap);
    if (metric === BaseMetric.PRIVILEGES_REQUIRED) {
      return getPrivilegesRequiredNumericValue(value, getMetricValue(BaseMetric.SCOPE, metricsMap));
    }
    if (metric === EnvironmentalMetric.MODIFIED_PRIVILEGES_REQUIRED) {
      return getPrivilegesRequiredNumericValue(value, getMetricValue(EnvironmentalMetric.MODIFIED_SCOPE, metricsMap));
    }
    const score = {...baseMetricValueScores, ...temporalMetricValueScores, ...environmentalMetricValueScores}[metric];
    if (!score) { throw new Error(`Internal error. Missing metric score: ${metric}`); }
    const numericValue = score[value];
    if (numericValue === undefined) { throw new Error(`Unknown metric value: ${value}`); }
    return numericValue;
  };
  \<close>
  The function is private and every caller passes a metric code, which is a non-empty
  string, so the first argument of \<^verbatim>\<open>getMetricValue\<close> is \<^verbatim>\<open>metric\<close>. The tables are
  plain objects; the model looks a value up among the table's own keys.
\<close>

definition allMetricValueScores :: "string \<rightharpoonup> (string \<times> real) list option" where
  "allMetricValueScores =
     map_of baseMetricValueScores ++ map_of temporalMetricValueScores
       ++ map_of environmentalMetricValueScores"

definition getMetricNumericValue :: "string \<Rightarrow> metrics_map \<Rightarrow> error + real" where
  "getMetricNumericValue metric mm =
     ebind (getMetricValue metric mm) (\<lambda>val.
       if metric = ''PR'' then
         ebind (getMetricValue ''S'' mm) (getPrivilegesRequiredNumericValue val)
       else if metric = ''MPR'' then
         ebind (getMetricValue ''MS'' mm) (getPrivilegesRequiredNumericValue val)
       else
         (case allMetricValueScores metric of
            None \<Rightarrow> Inl (InternalScoreTableError metric)
          | Some None \<Rightarrow> Inl (InternalScoreTableError metric)
          | Some (Some score) \<Rightarrow>
              (case map_of score val of
                 None \<Rightarrow> Inl (UnknownMetricValue val)
               | Some numericValue \<Rightarrow> Inr numericValue)))"

subsection \<open>Equations\<close>

text \<open>
  \<^verbatim>\<open>calculateIss\<close>: \<^verbatim>\<open>1 - (1 - confidentiality) * (1 - integrity) * (1 - availability)\<close>.
\<close>

definition calculateIss :: "metrics_map \<Rightarrow> error + real" where
  "calculateIss mm =
     ebind (getMetricNumericValue ''C'' mm) (\<lambda>confidentiality.
     ebind (getMetricNumericValue ''I'' mm) (\<lambda>integrity.
     ebind (getMetricNumericValue ''A'' mm) (\<lambda>availability.
     Inr (1 - (1 - confidentiality) * (1 - integrity) * (1 - availability)))))"

text \<open>
  \<^verbatim>\<open>calculateMiss\<close>: the lookups are made in the order CR, MC, IR, MI, AR, MA, then
  \<^verbatim>\<open>Math.min(1 - (1 - rC * mC) * (1 - rI * mI) * (1 - rA * mA), 0.915)\<close>.
\<close>

definition calculateMiss :: "metrics_map \<Rightarrow> error + real" where
  "calculateMiss mm =
     ebind (getMetricNumericValue ''CR'' mm) (\<lambda>rConfidentiality.
     ebind (getMetricNumericValue ''MC'' mm) (\<lambda>mConfidentiality.
     ebind (getMetricNumericValue ''IR'' mm) (\<lambda>rIntegrity.
     ebind (getMetricNumericValue ''MI'' mm) (\<lambda>mIntegrity.
     ebind (getMetricNumericValue ''AR'' mm) (\<lambda>rAvailability.
     ebind (getMetricNumericValue ''MA'' mm) (\<lambda>mAvailability.
     Inr (min (1 - (1 - rConfidentiality * mConfidentiality)
                    * (1 - rIntegrity * mIntegrity)
                    * (1 - rAvailability * mAvailability))
              0.915)))))))"

text \<open>
  \<^verbatim>\<open>
  export const calculateImpact = (metricsMap, iss): number =>
    metricsMap.get(BaseMetric.SCOPE) === "U"
      ? 6.42 * iss
      : 7.52 * (iss - 0.029) - 3.25 * (iss - 0.02) ** 15;
  export const calculateModifiedImpact = (metricsMap, miss, versionStr: string | null): number =>
    metricsMap.get(EnvironmentalMetric.MODIFIED_SCOPE) === "U"
      ? 6.42 * miss
      : 7.52 * (miss - 0.029) -
        3.25 * (miss * (versionStr === "3.0" ? 1 : 0.9731) - 0.02) ** (versionStr === "3.0" ? 15 : 13);
  \<close>
\<close>

definition calculateImpact :: "metrics_map \<Rightarrow> real \<Rightarrow> real" where
  "calculateImpact mm iss =
     (if map_get mm ''S'' = Some ''U'' then 6.42 * iss
      else 7.52 * (iss - 0.029) - 3.25 * (iss - 0.02) ^ 15)"

definition calculateModifiedImpact :: "metrics_map \<Rightarrow> real \<Rightarrow> string option \<Rightarrow> real" where
  "calculateModifiedImpact mm miss version =
     (if map_get mm ''MS'' = Some ''U'' then 6.42 * miss
      else 7.52 * (miss - 0.029)
           - 3.25 * (miss * (if version = Some ''3.0'' then 1 else 0.9731) - 0.02)
                    ^ (if version = Some ''3.0'' then 15 else 13))"

text \<open>
  \<^verbatim>\<open>calculateExploitability\<close>: \<^verbatim>\<open>8.22 * AV * AC * PR * UI\<close>, and
  \<^verbatim>\<open>calculateModifiedExploitability\<close>: \<^verbatim>\<open>8.22 * MAV * MAC * MPR * MUI\<close>, the lookups from
  left to right.
\<close>

definition calculateExploitability :: "metrics_map \<Rightarrow> error + real" where
  "calculateExploitability mm =
     ebind (getMetricNumericValue ''AV'' mm) (\<lambda>av.
     ebind (getMetricNumericValue ''AC'' mm) (\<lambda>ac.
     ebind (getMetricNumericValue ''PR'' mm) (\<lambda>pr.
     ebind (getMetricNumericValue ''UI'' mm) (\<lambda>ui.
     Inr (8.22 * av * ac * pr * ui)))))"

definition calculateModifiedExploitability :: "metrics_map \<Rightarrow> error + real" where
  "calculateModifiedExploitability mm =
     ebind (getMetricNumericValue ''MAV'' mm) (\<lambda>mav.
     ebind (getMetricNumericValue ''MAC'' mm) (\<lambda>mac.
     ebind (getMetricNumericValue ''MPR'' mm) (\<lambda>mpr.
     ebind (getMetricNumericValue ''MUI'' mm) (\<lambda>mui.
     Inr (8.22 * mav * mac * mpr * mui)))))"

subsection \<open>Default population\<close>

text \<open>
  \<^verbatim>\<open>
  export const modifiedMetricsMap: { [key: string]: BaseMetric } = {
    MAV: BaseMetric.ATTACK_VECTOR, MAC: BaseMetric.ATTACK_COMPLEXITY,
    MPR: BaseMetric.PRIVILEGES_REQUIRED, MUI: BaseMetric.USER_INTERACTION,
    MS: BaseMetric.SCOPE, MC: BaseMetric.CONFIDENTIALITY,
    MI: BaseMetric.INTEGRITY, MA: BaseMetric.AVAILABILITY,
  };
  export const populateTemporalMetricDefaults = (metricsMap) => {
    for (const metric of temporalMetrics) {
      if (!metricsMap.has(metric)) { metricsMap.set(metric, "X"); }
    }
    return metricsMap;
  };
  \<close>
  The source updates the map in place and returns it; the model returns the new map.
\<close>

definition modifiedMetricsMap :: "(string \<times> string) list" where
  "modifiedMetricsMap =
     [(''MAV'', ''AV''), (''MAC'', ''AC''), (''MPR'', ''PR''), (''MUI'', ''UI''),
      (''MS'', ''S''), (''MC'', ''C''), (''MI'', ''I''), (''MA'', ''A'')]"

definition populateTemporalStep :: "metrics_map \<Rightarrow> string \<Rightarrow> metrics_map" where
  "populateTemporalStep mm metric =
     (if \<not> map_has mm metric then map_set mm metric ''X'' else mm)"

definition populateTemporalMetricDefaults :: "metrics_map \<Rightarrow> metrics_map" where
  "populateTemporalMetricDefaults mm = foldl populateTemporalStep mm temporalMetrics"

text \<open>
  \<^verbatim>\<open>
  export const populateEnvironmentalMetricDefaults = (metricsMap) => {
    for (const metric of environmentalMetrics) {
      if (!metricsMap.has(metric)) { metricsMap.set(metric, "X"); }
      if (metricsMap.get(metric) === "X") {
        const modifiedMetric = modifiedMetricsMap[metric];
        if (!modifiedMetric) { throw new Error(`Missing modified metric for ${metric}`); }
        metricsMap.set(metric,
          metricsMap.has(modifiedMetric) ? (metricsMap.get(modifiedMetric) as MetricValue) : "X");
      }
    }
    return metricsMap;
  };
  \<close>
  One round of the loop is \<open>populateEnvironmentalStep\<close>; the loop stops at the first
  throw.
\<close>

definition populateEnvironmentalStep :: "metrics_map \<Rightarrow> string \<Rightarrow> error + metrics_map" where
  "populateEnvironmentalStep mm metric =
     (let m1 = (if \<not> map_has mm metric then map_set mm metric ''X''
                else mm)
      in if map_get m1 metric = Some ''X'' then
           (case map_of modifiedMetricsMap metric of
              None \<Rightarrow> Inl (MissingModifiedMetric metric)
            | Some modifiedMetric \<Rightarrow>
                Inr (map_set m1 metric
                       (case map_get m1 modifiedMetric of Some v \<Rightarrow> v | None \<Rightarrow> ''X'')))
         else Inr m1)"

fun populateEnvironmentalLoop :: "metrics_map \<Rightarrow> string list \<Rightarrow> error + metrics_map" where
  "populateEnvironmentalLoop mm [] = Inr mm"
| "populateEnvironmentalLoop mm (metric # metrics) =
     (case populateEnvironmentalStep mm metric of
        Inl e \<Rightarrow> Inl e
      | Inr m' \<Rightarrow> populateEnvironmentalLoop m' metrics)"

definition populateEnvironmentalMetricDefaults :: "metrics_map \<Rightarrow> error + metrics_map" where
  "populateEnvironmentalMetricDefaults mm =
     populateEnvironmentalLoop mm environmentalMetrics"

subsection \<open>Score assembly\<close>

text \<open>
  The field \<^verbatim>\<open>metricsMap\<close> of \<^verbatim>\<open>ScoreResult\<close> is \<open>scoreMetricsMap\<close> here, the name
  \<open>metricsMap\<close> being the field of \<open>ValidationResult\<close>.
\<close>

record ScoreResult =
  score :: real
  impact :: real
  exploitability :: real
  scoreMetricsMap :: metrics_map

text \<open>
  \<^verbatim>\<open>
  export const calculateBaseResult = (cvssString: string): ScoreResult => {
    const { metricsMap } = validate(cvssString);
    const iss = calculateIss(metricsMap);
    const impact = calculateImpact(metricsMap, iss);
    const exploitability = calculateExploitability(metricsMap);
    const scopeUnchanged = metricsMap.get(BaseMetric.SCOPE) === "U";
    const score = impact <= 0 ? 0
      : scopeUnchanged ? roundUp(Math.min(impact + exploitability, 10))
                       : roundUp(Math.min(1.08 * (impact + exploitability), 10));
    return { score, metricsMap,
             impact: impact <= 0 ? 0 : roundUp(impact),
             exploitability: impact <= 0 ? 0 : roundUp(exploitability) };
  };
  \<close>
\<close>

definition baseScoreOf :: "bool \<Rightarrow> real \<Rightarrow> real \<Rightarrow> real" where
  "baseScoreOf scopeUnchanged imp expl =
     (if imp \<le> 0 then 0
      else if scopeUnchanged then roundUp (min (imp + expl) 10)
      else roundUp (min (1.08 * (imp + expl)) 10))"

definition calculateBaseResult :: "string \<Rightarrow> error + ScoreResult" where
  "calculateBaseResult cvssString =
     ebind (validate cvssString) (\<lambda>validationResult.
     let mm = metricsMap validationResult
     in ebind (calculateIss mm) (\<lambda>iss.
        let imp = calculateImpact mm iss
        in ebind (calculateExploitability mm) (\<lambda>expl.
           let scopeUnchanged = (map_get mm ''S'' = Some ''U'')
           in Inr \<lparr> score = baseScoreOf scopeUnchanged imp expl,
                    impact = (if imp \<le> 0 then 0 else roundUp imp),
                    exploitability = (if imp \<le> 0 then 0 else roundUp expl),
                    scoreMetricsMap = mm \<rparr>)))"

definition calculateBaseScore :: "string \<Rightarrow> error + real" where
  "calculateBaseScore cvssString = ebind (calculateBaseResult cvssString) (\<lambda>r. Inr (score r))"

text \<open>
  \<^verbatim>\<open>
  export const calculateTemporalResult = (cvssString: string): ScoreResult => {
    let { metricsMap } = validate(cvssString);
    metricsMap = populateTemporalMetricDefaults(metricsMap);
    const { score, impact, exploitability } = calculateBaseResult(cvssString);
    const tempScore = roundUp(
      score *
        getMetricNumericValue(TemporalMetric.REPORT_CONFIDENCE, metricsMap) *
        getMetricNumericValue(TemporalMetric.EXPLOIT_CODE_MATURITY, metricsMap) *
        getMetricNumericValue(TemporalMetric.REMEDIATION_LEVEL, metricsMap));
    return { score: tempScore, metricsMap, impact, exploitability };
  };
  \<close>
\<close>

definition calculateTemporalResult :: "string \<Rightarrow> error + ScoreResult" where
  "calculateTemporalResult cvssString =
     ebind (validate cvssString) (\<lambda>validationResult.
     let mm = populateTemporalMetricDefaults (metricsMap validationResult)
     in ebind (calculateBaseResult cvssString) (\<lambda>baseResult.
        ebind (getMetricNumericValue ''RC'' mm) (\<lambda>rc.
        ebind (getMetricNumericValue ''E'' mm) (\<lambda>e.
        ebind (getMetricNumericValue ''RL'' mm) (\<lambda>rl.
        Inr \<lparr> score = roundUp (score baseResult * rc * e * rl),
               impact = impact baseResult,
               exploitability = exploitability baseResult,
               scoreMetricsMap = mm \<rparr>)))))"

definition calculateTemporalScore :: "string \<Rightarrow> error + real" where
  "calculateTemporalScore cvssString =
     ebind (calculateTemporalResult cvssString) (\<lambda>r. Inr (score r))"

text \<open>
  \<^verbatim>\<open>
  export const calculateEnvironmentalResult = (cvssString: string): ScoreResult => {
    const validationResult = validate(cvssString);
    const { versionStr } = validationResult;
    let { metricsMap } = validationResult;
    metricsMap = populateTemporalMetricDefaults(metricsMap);
    metricsMap = populateEnvironmentalMetricDefaults(metricsMap);
    const miss = calculateMiss(metricsMap);
    if (!versionStr) { throw new Error("Version not found"); }
    const impact = calculateModifiedImpact(metricsMap, miss, versionStr);
    const exploitability = calculateModifiedExploitability(metricsMap);
    const scopeUnchanged = metricsMap.get(EnvironmentalMetric.MODIFIED_SCOPE) === "U";
    const score = impact <= 0 ? 0
      : scopeUnchanged
        ? roundUp(roundUp(Math.min(impact + exploitability, 10)) * E * RL * RC)
        : roundUp(roundUp(Math.min(1.08 * (impact + exploitability), 10)) * E * RL * RC);
    return { score, metricsMap,
             impact: impact <= 0 ? 0 : roundUp(impact),
             exploitability: impact <= 0 ? 0 : roundUp(exploitability) };
  };
  \<close>
  where \<^verbatim>\<open>E\<close>, \<^verbatim>\<open>RL\<close>, \<^verbatim>\<open>RC\<close> stand for the three calls of \<^verbatim>\<open>getMetricNumericValue\<close>, made
  in this order and only when \<^verbatim>\<open>impact\<close> is positive.
\<close>

definition environmentalScoreOf :: "metrics_map \<Rightarrow> bool \<Rightarrow> real \<Rightarrow> real \<Rightarrow> error + real" where
  "environmentalScoreOf mm scopeUnchanged imp expl =
     (if imp \<le> 0 then Inr 0
      else
        ebind (getMetricNumericValue ''E'' mm) (\<lambda>e.
        ebind (getMetricNumericValue ''RL'' mm) (\<lambda>rl.
        ebind (getMetricNumericValue ''RC'' mm) (\<lambda>rc.
        Inr (if scopeUnchanged then roundUp (roundUp (min (imp + expl) 10) * e * rl * rc)
             else roundUp (roundUp (min (1.08 * (imp + expl)) 10) * e * rl * rc))))))"

definition calculateEnvironmentalResult :: "string \<Rightarrow> error + ScoreResult" where
  "calculateEnvironmentalResult cvssString =
     ebind (validate cvssString) (\<lambda>validationResult.
     ebind (populateEnvironmentalMetricDefaults
              (populateTemporalMetricDefaults (metricsMap validationResult))) (\<lambda>mm.
     ebind (calculateMiss mm) (\<lambda>miss.
       if versionStr validationResult = None \<or> versionStr validationResult = Some []
       then Inl VersionNotFound
       else
         let imp = calculateModifiedImpact mm miss (versionStr validationResult)
         in ebind (calculateModifiedExploitability mm) (\<lambda>expl.
            let scopeUnchanged = (map_get mm ''MS'' = Some ''U'')
            in ebind (environmentalScoreOf mm scopeUnchanged imp expl) (\<lambda>sc.
               Inr \<lparr> score = sc,
                      impact = (if imp \<le> 0 then 0 else roundUp imp),
                      exploitability = (if imp \<le> 0 then 0 else roundUp expl),
                      scoreMetricsMap = mm \<rparr>)))))"

definition calculateEnvironmentalScore :: "string \<Rightarrow> error + real" where
  "calculateEnvironmentalScore cvssString =
     ebind (calculateEnvironmentalResult cvssString) (\<lambda>r. Inr (score r))"

section \<open>Definitions used by the statements and proofs\<close>

text \<open>
  The round-up function as the specification words it, in double precision: multiply by
  100000, round to the nearest integer; if that integer is divisible by 10000 the result
  is that/100000, else it is floor(that/10000 + 1)/10.
\<close>

definition roundUp_spec_double :: "number \<Rightarrow> number" where
  "roundUp_spec_double input =
     (let that = js_Math_round (js_times input 100000)
      in if remainderIsZero that 10000 then js_over that 100000
         else js_over (js_Math_floor (js_plus (js_over that 10000) 1)) 10)"

text \<open>Whether a number is finite: neither an infinity nor NaN.\<close>

fun isFinite :: "number \<Rightarrow> bool" where
  "isFinite (Finite a) = True"
| "isFinite x = False"

text \<open>
  The key and the value of a segment, read off the segment itself: the key is what
  stands before the first colon, the value what stands between the first colon and the
  second one (or the end of the segment).
\<close>

definition segmentKey :: "string \<Rightarrow> string" where
  "segmentKey seg = takeWhile (\<lambda>c. c \<noteq> CHR '':'') seg"

definition segmentValue :: "string \<Rightarrow> string" where
  "segmentValue seg =
     takeWhile (\<lambda>c. c \<noteq> CHR '':'') (drop (length (segmentKey seg) + 1) seg)"

definition segmentAccepted :: "string \<Rightarrow> bool" where
  "segmentAccepted seg = (segmentKey seg \<noteq> [] \<and> segmentValue seg \<noteq> [])"

text \<open>
  The vector body of a string (empty when there is none), its segments, and the
  key/value pairs written in them.
\<close>

definition vectorBody :: "string \<Rightarrow> string" where
  "vectorBody cvssStr = (case parseVector cvssStr of None \<Rightarrow> [] | Some v \<Rightarrow> v)"

definition segments :: "string \<Rightarrow> string list" where
  "segments cvssStr = js_split CHR ''/'' (vectorBody cvssStr)"

definition rawPairs :: "string \<Rightarrow> (string \<times> string) list" where
  "rawPairs cvssStr = map (\<lambda>seg. (segmentKey seg, segmentValue seg)) (segments cvssStr)"

text \<open>The legal values of a metric (none for a string that is not a metric).\<close>

definition legalValues :: "string \<Rightarrow> string list" where
  "legalValues metric = (case allKnownMetricsValues metric of None \<Rightarrow> [] | Some vs \<Rightarrow> vs)"

text \<open>
  What \<open>validate\<close> establishes about a metrics map: the eight Base metrics are keys,
  every key is one of the 22 metrics, and every value is legal for its metric.
\<close>

definition validated :: "metrics_map \<Rightarrow> bool" where
  "validated mm =
     ((\<forall>b \<in> set baseMetrics. map_get mm b \<noteq> None)
      \<and> set (map_keys mm) \<subseteq> set allKnownMetrics
      \<and> (\<forall>m \<in> set allKnownMetrics. \<forall>v. map_get mm m = Some v \<longrightarrow> v \<in> set (legalValues m)))"

text \<open>
  The seven checks of \<open>validate\<close> in the order of the specification, each as a
  condition on the input string alone: the check fails when its condition holds.
\<close>

definition missingPrefix :: "string \<Rightarrow> bool" where
  "missingPrefix cvssStr = (\<not> startsWith cvssStr ''CVSS:'')"

definition unsupportedVersion :: "string \<Rightarrow> bool" where
  "unsupportedVersion cvssStr =
     (parseVersion cvssStr \<noteq> Some ''3.0'' \<and> parseVersion cvssStr \<noteq> Some ''3.1'')"

definition malformedVector :: "string \<Rightarrow> bool" where
  "malformedVector cvssStr =
     (vectorBody cvssStr = [] \<or> str_includes (vectorBody cvssStr) ''//'')"

definition parserError :: "string \<Rightarrow> bool" where
  "parserError cvssStr =
     ((\<exists>seg \<in> set (segments cvssStr). \<not> segmentAccepted seg)
      \<or> \<not> distinct (map fst (rawPairs cvssStr)))"

definition missingMandatoryMetric :: "string \<Rightarrow> bool" where
  "missingMandatoryMetric cvssStr =
     (\<exists>b \<in> set baseMetrics. b \<notin> fst ` set (rawPairs cvssStr))"

definition unknownMetric :: "string \<Rightarrow> bool" where
  "unknownMetric cvssStr = (\<exists>k \<in> fst ` set (rawPairs cvssStr). k \<notin> set allKnownMetrics)"

definition invalidMetricValue :: "string \<Rightarrow> bool" where
  "invalidMetricValue cvssStr =
     (\<exists>p \<in> set (rawPairs cvssStr).
        fst p \<in> set allKnownMetrics \<and> snd p \<notin> set (legalValues (fst p)))"

definition failingCheck :: "nat \<Rightarrow> string \<Rightarrow> bool" where
  "failingCheck n cvssStr =
     (if n = 1 then missingPrefix cvssStr
      else if n = 2 then unsupportedVersion cvssStr
      else if n = 3 then malformedVector cvssStr
      else if n = 4 then parserError cvssStr
      else if n = 5 then missingMandatoryMetric cvssStr
      else if n = 6 then unknownMetric cvssStr
      else if n = 7 then invalidMetricValue cvssStr
      else False)"

text \<open>The check that raises an error (0 for the errors that \<open>validate\<close> never raises).\<close>

fun checkOf :: "error \<Rightarrow> nat" where
  "checkOf MissingPrefix = 1"
| "checkOf (UnsupportedVersion v) = 2"
| "checkOf MalformedVector = 3"
| "checkOf (InvalidMetricSegment seg) = 4"
| "checkOf (DuplicateMetric k v) = 4"
| "checkOf (MissingMandatoryMetric m) = 5"
| "checkOf (UnknownMetric k) = 6"
| "checkOf (InvalidMetricValue m v) = 7"
| "checkOf e = 0"

text \<open>\<open>returns m P\<close>: the computation \<open>m\<close> does not throw, and its result satisfies \<open>P\<close>.\<close>

definition returns :: "error + 'a \<Rightarrow> ('a \<Rightarrow> bool) \<Rightarrow> bool" where
  "returns m P = (case m of Inl e \<Rightarrow> False | Inr x \<Rightarrow> P x)"

text \<open>
  The value a Modified metric \<open>m\<close> with Base counterpart \<open>b\<close> is to hold after default
  population: its own value when it has one other than \<^verbatim>\<open>X\<close>, the value of \<open>b\<close> otherwise.
\<close>

definition resolvedValue :: "metrics_map \<Rightarrow> string \<Rightarrow> string \<Rightarrow> string option" where
  "resolvedValue mm m b =
     (case map_get mm m of
        None \<Rightarrow> map_get mm b
      | Some own \<Rightarrow> if own = ''X'' then map_get mm b else Some own)"

text \<open>A requirement metric (CR, IR, AR) is defined: present, with a value other than \<^verbatim>\<open>X\<close>.\<close>

definition requirementsDefined :: "metrics_map \<Rightarrow> bool" where
  "requirementsDefined mm =
     (\<forall>q \<in> {''CR'', ''IR'', ''AR''}. map_get mm q \<noteq> None \<and> map_get mm q \<noteq> Some ''X'')"

text \<open>The number of tenths in \<open>roundUp x\<close>.\<close>

definition tenths :: "real \<Rightarrow> int" where
  "tenths x =
     (let n = Math_round (x * 100000)
      in if n mod 10000 = 0 then n div 10000 else n div 10000 + 1)"

text \<open>
  The integer that \<open>roundUp_double\<close> computes first (\<^verbatim>\<open>intInput\<close> in the source) on a finite
  number, and the number of tenths in its result as a function of that integer.
\<close>

definition intInputOf :: "real \<Rightarrow> int" where
  "intInputOf a = \<lfloor>nearestDouble (a * 100000) + 1 / 2\<rfloor>"

definition tenthsOf :: "int \<Rightarrow> int" where
  "tenthsOf n = (if n mod 10000 = 0 then n div 10000 else n div 10000 + 1)"

section \<open>Sequencing\<close>

lemma ebind_Inl [simp]: "ebind (Inl e) f = Inl e"
  by (simp add: ebind_def)

lemma ebind_Inr [simp]: "ebind (Inr x) f = f x"
  by (simp add: ebind_def)

lemma returns_Inr [simp]: "returns (Inr x) P = P x"
  by (simp add: returns_def)

lemma returns_Inl [simp]: "returns (Inl e) P = False"
  by (simp add: returns_def)

lemma returns_iff: "returns m P \<longleftrightarrow> (\<exists>x. m = Inr x \<and> P x)"
  by (cases m) simp_all

lemma returns_mono: "returns m P \<Longrightarrow> (\<And>x. P x \<Longrightarrow> Q x) \<Longrightarrow> returns m Q"
  by (cases m) simp_all

lemma returns_ebind: "returns (ebind m f) P \<longleftrightarrow> returns m (\<lambda>x. returns (f x) P)"
  by (cases m) simp_all

lemma ebind_eq_Inr_iff: "ebind m f = Inr y \<longleftrightarrow> (\<exists>x. m = Inr x \<and> f x = Inr y)"
  by (cases m) simp_all

section \<open>The round-up function\<close>

lemma floor_div_10000: "\<lfloor>real_of_int n / 10000\<rfloor> = n div 10000"
  using floor_divide_of_int_eq [of n 10000, where ?'a = real] by simp

lemma roundUp_tenths: "roundUp x = real_of_int (tenths x) / 10"
proof -
  define n where "n = Math_round (x * 100000)"
  show ?thesis
  proof (cases "n mod 10000 = 0")
    case True
    then have "n = 10000 * (n div 10000)"
      by (simp add: mod_eq_0_iff_dvd)
    then have "real_of_int n = 10000 * real_of_int (n div 10000)"
      by (metis of_int_mult of_int_numeral)
    then have "real_of_int n / 100000 = real_of_int (n div 10000) / 10"
      by simp
    with True show ?thesis
      by (simp add: roundUp_def tenths_def Let_def n_def [symmetric])
  next
    case False
    then show ?thesis
      by (simp add: roundUp_def tenths_def Let_def n_def [symmetric] Math_floor_def
          floor_div_10000)
  qed
qed

lemma Math_round_of_int: "Math_round (real_of_int k) = k"
  unfolding Math_round_def by linarith

lemma Math_round_mono: "x \<le> y \<Longrightarrow> Math_round x \<le> Math_round y"
  unfolding Math_round_def by (simp add: floor_mono)

lemma tenths_of_tenth: "tenths (real_of_int k / 10) = k"
proof -
  have "real_of_int k / 10 * 100000 = real_of_int (k * 10000)"
    by simp
  then have "Math_round (real_of_int k / 10 * 100000) = k * 10000"
    using Math_round_of_int by metis
  then show ?thesis
    by (simp add: tenths_def)
qed

lemma roundUp_of_tenth: "roundUp (real_of_int k / 10) = real_of_int k / 10"
  by (simp add: roundUp_tenths tenths_of_tenth)

lemma neg_div_ceil:
  "(m::int) > 0 \<Longrightarrow> - ((- n) div m) = (if n mod m = 0 then n div m else n div m + 1)"
  by (simp add: zdiv_zminus1_eq_if)

lemma tenths_eq_ceil: "tenths x = - ((- Math_round (x * 100000)) div 10000)"
  unfolding tenths_def Let_def using neg_div_ceil [of 10000 "Math_round (x * 100000)"] by simp

lemma tenths_mono: "x \<le> y \<Longrightarrow> tenths x \<le> tenths y"
proof -
  assume "x \<le> y"
  then have "Math_round (x * 100000) \<le> Math_round (y * 100000)"
    by (intro Math_round_mono) simp
  then show ?thesis
    unfolding tenths_eq_ceil by (simp add: zdiv_mono1)
qed

lemma roundUp_mono: "x \<le> y \<Longrightarrow> roundUp x \<le> roundUp y"
  by (simp add: roundUp_tenths tenths_mono divide_right_mono)

lemma roundUp_0: "roundUp 0 = 0"
  using roundUp_of_tenth [of 0] by simp

lemma roundUp_10: "roundUp 10 = 10"
  using roundUp_of_tenth [of 100] by simp

lemma roundUp_bounds: "0 \<le> x \<Longrightarrow> x \<le> 10 \<Longrightarrow> 0 \<le> roundUp x \<and> roundUp x \<le> 10"
  using roundUp_mono [of 0 x] roundUp_mono [of x 10] by (simp add: roundUp_0 roundUp_10)

subsection \<open>Rounding to the nearest double\<close>

lemma roundEven_error: "\<bar>real_of_int (roundEven y) - y\<bar> \<le> 1 / 2"
  unfolding roundEven_def Let_def by (simp; linarith)

lemma roundEven_of_int: "roundEven (real_of_int m) = m"
  by (simp add: roundEven_def)

lemma ulpExponent_floorlog: "ulpExponent Z = floorlog 2 (nat \<lfloor>\<bar>Z\<bar>\<rfloor>) - 53"
  by (simp add: ulpExponent_def bitlen_def)

lemma ulpExponent_lower:
  assumes "0 < ulpExponent Z"
  shows "2 ^ (ulpExponent Z + 52) \<le> \<bar>Z\<bar>"
proof -
  let ?n = "nat \<lfloor>\<bar>Z\<bar>\<rfloor>"
  from assms have fl: "53 < floorlog 2 ?n"
    by (simp add: ulpExponent_floorlog)
  then have pos: "0 < ?n"
    by (metis floorlog_eq_zero_iff not_less_zero not_gr_zero le_zero_eq)
  have "(2::nat) ^ (floorlog 2 ?n - 1) \<le> ?n"
    using floorlog_bounds [OF pos, of 2] by simp
  moreover have "floorlog 2 ?n - 1 = ulpExponent Z + 52"
    using fl by (simp add: ulpExponent_floorlog)
  ultimately have "(2::nat) ^ (ulpExponent Z + 52) \<le> ?n"
    by simp
  then have "real ((2::nat) ^ (ulpExponent Z + 52)) \<le> real ?n"
    using of_nat_le_iff by blast
  also have "real ?n \<le> \<bar>Z\<bar>"
    by (simp add: of_nat_nat) 
  finally show ?thesis
    by simp
qed

lemma ulpExponent_upper:
  assumes "\<bar>Z\<bar> < 2 ^ (w + 53)"
  shows "ulpExponent Z \<le> w"
proof -
  have "\<lfloor>\<bar>Z\<bar>\<rfloor> < 2 ^ (w + 53)"
    using assms by (simp add: floor_less_iff)
  then have "nat \<lfloor>\<bar>Z\<bar>\<rfloor> < 2 ^ (w + 53)"
    by (simp add: nat_less_iff)
  then have "floorlog 2 (nat \<lfloor>\<bar>Z\<bar>\<rfloor>) \<le> w + 53"
    by (rule floorlog_leI) simp_all
  then show ?thesis
    by (simp add: ulpExponent_floorlog)
qed

lemma nearestDouble_error: "\<bar>nearestDouble z - z\<bar> \<le> \<bar>z\<bar> / 2 ^ 53 + 1 / 2 ^ 1075"
proof -
  define B :: real where "B = 2 ^ 1074"
  define Z where "Z = z * B"
  define E where "E = ulpExponent Z"
  define y where "y = Z / 2 ^ E"
  have B: "0 < B"
    by (simp add: B_def)
  have nd: "nearestDouble z = real_of_int (roundEven y) * 2 ^ E / B"
    by (simp add: nearestDouble_def Let_def B_def Z_def E_def y_def)
  have z: "z = y * 2 ^ E / B"
    using B by (simp add: y_def Z_def)
  have "nearestDouble z - z = (real_of_int (roundEven y) - y) * (2 ^ E / B)"
    by (subst (2) z) (simp add: nd algebra_simps diff_divide_distrib)
  then have "\<bar>nearestDouble z - z\<bar> = \<bar>real_of_int (roundEven y) - y\<bar> * (2 ^ E / B)"
    using B by (simp add: abs_mult)
  also have "\<dots> \<le> 1 / 2 * (2 ^ E / B)"
    using B by (intro mult_right_mono roundEven_error) simp
  finally have err: "\<bar>nearestDouble z - z\<bar> \<le> 2 ^ E / (2 * B)"
    by simp
  have "2 ^ E / (2 * B) \<le> \<bar>z\<bar> / 2 ^ 53 + 1 / 2 ^ 1075"
  proof (cases "E = 0")
    case True
    have "2 ^ E / (2 * B) = 1 / 2 ^ 1075"
      by (simp add: True B_def)
    moreover have "0 \<le> \<bar>z\<bar> / 2 ^ 53"
      by simp
    ultimately show ?thesis
      by linarith
  next
    case False
    then have "2 ^ (E + 52) \<le> \<bar>Z\<bar>"
      unfolding E_def by (intro ulpExponent_lower) simp
    then have "2 ^ E * 2 ^ 52 \<le> \<bar>z\<bar> * B"
      using B by (simp add: Z_def abs_mult power_add)
    then have "2 ^ E / (2 * B) \<le> \<bar>z\<bar> / 2 ^ 53"
      using B by (simp add: field_simps)
    then show ?thesis
      by simp
  qed
  with err show ?thesis
    by linarith
qed

lemma nearestDouble_of_int:
  assumes "\<bar>m\<bar> < 2 ^ 53"
  shows "nearestDouble (real_of_int m) = real_of_int m"
proof -
  define B :: real where "B = 2 ^ 1074"
  define Z where "Z = real_of_int m * B"
  define E where "E = ulpExponent Z"
  define d where "d = 1074 - E"
  have "\<bar>real_of_int m\<bar> < 2 ^ 53"
    using assms by (metis of_int_abs of_int_less_numeral_power_cancel_iff)
  then have "\<bar>Z\<bar> < 2 ^ 53 * B"
    by (simp add: Z_def abs_mult B_def)
  then have "\<bar>Z\<bar> < 2 ^ (1074 + 53)"
    by (simp add: B_def)
  then have E: "E \<le> 1074"
    unfolding E_def by (rule ulpExponent_upper)
  have Bsplit: "B = 2 ^ d * 2 ^ E"
    using E by (simp add: B_def d_def flip: power_add)
  have y: "Z / 2 ^ E = real_of_int (m * 2 ^ d)"
    by (simp add: Z_def Bsplit)
  have "nearestDouble (real_of_int m) = real_of_int (roundEven (Z / 2 ^ E)) * 2 ^ E / B"
    by (simp add: nearestDouble_def Let_def B_def Z_def E_def)
  also have "\<dots> = real_of_int (m * 2 ^ d) * 2 ^ E / (2 ^ d * 2 ^ E)"
    unfolding y roundEven_of_int Bsplit ..
  also have "\<dots> = real_of_int m"
    by simp
  finally show ?thesis .
qed

lemma toNumber_finite:
  assumes "\<bar>z\<bar> \<le> 2 ^ 21"
  shows "toNumber z = Finite (nearestDouble z)"
proof -
  have "\<bar>nearestDouble z - z\<bar> \<le> \<bar>z\<bar> / 2 ^ 53 + 1 / 2 ^ 1075"
    by (rule nearestDouble_error)
  moreover have "\<bar>z\<bar> / 2 ^ 53 \<le> 1"
    using assms by simp
  moreover have "(1::real) / 2 ^ 1075 \<le> 1"
    by simp
  ultimately have "\<bar>nearestDouble z\<bar> \<le> 2 ^ 21 + 2"
    using assms by linarith
  also have "\<dots> < (2::real) ^ 1024"
    by simp
  finally show ?thesis
    by (simp add: toNumber_def Let_def)
qed

lemma nearestDouble_close:
  assumes "\<bar>z\<bar> \<le> 2 ^ 21"
  shows "z - 1 / 1000000000 \<le> nearestDouble z" and "nearestDouble z \<le> z + 1 / 1000000000"
proof -
  have "\<bar>nearestDouble z - z\<bar> \<le> \<bar>z\<bar> / 2 ^ 53 + 1 / 2 ^ 1075"
    by (rule nearestDouble_error)
  moreover have "\<bar>z\<bar> / 2 ^ 53 \<le> 1 / 2 ^ 32"
    using assms by simp
  moreover have "(1::real) / 2 ^ 1075 \<le> 1 / 2 ^ 32"
    by simp
  moreover have "(1::real) / 2 ^ 32 + 1 / 2 ^ 32 \<le> 1 / 1000000000"
    by simp
  ultimately have "\<bar>nearestDouble z - z\<bar> \<le> 1 / 1000000000"
    by linarith
  then show "z - 1 / 1000000000 \<le> nearestDouble z" and "nearestDouble z \<le> z + 1 / 1000000000"
    by linarith+
qed

subsection \<open>The round-up function in double precision\<close>

lemma int_split_10000:
  fixes n :: int
  shows "real_of_int n = 10000 * real_of_int (n div 10000) + real_of_int (n mod 10000)"
    and "0 \<le> real_of_int (n mod 10000)" and "real_of_int (n mod 10000) \<le> 9999"
proof -
  have "n = 10000 * (n div 10000) + n mod 10000"
    by simp
  then have "real_of_int n = real_of_int (10000 * (n div 10000) + n mod 10000)"
    by simp
  then show "real_of_int n = 10000 * real_of_int (n div 10000) + real_of_int (n mod 10000)"
    by (simp only: of_int_add of_int_mult of_int_numeral)
  show "0 \<le> real_of_int (n mod 10000)"
    by simp
  have "n mod 10000 < 10000"
    by simp
  then have "n mod 10000 \<le> 9999"
    by linarith
  then show "real_of_int (n mod 10000) \<le> 9999"
    using of_int_le_iff [of "n mod 10000" 9999] by simp
qed

lemma remainderIsZero_of_int:
  "remainderIsZero (Finite (real_of_int n)) 10000 \<longleftrightarrow> n mod 10000 = 0"
proof -
  have fl: "\<lfloor>real_of_int n / 10000\<rfloor> = n div 10000"
    using floor_divide_of_int_eq [of n 10000] by simp
  have "real_of_int n / 10000 = real_of_int (n div 10000) \<longleftrightarrow> real_of_int (n mod 10000) = 0"
    using int_split_10000 (1) [of n] by (simp add: field_simps)
  then show ?thesis
    by (simp add: fl)
qed

lemma roundEven_nonneg: "0 \<le> y \<Longrightarrow> 0 \<le> roundEven y"
  unfolding roundEven_def Let_def by (simp; linarith)

lemma nearestDouble_nonneg: "0 \<le> z \<Longrightarrow> 0 \<le> nearestDouble z"
  by (simp add: nearestDouble_def Let_def roundEven_nonneg)

lemma intInputOf_range:
  assumes "0 \<le> a" and "a * 100000 \<le> real_of_int N" and "\<bar>real_of_int N\<bar> \<le> 2 ^ 21"
  shows "js_Math_round (js_times (Finite a) 100000) = Finite (real_of_int (intInputOf a))"
    and "0 \<le> intInputOf a" and "intInputOf a \<le> N"
proof -
  define p where "p = nearestDouble (a * 100000)"
  have a_lo: "0 \<le> a * 100000"
    using assms by simp
  with assms have a5: "\<bar>a * 100000\<bar> \<le> 2 ^ 21"
    by linarith
  have times: "js_times (Finite a) 100000 = Finite p"
    by (simp add: p_def toNumber_finite [OF a5])
  show "js_Math_round (js_times (Finite a) 100000) = Finite (real_of_int (intInputOf a))"
    unfolding times by (simp add: intInputOf_def p_def)
  have p_lo: "- (1 / 2) \<le> p" and p_hi: "p + 1 / 2 < real_of_int (N + 1)"
    using nearestDouble_close [OF a5] a_lo assms (2) unfolding p_def by simp_all
  show "0 \<le> intInputOf a"
    unfolding intInputOf_def using p_lo by (simp add: p_def)
  have "intInputOf a < N + 1"
    unfolding intInputOf_def using p_hi by (simp only: floor_less_iff p_def)
  then show "intInputOf a \<le> N"
    by simp
qed

lemma quotient_range:
  assumes "0 \<le> n" and "n \<le> 1100000"
  shows "0 \<le> real_of_int (n div 10000)" and "real_of_int (n div 10000) \<le> 110"
proof -
  have "0 \<le> n div 10000"
    using assms by (simp add: pos_imp_zdiv_nonneg_iff)
  moreover have "n div 10000 \<le> 110"
    using zdiv_mono1 [OF assms (2), of 10000] by simp
  ultimately show "0 \<le> real_of_int (n div 10000)" and "real_of_int (n div 10000) \<le> 110"
    by simp_all
qed

lemma js_over_10000:
  assumes "0 \<le> n" and "n \<le> 1100000" and "n mod 10000 \<noteq> 0"
  shows "js_over (Finite (real_of_int n)) 10000 = Finite (nearestDouble (real_of_int n / 10000))"
    and "real_of_int (n div 10000) + 1 / 20000 \<le> nearestDouble (real_of_int n / 10000)"
    and "nearestDouble (real_of_int n / 10000) \<le> real_of_int (n div 10000) + 19999 / 20000"
proof -
  note split = int_split_10000 [of n]
  note m = quotient_range [OF assms (1,2)]
  have "0 \<le> n mod 10000"
    by simp
  with assms (3) have "0 < n mod 10000"
    by (metis less_le)
  then have "1 \<le> n mod 10000"
    by (simp only: int_one_le_iff_zero_less)
  then have r_lo: "1 \<le> real_of_int (n mod 10000)"
    by simp
  have n4_lo: "real_of_int (n div 10000) + 1 / 10000 \<le> real_of_int n / 10000"
    and n4_hi: "real_of_int n / 10000 \<le> real_of_int (n div 10000) + 9999 / 10000"
    using split r_lo by (simp_all add: field_simps)
  have n4: "\<bar>real_of_int n / 10000\<bar> \<le> 2 ^ 21"
    using n4_lo n4_hi m by simp
  show "js_over (Finite (real_of_int n)) 10000 = Finite (nearestDouble (real_of_int n / 10000))"
    by (simp add: toNumber_finite [OF n4])
  show "real_of_int (n div 10000) + 1 / 20000 \<le> nearestDouble (real_of_int n / 10000)"
    and "nearestDouble (real_of_int n / 10000) \<le> real_of_int (n div 10000) + 19999 / 20000"
    using nearestDouble_close [OF n4] n4_lo n4_hi by linarith+
qed

lemma js_over_tenth:
  assumes "0 \<le> real_of_int k" and "real_of_int k \<le> 111"
  shows "js_over (Finite (real_of_int k)) 10 = Finite (nearestDouble (real_of_int k / 10))"
proof -
  have "\<bar>real_of_int k / 10\<bar> \<le> 2 ^ 21"
    using assms by simp
  then show ?thesis
    unfolding js_over.simps by (simp only: toNumber_finite)
qed

lemma branches_double:
  assumes "0 \<le> n" and "n \<le> 1100000"
  shows "(if remainderIsZero (Finite (real_of_int n)) 10000
          then js_over (Finite (real_of_int n)) 100000
          else js_over (js_plus (js_Math_floor (js_over (Finite (real_of_int n)) 10000)) 1) 10)
         = Finite (nearestDouble (real_of_int (tenthsOf n) / 10))"
    and "(if remainderIsZero (Finite (real_of_int n)) 10000
          then js_over (Finite (real_of_int n)) 100000
          else js_over (js_Math_floor (js_plus (js_over (Finite (real_of_int n)) 10000) 1)) 10)
         = Finite (nearestDouble (real_of_int (tenthsOf n) / 10))"
proof -
  define m where "m = n div 10000"
  note split = int_split_10000 [of n, folded m_def]
  note m = quotient_range [OF assms, folded m_def]
  have m1: "real_of_int m + 1 = real_of_int (m + 1)"
    by simp
  have tenth: "js_over (Finite (real_of_int (m + 1))) 10
               = Finite (nearestDouble (real_of_int (m + 1) / 10))"
    using m by (intro js_over_tenth) simp_all
  have both:
    "(if remainderIsZero (Finite (real_of_int n)) 10000
      then js_over (Finite (real_of_int n)) 100000
      else js_over (js_plus (js_Math_floor (js_over (Finite (real_of_int n)) 10000)) 1) 10)
     = Finite (nearestDouble (real_of_int (tenthsOf n) / 10))
     \<and> (if remainderIsZero (Finite (real_of_int n)) 10000
      then js_over (Finite (real_of_int n)) 100000
      else js_over (js_Math_floor (js_plus (js_over (Finite (real_of_int n)) 10000) 1)) 10)
     = Finite (nearestDouble (real_of_int (tenthsOf n) / 10))"
  proof (cases "n mod 10000 = 0")
    case True
    have eq: "real_of_int n / 100000 = real_of_int m / 10"
      using split (1) True by simp
    have "\<bar>real_of_int n / 100000\<bar> \<le> 2 ^ 21"
      unfolding eq using m by simp
    then have "js_over (Finite (real_of_int n)) 100000 = Finite (nearestDouble (real_of_int m / 10))"
      by (simp add: toNumber_finite eq)
    moreover have "tenthsOf n = m"
      by (simp add: tenthsOf_def True m_def)
    ultimately show ?thesis
      by (simp only: remainderIsZero_of_int True simp_thms if_True)
  next
    case False
    define q where "q = nearestDouble (real_of_int n / 10000)"
    note over = js_over_10000 [OF assms False, folded q_def m_def]
    have "real_of_int m \<le> q" and "q < real_of_int m + 1"
      using over (2,3) by linarith+
    then have fl: "\<lfloor>q\<rfloor> = m"
      by (rule floor_unique)
    have "\<bar>m + 1\<bar> \<le> 111"
      using m by simp
    then have small: "\<bar>m + 1\<bar> < 2 ^ 53"
      by simp
    have "\<bar>real_of_int (m + 1)\<bar> \<le> 2 ^ 21"
      using m by simp
    then have plus: "js_plus (Finite (real_of_int m)) 1 = Finite (real_of_int (m + 1))"
      unfolding js_plus.simps m1 by (simp only: toNumber_finite nearestDouble_of_int [OF small])
    have q1: "\<bar>q + 1\<bar> \<le> 2 ^ 21"
      using over (2,3) m by simp
    have "real_of_int (m + 1) \<le> nearestDouble (q + 1)"
      and "nearestDouble (q + 1) < real_of_int (m + 1) + 1"
      using nearestDouble_close [OF q1] over (2,3) by simp_all
    then have "\<lfloor>nearestDouble (q + 1)\<rfloor> = m + 1"
      by (rule floor_unique)
    then have plus_spec: "js_Math_floor (js_plus (Finite q) 1) = Finite (real_of_int (m + 1))"
      by (simp add: toNumber_finite [OF q1])
    have "tenthsOf n = m + 1"
      by (simp add: tenthsOf_def False m_def)
    then show ?thesis
      by (simp only: remainderIsZero_of_int False simp_thms if_False over (1) js_Math_floor.simps
          fl plus plus_spec tenth)
  qed
  from both show
    "(if remainderIsZero (Finite (real_of_int n)) 10000
      then js_over (Finite (real_of_int n)) 100000
      else js_over (js_plus (js_Math_floor (js_over (Finite (real_of_int n)) 10000)) 1) 10)
     = Finite (nearestDouble (real_of_int (tenthsOf n) / 10))"
    by (rule conjunct1)
  from both show
    "(if remainderIsZero (Finite (real_of_int n)) 10000
      then js_over (Finite (real_of_int n)) 100000
      else js_over (js_Math_floor (js_plus (js_over (Finite (real_of_int n)) 10000) 1)) 10)
     = Finite (nearestDouble (real_of_int (tenthsOf n) / 10))"
    by (rule conjunct2)
qed

lemma roundUp_double_Finite:
  assumes "0 \<le> a" and "a \<le> 11"
  shows "roundUp_double (Finite a) = Finite (nearestDouble (real_of_int (tenthsOf (intInputOf a)) / 10))"
    and "roundUp_spec_double (Finite a) = Finite (nearestDouble (real_of_int (tenthsOf (intInputOf a)) / 10))"
proof -
  have "a * 100000 \<le> real_of_int 1100000" and "\<bar>real_of_int 1100000\<bar> \<le> 2 ^ 21"
    using assms by simp_all
  note n = intInputOf_range [OF assms (1) this]
  show "roundUp_double (Finite a) = Finite (nearestDouble (real_of_int (tenthsOf (intInputOf a)) / 10))"
    unfolding roundUp_double_def Let_def n (1) by (rule branches_double (1) [OF n (2,3)])
  show "roundUp_spec_double (Finite a) = Finite (nearestDouble (real_of_int (tenthsOf (intInputOf a)) / 10))"
    unfolding roundUp_spec_double_def Let_def n (1) by (rule branches_double (2) [OF n (2,3)])
qed

lemma tenthsOf_range:
  assumes "0 \<le> n" and "n \<le> 1000000"
  shows "0 \<le> tenthsOf n" and "tenthsOf n \<le> 100"
proof -
  have d: "0 \<le> n div 10000"
    using assms by (simp add: pos_imp_zdiv_nonneg_iff)
  then show "0 \<le> tenthsOf n"
    by (simp add: tenthsOf_def)
  show "tenthsOf n \<le> 100"
  proof (cases "n mod 10000 = 0")
    case True
    then show ?thesis
      using zdiv_mono1 [OF assms (2), of 10000] by (simp add: tenthsOf_def)
  next
    case False
    then have "n \<noteq> 1000000"
      by auto
    with assms have "n \<le> 999999"
      by simp
    then have "n div 10000 \<le> 999999 div 10000"
      by (rule zdiv_mono1) simp
    then show ?thesis
      using False by (simp add: tenthsOf_def)
  qed
qed

lemma tenthsOf_multiple: "tenthsOf (10000 * k) = k"
  by (simp add: tenthsOf_def)

lemma intInputOf_tenth:
  assumes "0 \<le> k" and "k \<le> 100"
  shows "intInputOf (nearestDouble (real_of_int k / 10)) = 10000 * k"
proof -
  define x where "x = nearestDouble (real_of_int k / 10)"
  have k: "0 \<le> real_of_int k" "real_of_int k \<le> 100"
    using assms by simp_all
  then have "\<bar>real_of_int k / 10\<bar> \<le> 2 ^ 21"
    by simp
  note x = nearestDouble_close [OF this, folded x_def]
  have x5_lo: "10000 * real_of_int k - 1 / 10000 \<le> x * 100000"
    and x5_hi: "x * 100000 \<le> 10000 * real_of_int k + 1 / 10000"
    using x by simp_all
  then have "\<bar>x * 100000\<bar> \<le> 2 ^ 21"
    using k by simp
  note p = nearestDouble_close [OF this]
  have "real_of_int (10000 * k) \<le> nearestDouble (x * 100000) + 1 / 2"
    and "nearestDouble (x * 100000) + 1 / 2 < real_of_int (10000 * k) + 1"
    using p x5_lo x5_hi by simp_all
  then have "\<lfloor>nearestDouble (x * 100000) + 1 / 2\<rfloor> = 10000 * k"
    by (rule floor_unique)
  then show ?thesis
    by (simp add: intInputOf_def x_def)
qed

lemma roundUp_double_tenth:
  assumes "0 \<le> k" and "k \<le> 100"
  shows "roundUp_double (Finite (nearestDouble (real_of_int k / 10)))
         = Finite (nearestDouble (real_of_int k / 10))"
proof -
  define x where "x = nearestDouble (real_of_int k / 10)"
  have k: "0 \<le> real_of_int k" "real_of_int k \<le> 100"
    using assms by simp_all
  then have "\<bar>real_of_int k / 10\<bar> \<le> 2 ^ 21"
    by simp
  note close = nearestDouble_close [OF this, folded x_def]
  have "0 \<le> x"
    unfolding x_def using k by (intro nearestDouble_nonneg) simp
  moreover have "x \<le> 11"
    using close k by linarith
  ultimately have "roundUp_double (Finite x)
                   = Finite (nearestDouble (real_of_int (tenthsOf (intInputOf x)) / 10))"
    by (rule roundUp_double_Finite)
  then show ?thesis
    by (simp only: x_def intInputOf_tenth [OF assms] tenthsOf_multiple)
qed

subsection \<open>A double next to a rounding tie\<close>

text \<open>
  When the exponent of a real is known, its nearest double is found by rounding the
  significand.
\<close>

lemma ulpExponent_eq:
  assumes "2 ^ (e + 52) \<le> \<bar>Z\<bar>" and "\<bar>Z\<bar> < 2 ^ (e + 53)"
  shows "ulpExponent Z = e"
proof -
  have "ulpExponent Z \<le> e"
    using assms (2) by (rule ulpExponent_upper)
  moreover have "e \<le> ulpExponent Z"
  proof -
    have "(2::int) ^ (e + 52) \<le> \<lfloor>\<bar>Z\<bar>\<rfloor>"
      using assms (1) by (simp add: le_floor_iff)
    then have "(2::nat) ^ (e + 53 - 1) \<le> nat \<lfloor>\<bar>Z\<bar>\<rfloor>"
      by (simp add: le_nat_iff add.commute)
    then have "e + 53 \<le> floorlog 2 (nat \<lfloor>\<bar>Z\<bar>\<rfloor>)"
      by (rule floorlog_geI) simp
    then show ?thesis
      by (simp add: ulpExponent_floorlog)
  qed
  ultimately show ?thesis
    by simp
qed

lemma nearestDouble_eq:
  assumes "2 ^ 52 \<le> \<bar>z\<bar> * 2 ^ t" and "\<bar>z\<bar> * 2 ^ t < 2 ^ 53" and "t \<le> 1074"
  shows "nearestDouble z = real_of_int (roundEven (z * 2 ^ t)) / 2 ^ t"
proof -
  define B :: real where "B = 2 ^ 1074"
  define e where "e = 1074 - t"
  have Bsplit: "B = 2 ^ t * 2 ^ e"
    using assms (3) by (simp add: B_def e_def flip: power_add)
  have "2 ^ 52 * 2 ^ e \<le> \<bar>z\<bar> * 2 ^ t * 2 ^ e" and "\<bar>z\<bar> * 2 ^ t * 2 ^ e < 2 ^ 53 * 2 ^ e"
    using assms (1,2) by simp_all
  then have "2 ^ (e + 52) \<le> \<bar>z * B\<bar>" and "\<bar>z * B\<bar> < 2 ^ (e + 53)"
    by (simp_all add: Bsplit abs_mult power_add mult_ac)
  then have E: "ulpExponent (z * B) = e"
    by (rule ulpExponent_eq)
  have "nearestDouble z = real_of_int (roundEven (z * B / 2 ^ e)) * 2 ^ e / B"
    unfolding nearestDouble_def Let_def B_def [symmetric] E by (rule refl)
  also have "z * B / 2 ^ e = z * 2 ^ t"
    by (simp add: Bsplit)
  also have "real_of_int (roundEven (z * 2 ^ t)) * 2 ^ e / B
             = real_of_int (roundEven (z * 2 ^ t)) / 2 ^ t"
    by (simp add: Bsplit)
  finally show ?thesis .
qed

lemma nearestDouble_near_tie:
  "nearestDouble (7206119691762983 / 2 ^ 56 * 100000) = 20001 / 2"
  by (subst nearestDouble_eq [where t = 39]) (simp_all add: roundEven_def)

lemma nearestDouble_fifth: "nearestDouble (2 / 10) = 3602879701896397 / 2 ^ 54"
  by (subst nearestDouble_eq [where t = 55]) (simp_all add: roundEven_def)

lemma roundUp_double_near_tie:
  "roundUp_double (Finite (7206119691762983 / 2 ^ 56)) = Finite (3602879701896397 / 2 ^ 54)"
proof -
  have "intInputOf (7206119691762983 / 2 ^ 56) = 10001"
    unfolding intInputOf_def nearestDouble_near_tie by simp
  then have "real_of_int (tenthsOf (intInputOf (7206119691762983 / 2 ^ 56))) / 10 = 2 / 10"
    by (simp add: tenthsOf_def)
  then show ?thesis
    by (subst roundUp_double_Finite (1)) (simp_all only: nearestDouble_fifth, simp_all)
qed

text \<open>
  At this double, just below 0.100005, the product with 100000 is rounded to the tie
  10000.5, \<^verbatim>\<open>Math.round\<close> gives 10001, and the function returns the double nearest to
  0.2; over the exact reals the product is below the tie, and \<open>roundUp\<close> returns 0.1.
\<close>

lemma roundUp_near_tie: "roundUp (7206119691762983 / 2 ^ 56) = 1 / 10"
  by (simp add: roundUp_def Math_round_def Let_def)

lemma nearestDouble_tenth: "nearestDouble (1 / 10) = 3602879701896397 / 2 ^ 55"
  by (subst nearestDouble_eq [where t = 56]) (simp_all add: roundEven_def)

lemma roundUp_double_differs:
  "roundUp_double (Finite (7206119691762983 / 2 ^ 56))
   \<noteq> Finite (nearestDouble (roundUp (7206119691762983 / 2 ^ 56)))"
  unfolding roundUp_double_near_tie roundUp_near_tie nearestDouble_tenth by simp

subsection \<open>The two models away from the ties\<close>

text \<open>
  When the product with 100000 is not within 2 * 10^-9 of a tie between two integers,
  the double-precision function returns the double nearest to what the exact function
  returns.
\<close>

lemma roundUp_double_exact:
  assumes "0 \<le> a" and "a \<le> 10"
    and "real_of_int n - 1 / 2 + 2 / 1000000000 \<le> a * 100000"
    and "a * 100000 \<le> real_of_int n + 1 / 2 - 2 / 1000000000"
  shows "roundUp_double (Finite a) = Finite (nearestDouble (roundUp a))"
proof -
  have "\<bar>a * 100000\<bar> \<le> 2 ^ 21"
    using assms (1,2) by simp
  note p = nearestDouble_close [OF this]
  have "real_of_int n \<le> nearestDouble (a * 100000) + 1 / 2"
    and "nearestDouble (a * 100000) + 1 / 2 < real_of_int n + 1"
    using p assms (3,4) by linarith+
  then have "intInputOf a = n"
    unfolding intInputOf_def by (rule floor_unique)
  moreover have "Math_round (a * 100000) = n"
    unfolding Math_round_def using assms (3,4) by linarith
  ultimately have "tenthsOf (intInputOf a) = tenths a"
    by (simp add: tenthsOf_def tenths_def Let_def)
  moreover have "a \<le> 11"
    using assms (2) by simp
  ultimately show ?thesis
    using roundUp_double_Finite (1) [OF assms (1)] by (simp add: roundUp_tenths)
qed

text \<open>
  Claim C7. The round-up function is idempotent on the closed interval from 0 to 10, in
  the double-precision arithmetic of the program: for every number \<open>a\<close> with
  \<open>0 \<le> a \<le> 10\<close>, \<^verbatim>\<open>roundUp(roundUp(a))\<close> and \<^verbatim>\<open>roundUp(a)\<close> are the same finite number (so
  they are equal for \<^verbatim>\<open>==\<close>, which NaN would not be). Here \<open>roundUp_double\<close> is the function
  of the source, and on this interval it returns what the function described by the
  specification returns: multiply by 100000, round to the nearest integer, return
  that/100000 when the integer is divisible by 10000 and floor(that/10000 + 1)/10
  otherwise. The statement holds for every real \<open>a\<close> of the interval, hence for every
  double in it.
\<close>

theorem roundUp_idempotent:
  "0 \<le> a \<Longrightarrow> a \<le> 10 \<Longrightarrow>
   roundUp_double (roundUp_double (Finite a)) = roundUp_double (Finite a)
   \<and> isFinite (roundUp_double (Finite a))
   \<and> roundUp_double (Finite a) = roundUp_spec_double (Finite a)"
proof -
  assume lo: "0 \<le> a" and hi: "a \<le> 10"
  then have hi': "a \<le> 11"
    by simp
  have "a * 100000 \<le> real_of_int 1000000" and "\<bar>real_of_int 1000000\<bar> \<le> 2 ^ 21"
    using hi by simp_all
  note n = intInputOf_range (2,3) [OF lo this]
  note k = tenthsOf_range [OF n]
  show ?thesis
    by (simp only: roundUp_double_Finite [OF lo hi'] roundUp_double_tenth [OF k] isFinite.simps
        simp_thms)
qed


theorem roundUp_idempotent_witness:
  "(0::real) \<le> 7206119691762983 / 2 ^ 56 \<and> (7206119691762983 / 2 ^ 56 :: real) \<le> 10
   \<and> roundUp_double (roundUp_double (Finite (7206119691762983 / 2 ^ 56)))
       = roundUp_double (Finite (7206119691762983 / 2 ^ 56))
   \<and> isFinite (roundUp_double (Finite (7206119691762983 / 2 ^ 56)))
   \<and> roundUp_double (Finite (7206119691762983 / 2 ^ 56))
       = roundUp_spec_double (Finite (7206119691762983 / 2 ^ 56))"
proof -
  have lo: "(0::real) \<le> 7206119691762983 / 2 ^ 56" and hi: "(7206119691762983 / 2 ^ 56 :: real) \<le> 10"
    by simp_all
  show ?thesis
    using lo hi roundUp_idempotent [OF lo hi] by blast
qed

section \<open>Metrics map\<close>

lemma map_get_map_set: "map_get (map_set m k v) k' = (if k' = k then Some v else map_get m k')"
  by (induction m) (auto simp: map_get_def)

lemma map_has_iff_get: "map_has m k \<longleftrightarrow> map_get m k \<noteq> None"
  by (simp add: map_has_def map_get_def)

lemma map_get_None_iff: "map_get m k = None \<longleftrightarrow> k \<notin> set (map_keys m)"
  by (simp add: map_get_def map_keys_def map_of_eq_None_iff)

lemma map_set_fresh: "k \<notin> set (map_keys m) \<Longrightarrow> map_set m k v = m @ [(k, v)]"
  by (induction m) (auto simp: map_keys_def)

lemma map_keys_map_set: "set (map_keys (map_set m k v)) = insert k (set (map_keys m))"
  by (induction m) (auto simp: map_keys_def)

section \<open>Parser\<close>

lemma js_split_takeWhile:
  "js_split sep s =
     takeWhile (\<lambda>c. c \<noteq> sep) s
       # (case dropWhile (\<lambda>c. c \<noteq> sep) s of [] \<Rightarrow> [] | c # r \<Rightarrow> js_split sep r)"
  by (induction s) (auto split: list.splits)

lemma dropWhile_eq_drop: "dropWhile P s = drop (length (takeWhile P s)) s"
  by (induction s) auto

lemma parseMetric_eq:
  "parseMetric seg =
     (if segmentAccepted seg then Inr (segmentKey seg, segmentValue seg)
      else Inl (InvalidMetricSegment seg))"
proof -
  let ?P = "\<lambda>c. c \<noteq> CHR '':''"
  show ?thesis
  proof (cases "dropWhile ?P seg")
    case Nil
    then have "drop (length (takeWhile ?P seg) + 1) seg = []"
      by (metis dropWhile_eq_drop drop_eq_Nil add.commute drop_drop drop_Nil)
    then have "segmentValue seg = []"
      by (simp add: segmentValue_def segmentKey_def)
    moreover have "js_split CHR '':'' seg = [takeWhile ?P seg]"
      by (subst js_split_takeWhile) (simp only: Nil list.simps)
    ultimately show ?thesis
      by (simp add: parseMetric_def segmentAccepted_def)
  next
    case (Cons c r)
    have "dropWhile ?P seg = drop (length (takeWhile ?P seg)) seg"
      by (rule dropWhile_eq_drop)
    then have r: "r = drop (length (takeWhile ?P seg) + 1) seg"
      using Cons by (metis drop_Suc tl_drop list.sel(3) Suc_eq_plus1)
    have "js_split CHR '':'' seg = takeWhile ?P seg # js_split CHR '':'' r"
      by (subst js_split_takeWhile) (simp only: Cons list.simps)
    moreover obtain others where "js_split CHR '':'' r = takeWhile ?P r # others"
      using js_split_takeWhile by blast
    ultimately show ?thesis
      using r by (simp add: parseMetric_def segmentAccepted_def segmentKey_def segmentValue_def)
  qed
qed

lemma mapE_eq:
  "mapE f xs =
     (case find (\<lambda>x. isl (f x)) xs of
        Some x \<Rightarrow> Inl (projl (f x))
      | None \<Rightarrow> Inr (map (\<lambda>x. projr (f x)) xs))"
  by (induction xs) (auto split: sum.splits option.splits)

lemma parseMetrics_eq:
  "parseMetrics vectorStr =
     (case find (\<lambda>seg. \<not> segmentAccepted seg) (js_split CHR ''/'' vectorStr) of
        Some seg \<Rightarrow> Inl (InvalidMetricSegment seg)
      | None \<Rightarrow>
          Inr (map (\<lambda>seg. (segmentKey seg, segmentValue seg)) (js_split CHR ''/'' vectorStr)))"
proof -
  let ?segs = "js_split CHR ''/'' vectorStr"
  have isl: "(\<lambda>seg. isl (parseMetric seg)) = (\<lambda>seg. \<not> segmentAccepted seg)"
    by (auto simp: parseMetric_eq)
  show ?thesis
  proof (cases "find (\<lambda>seg. \<not> segmentAccepted seg) ?segs")
    case None
    then have "\<forall>seg \<in> set ?segs. segmentAccepted seg"
      by (simp add: find_None_iff)
    then have "map (\<lambda>seg. projr (parseMetric seg)) ?segs =
        map (\<lambda>seg. (segmentKey seg, segmentValue seg)) ?segs"
      by (simp add: parseMetric_eq)
    with None show ?thesis
      by (simp add: parseMetrics_def mapE_eq isl)
  next
    case (Some seg)
    then have "\<not> segmentAccepted seg"
      by (auto simp: find_Some_iff)
    with Some show ?thesis
      by (simp add: parseMetrics_def mapE_eq isl parseMetric_eq)
  qed
qed

lemma reduceMetrics_Inr_iff:
  "reduceMetrics res ps = Inr mm \<longleftrightarrow>
     distinct (map fst ps) \<and> set (map fst ps) \<inter> set (map fst res) = {} \<and> mm = res @ ps"
proof (induction ps arbitrary: res)
  case Nil
  then show ?case by auto
next
  case (Cons p ps)
  show ?case
  proof (cases "map_has res (fst p)")
    case True
    then have "fst p \<in> set (map fst res)"
      by (simp add: map_has_iff_get map_get_None_iff map_keys_def)
    with True show ?thesis by auto
  next
    case False
    then have fresh: "fst p \<notin> set (map_keys res)"
      by (simp add: map_has_iff_get map_get_None_iff)
    then have "map_set res (fst p) (snd p) = res @ [p]"
      by (simp add: map_set_fresh)
    with False fresh show ?thesis
      using Cons.IH [of "res @ [p]"] by (auto simp: map_keys_def)
  qed
qed

lemma reduceMetrics_Inl:
  "reduceMetrics res ps = Inl e \<Longrightarrow> \<exists>k v. e = DuplicateMetric k v"
  by (induction ps arbitrary: res) (auto split: if_splits)

lemma parseMetricsAsMap_Inr_iff:
  "parseMetricsAsMap s = Inr mm \<longleftrightarrow>
     (\<forall>seg \<in> set (segments s). segmentAccepted seg) \<and> distinct (map fst (rawPairs s))
     \<and> mm = rawPairs s"
proof -
  have body: "(case parseVector s of None \<Rightarrow> [] | Some v \<Rightarrow> v) = vectorBody s"
    by (simp add: vectorBody_def)
  show ?thesis
  proof (cases "find (\<lambda>seg. \<not> segmentAccepted seg) (segments s)")
    case None
    then have ok: "\<forall>seg \<in> set (segments s). segmentAccepted seg"
      by (simp add: find_None_iff)
    have "parseMetrics (vectorBody s) = Inr (rawPairs s)"
      using None by (simp add: parseMetrics_eq segments_def [symmetric] rawPairs_def)
    then show ?thesis
      using ok by (auto simp: parseMetricsAsMap_def body reduceMetrics_Inr_iff)
  next
    case (Some seg)
    then have bad: "seg \<in> set (segments s)" "\<not> segmentAccepted seg"
      by (auto simp: find_Some_iff)
    have "parseMetrics (vectorBody s) = Inl (InvalidMetricSegment seg)"
      using Some by (simp add: parseMetrics_eq segments_def [symmetric])
    then show ?thesis
      using bad by (auto simp: parseMetricsAsMap_def body)
  qed
qed

lemma parseMetricsAsMap_Inl:
  assumes "parseMetricsAsMap s = Inl e"
  shows "(\<exists>seg. e = InvalidMetricSegment seg) \<or> (\<exists>k v. e = DuplicateMetric k v)"
proof (cases "parseMetrics (vectorBody s)")
  case (Inl e')
  then have "\<exists>seg. e' = InvalidMetricSegment seg"
    by (auto simp: parseMetrics_eq split: option.splits)
  with Inl assms show ?thesis
    by (auto simp: parseMetricsAsMap_def vectorBody_def)
next
  case (Inr ps)
  with assms have "reduceMetrics [] ps = Inl e"
    by (simp add: parseMetricsAsMap_def vectorBody_def)
  then show ?thesis
    using reduceMetrics_Inl by blast
qed

text \<open>
  Claim C9, as stated: every segment that does not split on the colon into exactly a
  key and a value is rejected, a segment with more than one colon in particular. The
  segment \<^verbatim>\<open>AV:N:X\<close> is parsed, to the key AV and the value N.
\<close>

theorem parseMetrics_accepts_second_colon:
  "parseMetrics ''AV:N:X'' = Inr [(''AV'', ''N'')]"
  by code_simp

text \<open>
  Claim C9, amended: the parser raises \<open>InvalidMetricSegment\<close> for the first segment
  of the vector body in which nothing stands before the first colon, or nothing stands
  between the first colon and the second one (or the end of the segment, and a segment
  without a colon has no value). When there is no such segment, each segment is parsed
  to that key and that value, and what follows a second colon is ignored.
\<close>

theorem parseMetrics_rejects_first_bad_segment:
  "parseMetrics vectorStr =
     (case find (\<lambda>seg. \<not> segmentAccepted seg) (js_split CHR ''/'' vectorStr) of
        Some seg \<Rightarrow> Inl (InvalidMetricSegment seg)
      | None \<Rightarrow>
          Inr (map (\<lambda>seg. (segmentKey seg, segmentValue seg)) (js_split CHR ''/'' vectorStr)))"
  by (rule parseMetrics_eq)

theorem parseMetrics_rejects_first_bad_segment_witness:
  "parseMetrics ''AV:N/AC/:L/UI:'' = Inl (InvalidMetricSegment ''AC'')
   \<and> find (\<lambda>seg. \<not> segmentAccepted seg) (js_split CHR ''/'' ''AV:N/AC/:L/UI:'') = Some ''AC''"
proof -
  have "find (\<lambda>seg. \<not> segmentAccepted seg) (js_split CHR ''/'' ''AV:N/AC/:L/UI:'') = Some ''AC''"
    by code_simp
  then show ?thesis
    using parseMetrics_rejects_first_bad_segment [of "''AV:N/AC/:L/UI:''"] by simp
qed

section \<open>The checks of the validator\<close>

lemma checkMandatoryMetrics_eq:
  "checkMandatoryMetrics mm bs =
     (case find (\<lambda>b. map_get mm b = None) bs of
        Some b \<Rightarrow> Inl (MissingMandatoryMetric b)
      | None \<Rightarrow> Inr ())"
  by (induction bs) (auto simp: map_has_iff_get)

lemma checkUnknownLoop_eq:
  "checkUnknownLoop known ks =
     (case find (\<lambda>k. k \<notin> set known) ks of
        Some k \<Rightarrow> Inl (UnknownMetric k)
      | None \<Rightarrow> Inr ())"
  by (induction ks) auto

lemma checkMetricsValues_Inr_iff:
  assumes "\<forall>m \<in> set ms. tbl m \<noteq> None" and "\<forall>v \<in> snd ` set mm. v \<noteq> []"
  shows "checkMetricsValues mm ms tbl = Inr () \<longleftrightarrow>
           (\<forall>m \<in> set ms. \<forall>v. map_get mm m = Some v \<longrightarrow> v \<in> set (the (tbl m)))"
  using assms
proof (induction ms)
  case Nil
  then show ?case by simp
next
  case (Cons m ms)
  have nonempty: "v \<noteq> []" if "map_get mm m = Some v" for v
    using that Cons.prems(2) by (force simp: map_get_def dest: map_of_SomeD)
  from Cons.prems(1) obtain allowed where "tbl m = Some allowed"
    by auto
  then show ?case
    using Cons nonempty by (cases "map_get mm m") auto
qed

lemma checkMetricsValues_Inl:
  assumes "\<forall>m \<in> set ms. tbl m \<noteq> None"
    and "checkMetricsValues mm ms tbl = Inl e"
  shows "\<exists>m v. e = InvalidMetricValue m v \<and> m \<in> set ms \<and> map_get mm m = Some v
           \<and> v \<notin> set (the (tbl m))"
  using assms
proof (induction ms)
  case Nil
  then show ?case by simp
next
  case (Cons m ms)
  from Cons.prems(1) obtain allowed where "tbl m = Some allowed"
    by auto
  then show ?case
    using Cons by (cases "map_get mm m") (auto split: if_splits)
qed

lemma validateVersion_eq:
  "validateVersion v =
     (if v = Some ''3.0'' \<or> v = Some ''3.1'' then Inr ()
      else Inl (UnsupportedVersion (if v = Some [] then None else v)))"
  by (cases v) (auto simp: validateVersion_def)

lemma allKnownMetricsValues_defined: "\<forall>m \<in> set allKnownMetrics. allKnownMetricsValues m \<noteq> None"
  by code_simp

lemma rawPairs_values_nonempty:
  assumes "\<forall>seg \<in> set (segments s). segmentAccepted seg"
  shows "\<forall>v \<in> snd ` set (rawPairs s). v \<noteq> []"
  using assms by (auto simp: rawPairs_def segmentAccepted_def)

lemma map_get_distinct:
  "distinct (map fst mm) \<Longrightarrow> map_get mm k = Some v \<longleftrightarrow> (k, v) \<in> set mm"
  by (simp add: map_get_def)

text \<open>The result of \<open>validate\<close> once the first three checks have passed.\<close>

lemma validate_after_vector:
  assumes "\<not> missingPrefix s" "\<not> unsupportedVersion s" "\<not> malformedVector s"
  shows "validate s =
           ebind (parseMetricsAsMap s) (\<lambda>mm.
           ebind (checkMandatoryMetrics mm baseMetrics) (\<lambda>_.
           ebind (checkUnknownMetrics mm (Some allKnownMetrics)) (\<lambda>_.
           ebind (checkMetricsValues mm allKnownMetrics allKnownMetricsValues) (\<lambda>_.
           Inr \<lparr> isTemporal = list_ex (\<lambda>metric. metric \<in> set temporalMetrics) (map_keys mm),
                 isEnvironmental =
                   list_ex (\<lambda>metric. metric \<in> set environmentalMetrics) (map_keys mm),
                 metricsMap = mm,
                 versionStr = parseVersion s \<rparr>))))"
proof -
  from assms(3) obtain v where v: "parseVector s = Some v" "v \<noteq> []" "\<not> str_includes v ''//''"
    by (auto simp: malformedVector_def vectorBody_def split: option.splits)
  have "validateVersion (parseVersion s) = Inr ()"
    using assms(2) by (auto simp: validateVersion_eq unsupportedVersion_def)
  moreover have "validateVector (Some v) = Inr ()"
    using v by (simp add: validateVector_def)
  ultimately show ?thesis
    using assms(1) v by (simp add: validate_def missingPrefix_def Let_def)
qed

lemma validate_stage_1: "missingPrefix s \<Longrightarrow> validate s = Inl MissingPrefix"
  by (simp add: validate_def missingPrefix_def)

lemma validate_stage_2:
  assumes "\<not> missingPrefix s" "unsupportedVersion s"
  shows "\<exists>v. validate s = Inl (UnsupportedVersion v)"
  using assms by (auto simp: validate_def missingPrefix_def unsupportedVersion_def validateVersion_eq)

lemma validate_stage_3:
  assumes "\<not> missingPrefix s" "\<not> unsupportedVersion s" "malformedVector s"
  shows "validate s = Inl MalformedVector"
proof -
  have "validateVersion (parseVersion s) = Inr ()"
    using assms(2) by (auto simp: validateVersion_eq unsupportedVersion_def)
  moreover have "parseVector s = None \<or> parseVector s = Some []
      \<or> validateVector (parseVector s) = Inl MalformedVector"
    using assms(3)
    by (auto simp: malformedVector_def vectorBody_def validateVector_def split: option.splits)
  ultimately show ?thesis
    using assms(1) by (auto simp: validate_def missingPrefix_def Let_def)
qed

lemma parserError_iff: "parserError s \<longleftrightarrow> isl (parseMetricsAsMap s)"
proof (cases "parseMetricsAsMap s")
  case (Inl e)
  then have "\<not> (\<exists>mm. parseMetricsAsMap s = Inr mm)"
    by simp
  then show ?thesis
    using Inl unfolding parseMetricsAsMap_Inr_iff by (auto simp: parserError_def)
next
  case (Inr mm)
  then show ?thesis
    using parseMetricsAsMap_Inr_iff [of s mm] by (auto simp: parserError_def)
qed

lemma validate_stage_4:
  assumes "\<not> missingPrefix s" "\<not> unsupportedVersion s" "\<not> malformedVector s" "parserError s"
  shows "\<exists>e. validate s = Inl e \<and> checkOf e = 4"
proof -
  from assms(4) obtain e where e: "parseMetricsAsMap s = Inl e"
    by (auto simp: parserError_iff isl_def)
  then have "checkOf e = 4"
    using parseMetricsAsMap_Inl by fastforce
  then show ?thesis
    using e by (simp add: validate_after_vector [OF assms(1-3)])
qed

lemma validate_after_parser:
  assumes "\<not> missingPrefix s" "\<not> unsupportedVersion s" "\<not> malformedVector s"
    "\<not> parserError s"
  shows "validate s =
           ebind (checkMandatoryMetrics (rawPairs s) baseMetrics) (\<lambda>_.
           ebind (checkUnknownMetrics (rawPairs s) (Some allKnownMetrics)) (\<lambda>_.
           ebind (checkMetricsValues (rawPairs s) allKnownMetrics allKnownMetricsValues) (\<lambda>_.
           Inr \<lparr> isTemporal =
                   list_ex (\<lambda>metric. metric \<in> set temporalMetrics) (map_keys (rawPairs s)),
                 isEnvironmental =
                   list_ex (\<lambda>metric. metric \<in> set environmentalMetrics) (map_keys (rawPairs s)),
                 metricsMap = rawPairs s,
                 versionStr = parseVersion s \<rparr>)))"
proof -
  have "parseMetricsAsMap s = Inr (rawPairs s)"
    using assms(4) by (simp add: parseMetricsAsMap_Inr_iff parserError_def)
  then show ?thesis
    by (simp add: validate_after_vector [OF assms(1-3)])
qed

lemma missingMandatoryMetric_iff:
  "missingMandatoryMetric s \<longleftrightarrow>
     find (\<lambda>b. map_get (rawPairs s) b = None) baseMetrics \<noteq> None"
  by (auto simp: missingMandatoryMetric_def find_None_iff map_get_None_iff map_keys_def)

lemma validate_stage_5:
  assumes "\<not> missingPrefix s" "\<not> unsupportedVersion s" "\<not> malformedVector s"
    "\<not> parserError s" "missingMandatoryMetric s"
  shows "\<exists>m. validate s = Inl (MissingMandatoryMetric m)
           \<and> find (\<lambda>b. b \<notin> fst ` set (rawPairs s)) baseMetrics = Some m"
proof -
  have same: "(\<lambda>b. map_get (rawPairs s) b = None) = (\<lambda>b. b \<notin> fst ` set (rawPairs s))"
    by (auto simp: map_get_None_iff map_keys_def)
  from assms(5) obtain m where "find (\<lambda>b. map_get (rawPairs s) b = None) baseMetrics = Some m"
    by (auto simp: missingMandatoryMetric_iff)
  then show ?thesis
    by (simp add: validate_after_parser [OF assms(1-4)] checkMandatoryMetrics_eq same)
qed

lemma validate_stage_6:
  assumes "\<not> missingPrefix s" "\<not> unsupportedVersion s" "\<not> malformedVector s"
    "\<not> parserError s" "\<not> missingMandatoryMetric s" "unknownMetric s"
  shows "\<exists>k. validate s = Inl (UnknownMetric k)"
proof -
  have "find (\<lambda>b. map_get (rawPairs s) b = None) baseMetrics = None"
    using assms(5) by (simp add: missingMandatoryMetric_iff)
  moreover from assms(6) obtain k
    where "find (\<lambda>k. k \<notin> set allKnownMetrics) (map_keys (rawPairs s)) = Some k"
    by (cases "find (\<lambda>k. k \<notin> set allKnownMetrics) (map_keys (rawPairs s))")
      (auto simp: unknownMetric_def find_None_iff map_keys_def)
  ultimately show ?thesis
    by (simp add: validate_after_parser [OF assms(1-4)] checkMandatoryMetrics_eq
        checkUnknownMetrics_def checkUnknownLoop_eq)
qed

lemma invalidMetricValue_iff:
  assumes "\<not> parserError s"
  shows "invalidMetricValue s \<longleftrightarrow>
           checkMetricsValues (rawPairs s) allKnownMetrics allKnownMetricsValues \<noteq> Inr ()"
proof -
  have dist: "distinct (map fst (rawPairs s))"
    using assms by (simp add: parserError_def)
  have ok: "\<forall>seg \<in> set (segments s). segmentAccepted seg"
    using assms by (simp add: parserError_def)
  have legal: "legalValues m = the (allKnownMetricsValues m)"
    if known: "m \<in> set allKnownMetrics" for m
  proof -
    obtain allowed where "allKnownMetricsValues m = Some allowed"
      using allKnownMetricsValues_defined known by auto
    then show ?thesis
      by (simp add: legalValues_def)
  qed
  have "invalidMetricValue s \<longleftrightarrow>
      (\<exists>m \<in> set allKnownMetrics. \<exists>v. map_get (rawPairs s) m = Some v
          \<and> v \<notin> set (the (allKnownMetricsValues m)))"
  proof
    assume "invalidMetricValue s"
    then obtain p where p: "p \<in> set (rawPairs s)" "fst p \<in> set allKnownMetrics"
      "snd p \<notin> set (legalValues (fst p))"
      unfolding invalidMetricValue_def by blast
    have "map_get (rawPairs s) (fst p) = Some (snd p)"
      using p(1) by (simp add: map_get_distinct [OF dist])
    moreover have "snd p \<notin> set (the (allKnownMetricsValues (fst p)))"
      using p(3) legal [OF p(2)] by simp
    ultimately show "\<exists>m \<in> set allKnownMetrics. \<exists>v. map_get (rawPairs s) m = Some v
          \<and> v \<notin> set (the (allKnownMetricsValues m))"
      using p(2) by blast
  next
    assume "\<exists>m \<in> set allKnownMetrics. \<exists>v. map_get (rawPairs s) m = Some v
          \<and> v \<notin> set (the (allKnownMetricsValues m))"
    then obtain m v where mv: "m \<in> set allKnownMetrics" "map_get (rawPairs s) m = Some v"
      "v \<notin> set (the (allKnownMetricsValues m))"
      by blast
    have "(m, v) \<in> set (rawPairs s)"
      using mv(2) by (simp add: map_get_distinct [OF dist])
    moreover have "snd (m, v) \<notin> set (legalValues (fst (m, v)))"
      using mv(3) legal [OF mv(1)] by simp
    ultimately show "invalidMetricValue s"
      unfolding invalidMetricValue_def using mv(1) by (intro bexI [of _ "(m, v)"]) simp_all
  qed
  moreover have "checkMetricsValues (rawPairs s) allKnownMetrics allKnownMetricsValues = Inr ()
      \<longleftrightarrow> (\<forall>m \<in> set allKnownMetrics. \<forall>v. map_get (rawPairs s) m = Some v
            \<longrightarrow> v \<in> set (the (allKnownMetricsValues m)))"
    by (rule checkMetricsValues_Inr_iff [OF allKnownMetricsValues_defined
          rawPairs_values_nonempty [OF ok]])
  ultimately show ?thesis
    by blast
qed

lemma validate_stage_7:
  assumes "\<not> missingPrefix s" "\<not> unsupportedVersion s" "\<not> malformedVector s"
    "\<not> parserError s" "\<not> missingMandatoryMetric s" "\<not> unknownMetric s"
    "invalidMetricValue s"
  shows "\<exists>m v. validate s = Inl (InvalidMetricValue m v)"
proof -
  have "find (\<lambda>b. map_get (rawPairs s) b = None) baseMetrics = None"
    using assms(5) by (simp add: missingMandatoryMetric_iff)
  moreover have "find (\<lambda>k. k \<notin> set allKnownMetrics) (map_keys (rawPairs s)) = None"
    using assms(6) by (auto simp: unknownMetric_def find_None_iff map_keys_def)
  moreover obtain e
    where e: "checkMetricsValues (rawPairs s) allKnownMetrics allKnownMetricsValues = Inl e"
    using assms(7) invalidMetricValue_iff [OF assms(4)]
    by (cases "checkMetricsValues (rawPairs s) allKnownMetrics allKnownMetricsValues") auto
  moreover from e obtain m v where "e = InvalidMetricValue m v"
    using checkMetricsValues_Inl [OF allKnownMetricsValues_defined] by blast
  ultimately show ?thesis
    by (simp add: validate_after_parser [OF assms(1-4)] checkMandatoryMetrics_eq
        checkUnknownMetrics_def checkUnknownLoop_eq)
qed

lemma validate_all_pass:
  assumes "\<not> missingPrefix s" "\<not> unsupportedVersion s" "\<not> malformedVector s"
    "\<not> parserError s" "\<not> missingMandatoryMetric s" "\<not> unknownMetric s"
    "\<not> invalidMetricValue s"
  shows "validate s =
           Inr \<lparr> isTemporal =
                   list_ex (\<lambda>metric. metric \<in> set temporalMetrics) (map_keys (rawPairs s)),
                 isEnvironmental =
                   list_ex (\<lambda>metric. metric \<in> set environmentalMetrics) (map_keys (rawPairs s)),
                 metricsMap = rawPairs s,
                 versionStr = parseVersion s \<rparr>"
proof -
  have "find (\<lambda>b. map_get (rawPairs s) b = None) baseMetrics = None"
    using assms(5) by (simp add: missingMandatoryMetric_iff)
  moreover have "find (\<lambda>k. k \<notin> set allKnownMetrics) (map_keys (rawPairs s)) = None"
    using assms(6) by (auto simp: unknownMetric_def find_None_iff map_keys_def)
  moreover have "checkMetricsValues (rawPairs s) allKnownMetrics allKnownMetricsValues = Inr ()"
    using assms(7) invalidMetricValue_iff [OF assms(4)] by simp
  ultimately show ?thesis
    by (simp add: validate_after_parser [OF assms(1-4)] checkMandatoryMetrics_eq
        checkUnknownMetrics_def checkUnknownLoop_eq)
qed

lemma failingCheck_simps:
  "failingCheck 0 s = False"
  "failingCheck 1 s = missingPrefix s"
  "failingCheck (Suc 0) s = missingPrefix s"
  "failingCheck 2 s = unsupportedVersion s"
  "failingCheck 3 s = malformedVector s"
  "failingCheck 4 s = parserError s"
  "failingCheck 5 s = missingMandatoryMetric s"
  "failingCheck 6 s = unknownMetric s"
  "failingCheck 7 s = invalidMetricValue s"
  by (simp_all add: failingCheck_def)

lemma failingCheck_cases:
  assumes "failingCheck j s"
  shows "j = 1 \<and> missingPrefix s \<or> j = 2 \<and> unsupportedVersion s \<or> j = 3 \<and> malformedVector s
    \<or> j = 4 \<and> parserError s \<or> j = 5 \<and> missingMandatoryMetric s \<or> j = 6 \<and> unknownMetric s
    \<or> j = 7 \<and> invalidMetricValue s"
  using assms by (simp add: failingCheck_def split: if_splits)

lemma below_check:
  "(\<forall>j < n. \<not> failingCheck j s) \<longleftrightarrow>
     (1 < n \<longrightarrow> \<not> missingPrefix s) \<and> (2 < n \<longrightarrow> \<not> unsupportedVersion s)
     \<and> (3 < n \<longrightarrow> \<not> malformedVector s) \<and> (4 < n \<longrightarrow> \<not> parserError s)
     \<and> (5 < n \<longrightarrow> \<not> missingMandatoryMetric s) \<and> (6 < n \<longrightarrow> \<not> unknownMetric s)
     \<and> (7 < n \<longrightarrow> \<not> invalidMetricValue s)"
  (is "?lhs \<longleftrightarrow> ?rhs")
proof
  assume h: ?lhs
  show ?rhs
    using h [rule_format, of 1] h [rule_format, of 2] h [rule_format, of 3]
      h [rule_format, of 4] h [rule_format, of 5] h [rule_format, of 6] h [rule_format, of 7]
    by (simp add: failingCheck_simps)
next
  assume h: ?rhs
  show ?lhs
  proof (intro allI impI notI)
    fix j
    assume "j < n" "failingCheck j s"
    then show False
      using h failingCheck_cases [of j s] by auto
  qed
qed

lemma no_failingCheck:
  "(\<forall>j. \<not> failingCheck j s) \<longleftrightarrow>
     \<not> missingPrefix s \<and> \<not> unsupportedVersion s \<and> \<not> malformedVector s \<and> \<not> parserError s
     \<and> \<not> missingMandatoryMetric s \<and> \<not> unknownMetric s \<and> \<not> invalidMetricValue s"
  (is "?lhs \<longleftrightarrow> ?rhs")
proof
  assume h: ?lhs
  show ?rhs
    using h [rule_format, of 1] h [rule_format, of 2] h [rule_format, of 3]
      h [rule_format, of 4] h [rule_format, of 5] h [rule_format, of 6] h [rule_format, of 7]
    by (simp add: failingCheck_simps)
next
  assume h: ?rhs
  show ?lhs
    using h failingCheck_cases [of _ s] by blast
qed

lemma first_failing_check:
  assumes "validate s = Inl e0" and "checkOf e0 = n" and "1 \<le> n" and "n \<le> 7"
    and "failingCheck n s" and "\<forall>j < n. \<not> failingCheck j s"
    and "\<And>m'. e0 = MissingMandatoryMetric m' \<Longrightarrow>
           find (\<lambda>b. b \<notin> fst ` set (rawPairs s)) baseMetrics = Some m'"
  shows "(validate s = Inl e \<longrightarrow>
      1 \<le> checkOf e \<and> checkOf e \<le> 7 \<and> failingCheck (checkOf e) s
      \<and> (\<forall>j < checkOf e. \<not> failingCheck j s))
   \<and> ((\<exists>r. validate s = Inr r) \<longleftrightarrow> (\<forall>j. \<not> failingCheck j s))
   \<and> (validate s = Inl (MissingMandatoryMetric m) \<longrightarrow>
        find (\<lambda>b. b \<notin> fst ` set (rawPairs s)) baseMetrics = Some m)"
proof (intro conjI impI)
  assume "validate s = Inl e"
  then have "e = e0"
    using assms(1) by simp
  then show "1 \<le> checkOf e" "checkOf e \<le> 7" "failingCheck (checkOf e) s"
    "\<forall>j < checkOf e. \<not> failingCheck j s"
    using assms(2-6) by simp_all
next
  show "(\<exists>r. validate s = Inr r) \<longleftrightarrow> (\<forall>j. \<not> failingCheck j s)"
    using assms(1,5) by auto
next
  assume "validate s = Inl (MissingMandatoryMetric m)"
  then have "e0 = MissingMandatoryMetric m"
    using assms(1) by simp
  then show "find (\<lambda>b. b \<notin> fst ` set (rawPairs s)) baseMetrics = Some m"
    by (rule assms(7))
qed

text \<open>
  Claim C8. \<open>validate\<close> raises the error of the first failing check, in the order
  MissingPrefix (1), UnsupportedVersion (2), MalformedVector (3), the parser errors
  InvalidMetricSegment and DuplicateMetric (4), MissingMandatoryMetric (5),
  UnknownMetric (6), InvalidMetricValue (7): the check of the error raised fails on the
  input and no earlier check does, whatever later checks fail as well; \<open>validate\<close>
  returns exactly when no check fails; and MissingMandatoryMetric names the first Base
  metric, in the order of \<open>baseMetrics\<close>, that is not a key of the vector.
\<close>

theorem validate_raises_first_failing_check:
  "(validate s = Inl e \<longrightarrow>
      1 \<le> checkOf e \<and> checkOf e \<le> 7 \<and> failingCheck (checkOf e) s
      \<and> (\<forall>j < checkOf e. \<not> failingCheck j s))
   \<and> ((\<exists>r. validate s = Inr r) \<longleftrightarrow> (\<forall>j. \<not> failingCheck j s))
   \<and> (validate s = Inl (MissingMandatoryMetric m) \<longrightarrow>
        find (\<lambda>b. b \<notin> fst ` set (rawPairs s)) baseMetrics = Some m)"
proof (cases "missingPrefix s")
  case True
  show ?thesis
    by (rule first_failing_check [OF validate_stage_1 [OF True], of 1])
      (simp_all add: failingCheck_simps below_check True)
next
  case c1: False
  show ?thesis
  proof (cases "unsupportedVersion s")
    case True
    obtain v where v: "validate s = Inl (UnsupportedVersion v)"
      using validate_stage_2 [OF c1 True] by blast
    show ?thesis
      by (rule first_failing_check [OF v, of 2])
        (simp_all add: failingCheck_simps below_check True c1)
  next
    case c2: False
    show ?thesis
    proof (cases "malformedVector s")
      case True
      show ?thesis
        by (rule first_failing_check [OF validate_stage_3 [OF c1 c2 True], of 3])
          (simp_all add: failingCheck_simps below_check True c1 c2)
    next
      case c3: False
      show ?thesis
      proof (cases "parserError s")
        case True
        obtain e' where e': "validate s = Inl e'" "checkOf e' = 4"
          using validate_stage_4 [OF c1 c2 c3 True] by blast
        have "e' \<noteq> MissingMandatoryMetric m'" for m'
          using e'(2) by auto
        then show ?thesis
          by (intro first_failing_check [OF e'])
            (auto simp: failingCheck_simps below_check True c1 c2 c3)
      next
        case c4: False
        show ?thesis
        proof (cases "missingMandatoryMetric s")
          case True
          obtain m' where m': "validate s = Inl (MissingMandatoryMetric m')"
            "find (\<lambda>b. b \<notin> fst ` set (rawPairs s)) baseMetrics = Some m'"
            using validate_stage_5 [OF c1 c2 c3 c4 True] by blast
          show ?thesis
            by (rule first_failing_check [OF m'(1), of 5])
              (simp_all add: failingCheck_simps below_check True c1 c2 c3 c4 m'(2))
        next
          case c5: False
          show ?thesis
          proof (cases "unknownMetric s")
            case True
            obtain k where k: "validate s = Inl (UnknownMetric k)"
              using validate_stage_6 [OF c1 c2 c3 c4 c5 True] by blast
            show ?thesis
              by (rule first_failing_check [OF k, of 6])
                (simp_all add: failingCheck_simps below_check True c1 c2 c3 c4 c5)
          next
            case c6: False
            show ?thesis
            proof (cases "invalidMetricValue s")
              case True
              obtain m' v where mv: "validate s = Inl (InvalidMetricValue m' v)"
                using validate_stage_7 [OF c1 c2 c3 c4 c5 c6 True] by blast
              show ?thesis
                by (rule first_failing_check [OF mv, of 7])
                  (simp_all add: failingCheck_simps below_check True c1 c2 c3 c4 c5 c6)
            next
              case c7: False
              have "\<forall>j. \<not> failingCheck j s"
                by (simp add: no_failingCheck c1 c2 c3 c4 c5 c6 c7)
              then show ?thesis
                using validate_all_pass [OF c1 c2 c3 c4 c5 c6 c7] by simp
            qed
          qed
        qed
      qed
    qed
  qed
qed

theorem validate_raises_first_failing_check_witness:
  "validate ''CVSS:3.1/AV:N/ZZ:Q'' = Inl (MissingMandatoryMetric ''AC'')
   \<and> failingCheck 5 ''CVSS:3.1/AV:N/ZZ:Q'' \<and> failingCheck 6 ''CVSS:3.1/AV:N/ZZ:Q''
   \<and> \<not> failingCheck 4 ''CVSS:3.1/AV:N/ZZ:Q''
   \<and> find (\<lambda>b. b \<notin> fst ` set (rawPairs ''CVSS:3.1/AV:N/ZZ:Q'')) baseMetrics = Some ''AC''"
proof -
  have v: "validate ''CVSS:3.1/AV:N/ZZ:Q'' = Inl (MissingMandatoryMetric ''AC'')"
    by code_simp
  have later: "failingCheck 6 ''CVSS:3.1/AV:N/ZZ:Q''"
    by code_simp
  show ?thesis
    using v later
      validate_raises_first_failing_check
        [of "''CVSS:3.1/AV:N/ZZ:Q''" "MissingMandatoryMetric ''AC''" "''AC''"]
    by simp
qed

section \<open>What validation establishes\<close>

lemma validate_Inr_checks:
  assumes "validate s = Inr r"
  shows "\<not> missingPrefix s" "\<not> unsupportedVersion s" "\<not> malformedVector s"
    "\<not> parserError s" "\<not> missingMandatoryMetric s" "\<not> unknownMetric s"
    "\<not> invalidMetricValue s"
proof -
  show c1: "\<not> missingPrefix s"
    using assms validate_stage_1 [of s] by auto
  show c2: "\<not> unsupportedVersion s"
    using assms validate_stage_2 [OF c1] by auto
  show c3: "\<not> malformedVector s"
    using assms validate_stage_3 [OF c1 c2] by auto
  show c4: "\<not> parserError s"
    using assms validate_stage_4 [OF c1 c2 c3] by auto
  show c5: "\<not> missingMandatoryMetric s"
    using assms validate_stage_5 [OF c1 c2 c3 c4] by auto
  show c6: "\<not> unknownMetric s"
    using assms validate_stage_6 [OF c1 c2 c3 c4 c5] by auto
  show "\<not> invalidMetricValue s"
    using assms validate_stage_7 [OF c1 c2 c3 c4 c5 c6] by auto
qed

lemma validate_Inr_fields:
  assumes "validate s = Inr r"
  shows "metricsMap r = rawPairs s" and "versionStr r = parseVersion s"
  using assms validate_all_pass [OF validate_Inr_checks [OF assms]] by auto

lemma validate_Inr_version:
  assumes "validate s = Inr r"
  shows "versionStr r = Some ''3.0'' \<or> versionStr r = Some ''3.1''"
  using validate_Inr_checks(2) [OF assms] validate_Inr_fields(2) [OF assms]
  by (simp add: unsupportedVersion_def)

lemma validate_Inr_validated:
  assumes "validate s = Inr r"
  shows "validated (metricsMap r)"
proof -
  note checks = validate_Inr_checks [OF assms]
  have dist: "distinct (map fst (rawPairs s))"
    using checks(4) by (simp add: parserError_def)
  have base: "\<forall>b \<in> set baseMetrics. map_get (rawPairs s) b \<noteq> None"
    using checks(5) by (auto simp: missingMandatoryMetric_def map_get_None_iff map_keys_def)
  have known: "set (map_keys (rawPairs s)) \<subseteq> set allKnownMetrics"
    using checks(6) by (auto simp: unknownMetric_def map_keys_def)
  have legal: "v \<in> set (legalValues m)"
    if m: "m \<in> set allKnownMetrics" and v: "map_get (rawPairs s) m = Some v" for m v
  proof (rule ccontr)
    assume bad: "v \<notin> set (legalValues m)"
    have "(m, v) \<in> set (rawPairs s)"
      using v by (simp add: map_get_distinct [OF dist])
    then have "invalidMetricValue s"
      unfolding invalidMetricValue_def using m bad by (intro bexI [of _ "(m, v)"]) simp_all
    then show False
      using checks(7) by simp
  qed
  show ?thesis
    unfolding validated_def validate_Inr_fields(1) [OF assms]
    using base known legal by blast
qed

section \<open>Weights\<close>

lemma legalValues_simps:
  "legalValues ''AV'' = [''N'', ''A'', ''L'', ''P'']"
  "legalValues ''AC'' = [''L'', ''H'']"
  "legalValues ''PR'' = [''N'', ''L'', ''H'']"
  "legalValues ''UI'' = [''N'', ''R'']"
  "legalValues ''S'' = [''U'', ''C'']"
  "legalValues ''C'' = [''N'', ''L'', ''H'']"
  "legalValues ''I'' = [''N'', ''L'', ''H'']"
  "legalValues ''A'' = [''N'', ''L'', ''H'']"
  "legalValues ''E'' = [''X'', ''H'', ''F'', ''P'', ''U'']"
  "legalValues ''RL'' = [''X'', ''U'', ''W'', ''T'', ''O'']"
  "legalValues ''RC'' = [''X'', ''C'', ''R'', ''U'']"
  "legalValues ''CR'' = [''X'', ''H'', ''M'', ''L'']"
  "legalValues ''IR'' = [''X'', ''H'', ''M'', ''L'']"
  "legalValues ''AR'' = [''X'', ''H'', ''M'', ''L'']"
  "legalValues ''MAV'' = [''X'', ''N'', ''A'', ''L'', ''P'']"
  "legalValues ''MAC'' = [''X'', ''L'', ''H'']"
  "legalValues ''MPR'' = [''X'', ''N'', ''L'', ''H'']"
  "legalValues ''MUI'' = [''X'', ''N'', ''R'']"
  "legalValues ''MS'' = [''X'', ''U'', ''C'']"
  "legalValues ''MC'' = [''X'', ''N'', ''L'', ''H'']"
  "legalValues ''MI'' = [''X'', ''N'', ''L'', ''H'']"
  "legalValues ''MA'' = [''X'', ''N'', ''L'', ''H'']"
  by code_simp+

lemma allMetricValueScores_simps:
  "allMetricValueScores ''AV'' = Some (Some [(''N'', 0.85), (''A'', 0.62), (''L'', 0.55), (''P'', 0.2)])"
  "allMetricValueScores ''AC'' = Some (Some [(''L'', 0.77), (''H'', 0.44)])"
  "allMetricValueScores ''UI'' = Some (Some [(''N'', 0.85), (''R'', 0.62)])"
  "allMetricValueScores ''S'' = Some (Some [(''U'', 0), (''C'', 0)])"
  "allMetricValueScores ''C'' = Some (Some [(''N'', 0), (''L'', 0.22), (''H'', 0.56)])"
  "allMetricValueScores ''I'' = Some (Some [(''N'', 0), (''L'', 0.22), (''H'', 0.56)])"
  "allMetricValueScores ''A'' = Some (Some [(''N'', 0), (''L'', 0.22), (''H'', 0.56)])"
  "allMetricValueScores ''E'' =
     Some (Some [(''X'', 1), (''U'', 0.91), (''F'', 0.97), (''P'', 0.94), (''H'', 1)])"
  "allMetricValueScores ''RL'' =
     Some (Some [(''X'', 1), (''O'', 0.95), (''T'', 0.96), (''W'', 0.97), (''U'', 1)])"
  "allMetricValueScores ''RC'' = Some (Some [(''X'', 1), (''U'', 0.92), (''R'', 0.96), (''C'', 1)])"
  "allMetricValueScores ''CR'' = Some (Some [(''M'', 1), (''L'', 0.5), (''H'', 1.5), (''X'', 1)])"
  "allMetricValueScores ''IR'' = Some (Some [(''M'', 1), (''L'', 0.5), (''H'', 1.5), (''X'', 1)])"
  "allMetricValueScores ''AR'' = Some (Some [(''M'', 1), (''L'', 0.5), (''H'', 1.5), (''X'', 1)])"
  "allMetricValueScores ''MAV'' =
     Some (Some [(''N'', 0.85), (''A'', 0.62), (''L'', 0.55), (''P'', 0.2)])"
  "allMetricValueScores ''MAC'' = Some (Some [(''L'', 0.77), (''H'', 0.44)])"
  "allMetricValueScores ''MUI'' = Some (Some [(''N'', 0.85), (''R'', 0.62)])"
  "allMetricValueScores ''MS'' = Some (Some [(''U'', 0), (''C'', 0)])"
  "allMetricValueScores ''MC'' = Some (Some [(''N'', 0), (''L'', 0.22), (''H'', 0.56)])"
  "allMetricValueScores ''MI'' = Some (Some [(''N'', 0), (''L'', 0.22), (''H'', 0.56)])"
  "allMetricValueScores ''MA'' = Some (Some [(''N'', 0), (''L'', 0.22), (''H'', 0.56)])"
  by (simp_all add: allMetricValueScores_def baseMetricValueScores_def
      temporalMetricValueScores_def environmentalMetricValueScores_def baseScoresOf_def
      map_add_def)

lemma getMetricNumericValue_table:
  assumes "metric \<noteq> ''PR''" "metric \<noteq> ''MPR''" "map_get mm metric = Some v"
    and "allMetricValueScores metric = Some (Some tbl)"
  shows "getMetricNumericValue metric mm =
           (case map_of tbl v of None \<Rightarrow> Inl (UnknownMetricValue v) | Some w \<Rightarrow> Inr w)"
  using assms by (simp add: getMetricNumericValue_def getMetricValue_def)

lemma weight_in_table:
  assumes "metric \<noteq> ''PR''" "metric \<noteq> ''MPR''" "map_get mm metric = Some v"
    and "allMetricValueScores metric = Some (Some tbl)"
    and "v \<in> fst ` set tbl" and "\<forall>w \<in> snd ` set tbl. P w"
  shows "returns (getMetricNumericValue metric mm) P"
proof -
  from assms(5) obtain w where w: "map_of tbl v = Some w"
    by (metis map_of_eq_None_iff not_None_eq)
  then have "w \<in> snd ` set tbl"
    by (metis map_of_SomeD snd_conv image_eqI)
  then have "P w"
    using assms(6) by blast
  then show ?thesis
    using w by (simp add: getMetricNumericValue_table [OF assms(1-4)])
qed

lemma privileges_weight:
  assumes "v \<in> {''N'', ''L'', ''H''}" "sc \<in> {''U'', ''C''}"
  shows "returns (getPrivilegesRequiredNumericValue v sc) (\<lambda>w. 0 < w \<and> w \<le> 1)"
  using assms by (elim insertE emptyE; simp add: getPrivilegesRequiredNumericValue_def)

lemma validated_value:
  assumes "validated mm" "m \<in> set allKnownMetrics" "map_get mm m = Some v"
  shows "v \<in> set (legalValues m)"
  using assms by (simp add: validated_def)

lemma validated_base:
  assumes "validated mm" "b \<in> set baseMetrics"
  shows "\<exists>v. map_get mm b = Some v \<and> v \<in> set (legalValues b)"
proof -
  have "b \<in> set allKnownMetrics"
    using assms(2) by (simp add: allKnownMetrics_def)
  moreover obtain v where "map_get mm b = Some v"
    using assms by (auto simp: validated_def)
  ultimately show ?thesis
    using validated_value [OF assms(1)] by blast
qed

text \<open>The weight of a metric whose value is legal and not \<^verbatim>\<open>X\<close>, by kind of metric.\<close>

lemma weight_impact_metric:
  assumes "m \<in> {''C'', ''I'', ''A'', ''MC'', ''MI'', ''MA''}"
    and v: "map_get mm m = Some v" and "v \<in> set (legalValues m)" "v \<noteq> ''X''"
  shows "returns (getMetricNumericValue m mm) (\<lambda>w. 0 \<le> w \<and> w \<le> 0.56)"
  using assms(1,3,4)
  by (elim insertE emptyE)
    (rule weight_in_table [OF _ _ v], simp, simp,
      simp add: allMetricValueScores_simps, force simp: legalValues_simps, simp)+

lemma weight_exploitability_metric:
  assumes "m \<in> {''AV'', ''AC'', ''UI'', ''MAV'', ''MAC'', ''MUI''}"
    and v: "map_get mm m = Some v" and "v \<in> set (legalValues m)" "v \<noteq> ''X''"
  shows "returns (getMetricNumericValue m mm) (\<lambda>w. 0 < w \<and> w \<le> 1)"
  using assms(1,3,4)
  by (elim insertE emptyE)
    (rule weight_in_table [OF _ _ v], simp, simp,
      simp add: allMetricValueScores_simps, force simp: legalValues_simps, simp)+

lemma weight_requirement_metric:
  assumes "m \<in> {''CR'', ''IR'', ''AR''}"
    and v: "map_get mm m = Some v" and "v \<in> set (legalValues m)"
  shows "returns (getMetricNumericValue m mm) (\<lambda>w. 0 < w \<and> w \<le> 1.5)"
  using assms(1,3)
  by (elim insertE emptyE)
    (rule weight_in_table [OF _ _ v], simp, simp,
      simp add: allMetricValueScores_simps, force simp: legalValues_simps, simp)+

lemma weight_temporal_metric:
  assumes "m \<in> {''E'', ''RL'', ''RC''}"
    and v: "map_get mm m = Some v" and "v \<in> set (legalValues m)"
  shows "returns (getMetricNumericValue m mm) (\<lambda>w. 0 < w \<and> w \<le> 1)"
  using assms(1,3)
  by (elim insertE emptyE)
    (rule weight_in_table [OF _ _ v], simp, simp,
      simp add: allMetricValueScores_simps, force simp: legalValues_simps, simp)+

lemma weight_scope_metric:
  assumes "m \<in> {''S'', ''MS''}"
    and v: "map_get mm m = Some v" and "v \<in> set (legalValues m)" "v \<noteq> ''X''"
  shows "returns (getMetricNumericValue m mm) (\<lambda>w. w = 0)"
  using assms(1,3,4)
  by (elim insertE emptyE)
    (rule weight_in_table [OF _ _ v], simp, simp,
      simp add: allMetricValueScores_simps, force simp: legalValues_simps, simp)+

lemma weight_privileges_required:
  assumes "map_get mm ''PR'' = Some v" "v \<in> set (legalValues ''PR'')"
    and "map_get mm ''S'' = Some sc" "sc \<in> set (legalValues ''S'')"
  shows "returns (getMetricNumericValue ''PR'' mm) (\<lambda>w. 0 < w \<and> w \<le> 1)"
  using assms privileges_weight [of v sc]
  by (simp add: getMetricNumericValue_def getMetricValue_def legalValues_simps)

lemma weight_modified_privileges_required:
  assumes "map_get mm ''MPR'' = Some v" "v \<in> set (legalValues ''MPR'')" "v \<noteq> ''X''"
    and "map_get mm ''MS'' = Some sc" "sc \<in> set (legalValues ''MS'')" "sc \<noteq> ''X''"
  shows "returns (getMetricNumericValue ''MPR'' mm) (\<lambda>w. 0 < w \<and> w \<le> 1)"
  using assms privileges_weight [of v sc]
  by (simp add: getMetricNumericValue_def getMetricValue_def legalValues_simps)

section \<open>The Base score\<close>

lemma calculateBaseScore_eq:
  assumes "validate s = Inr r"
    and "metricsMap r = mm"
    and "calculateIss mm = Inr iss"
    and "calculateExploitability mm = Inr expl"
  shows "calculateBaseScore s =
           Inr (baseScoreOf (map_get mm ''S'' = Some ''U'') (calculateImpact mm iss) expl)"
  using assms by (simp add: calculateBaseScore_def calculateBaseResult_def Let_def)

lemma validated_base_value:
  assumes "validated mm" "b \<in> set baseMetrics"
  obtains v where "map_get mm b = Some v" "v \<in> set (legalValues b)" "v \<noteq> ''X''"
proof -
  obtain v where v: "map_get mm b = Some v" "v \<in> set (legalValues b)"
    using validated_base [OF assms] by blast
  moreover have "v \<noteq> ''X''"
    using assms(2) v(2) by (auto simp: baseMetrics_def legalValues_simps)
  ultimately show thesis
    using that by blast
qed

lemma calculateIss_returns:
  assumes "validated mm"
  shows "returns (calculateIss mm) (\<lambda>iss. True)"
proof -
  have w: "returns (getMetricNumericValue m mm) (\<lambda>w. 0 \<le> w \<and> w \<le> 0.56)"
    if "m \<in> {''C'', ''I'', ''A''}" for m
  proof -
    have "m \<in> set baseMetrics"
      using that by (auto simp: baseMetrics_def)
    then obtain v where "map_get mm m = Some v" "v \<in> set (legalValues m)" "v \<noteq> ''X''"
      using validated_base_value [OF assms] by blast
    then show ?thesis
      using that by (intro weight_impact_metric) auto
  qed
  from w [of "''C''"] w [of "''I''"] w [of "''A''"] show ?thesis
    by (auto simp: calculateIss_def returns_iff)
qed

lemma calculateExploitability_positive:
  assumes "validated mm"
  shows "returns (calculateExploitability mm) (\<lambda>expl. 0 < expl)"
proof -
  have w: "returns (getMetricNumericValue m mm) (\<lambda>w. 0 < w \<and> w \<le> 1)"
    if "m \<in> {''AV'', ''AC'', ''UI''}" for m
  proof -
    have "m \<in> set baseMetrics"
      using that by (auto simp: baseMetrics_def)
    then obtain v where "map_get mm m = Some v" "v \<in> set (legalValues m)" "v \<noteq> ''X''"
      using validated_base_value [OF assms] by blast
    then show ?thesis
      using that by (intro weight_exploitability_metric) auto
  qed
  obtain v where v: "map_get mm ''PR'' = Some v" "v \<in> set (legalValues ''PR'')"
    using validated_base_value [OF assms, of "''PR''"] by (auto simp: baseMetrics_def)
  obtain sc where sc: "map_get mm ''S'' = Some sc" "sc \<in> set (legalValues ''S'')"
    using validated_base_value [OF assms, of "''S''"] by (auto simp: baseMetrics_def)
  obtain av where av: "getMetricNumericValue ''AV'' mm = Inr av" "0 < av"
    using w [of "''AV''"] by (auto simp: returns_iff)
  obtain ac where ac: "getMetricNumericValue ''AC'' mm = Inr ac" "0 < ac"
    using w [of "''AC''"] by (auto simp: returns_iff)
  obtain ui where ui: "getMetricNumericValue ''UI'' mm = Inr ui" "0 < ui"
    using w [of "''UI''"] by (auto simp: returns_iff)
  obtain pr where pr: "getMetricNumericValue ''PR'' mm = Inr pr" "0 < pr"
    using weight_privileges_required [OF v sc] by (auto simp: returns_iff)
  have "0 < 8.22 * av * ac * pr * ui"
    using av(2) ac(2) ui(2) pr(2) by (intro mult_pos_pos) simp_all
  then show ?thesis
    by (simp only: calculateExploitability_def av(1) ac(1) ui(1) pr(1) ebind_Inr returns_Inr)
qed

lemma roundUp_range:
  assumes "0 \<le> x"
  shows "0 \<le> roundUp (min x 10) \<and> roundUp (min x 10) \<le> 10
         \<and> (\<exists>k. roundUp (min x 10) = real_of_int k / 10)"
  using assms roundUp_bounds [of "min x 10"] roundUp_tenths [of "min x 10"] by auto

lemma baseScoreOf_range:
  assumes "0 < expl"
  shows "0 \<le> baseScoreOf u imp expl \<and> baseScoreOf u imp expl \<le> 10
         \<and> (\<exists>k. baseScoreOf u imp expl = real_of_int k / 10)"
proof (cases "imp \<le> 0")
  case True
  then show ?thesis
    by (simp add: baseScoreOf_def)
next
  case False
  then have "0 \<le> imp + expl" "0 \<le> 1.08 * (imp + expl)"
    using assms by simp_all
  then show ?thesis
    using False roundUp_range [of "imp + expl"] roundUp_range [of "1.08 * (imp + expl)"]
    by (simp add: baseScoreOf_def)
qed

lemma calculateBaseScore_range:
  assumes "validate s = Inr r"
  shows "returns (calculateBaseScore s)
           (\<lambda>b. 0 \<le> b \<and> b \<le> 10 \<and> (\<exists>k. b = real_of_int k / 10))"
proof -
  have valid: "validated (metricsMap r)"
    by (rule validate_Inr_validated [OF assms])
  obtain iss where iss: "calculateIss (metricsMap r) = Inr iss"
    using calculateIss_returns [OF valid] by (auto simp: returns_iff)
  obtain expl where expl: "calculateExploitability (metricsMap r) = Inr expl" "0 < expl"
    using calculateExploitability_positive [OF valid] by (auto simp: returns_iff)
  show ?thesis
    using baseScoreOf_range [OF expl(2)]
    by (simp add: calculateBaseScore_eq [OF assms refl iss expl(1)])
qed

section \<open>Reference vectors\<close>

text \<open>
  Claim C3, as stated: the Base score of
  \<^verbatim>\<open>CVSS:3.0/AV:A/AC:H/PR:H/UI:R/S:U/C:N/I:N/A:L\<close> is 2.5. It is not: the impact
  sub-score is 0.22, the impact 6.42 * 0.22 = 1.4124, the exploitability
  8.22 * 0.62 * 0.44 * 0.27 * 0.62 = 0.3753804384, and their sum 1.7877804384 rounds up
  to 1.8.
\<close>

theorem base_score_30_reference_not_2_5:
  "calculateBaseScore ''CVSS:3.0/AV:A/AC:H/PR:H/UI:R/S:U/C:N/I:N/A:L'' \<noteq> Inr 2.5"
  by code_simp

text \<open>
  Claim C3, amended: \<open>calculateBaseScore\<close> applied to
  \<^verbatim>\<open>CVSS:3.0/AV:A/AC:H/PR:H/UI:R/S:U/C:N/I:N/A:L\<close> returns exactly 1.8.
\<close>

theorem base_score_30_reference:
  "calculateBaseScore ''CVSS:3.0/AV:A/AC:H/PR:H/UI:R/S:U/C:N/I:N/A:L'' = Inr 1.8"
  by code_simp

lemma base_score_31_unchanged:
  "calculateBaseScore ''CVSS:3.1/AV:N/AC:L/PR:N/UI:N/S:U/C:H/I:H/A:H'' = Inr 9.8"
  by code_simp

lemma base_score_31_changed:
  "calculateBaseScore ''CVSS:3.1/AV:N/AC:L/PR:N/UI:N/S:C/C:H/I:H/A:H'' = Inr 10"
proof -
  define mm where "mm = [(''AV'', ''N''), (''AC'', ''L''), (''PR'', ''N''), (''UI'', ''N''),
    (''S'', ''C''), (''C'', ''H''), (''I'', ''H''), (''A'', ''H'')]"
  have v: "validate ''CVSS:3.1/AV:N/AC:L/PR:N/UI:N/S:C/C:H/I:H/A:H'' =
      Inr \<lparr>isTemporal = False, isEnvironmental = False, metricsMap = mm,
            versionStr = Some ''3.1''\<rparr>"
    unfolding mm_def by code_simp
  have iss: "calculateIss mm = Inr 0.914816"
    unfolding mm_def by code_simp
  have expl: "calculateExploitability mm = Inr 3.887042775"
    unfolding mm_def by code_simp
  have scope: "map_get mm ''S'' = Some ''C''"
    unfolding mm_def by code_simp
  have "calculateBaseScore ''CVSS:3.1/AV:N/AC:L/PR:N/UI:N/S:C/C:H/I:H/A:H'' =
      Inr (baseScoreOf (map_get mm ''S'' = Some ''U'') (calculateImpact mm 0.914816) 3.887042775)"
    (is "_ = Inr ?b")
    by (rule calculateBaseScore_eq [OF v _ iss expl]) simp
  moreover have "?b = 10"
    by (simp add: baseScoreOf_def calculateImpact_def scope power_divide roundUp_10)
  ultimately show ?thesis
    by (simp only:)
qed

text \<open>
  Claim C4. \<open>calculateBaseScore\<close> returns 9.8 on
  \<^verbatim>\<open>CVSS:3.1/AV:N/AC:L/PR:N/UI:N/S:U/C:H/I:H/A:H\<close> and 10.0 on
  \<^verbatim>\<open>CVSS:3.1/AV:N/AC:L/PR:N/UI:N/S:C/C:H/I:H/A:H\<close>.
\<close>

theorem base_score_31_references:
  "calculateBaseScore ''CVSS:3.1/AV:N/AC:L/PR:N/UI:N/S:U/C:H/I:H/A:H'' = Inr 9.8
   \<and> calculateBaseScore ''CVSS:3.1/AV:N/AC:L/PR:N/UI:N/S:C/C:H/I:H/A:H'' = Inr 10.0"
  using base_score_31_unchanged base_score_31_changed by simp

subsection \<open>Stability of the reference scores\<close>

text \<open>
  The reference scores do not depend on the last digits of the sum that is rounded: any
  number within 10^-6 of the exact sum of impact and exploitability is rounded up to
  the same score. (A floating-point evaluation of the sum is much closer to it than
  that.)
\<close>

lemma Math_round_eq:
  assumes "real_of_int n - 1 / 2 \<le> x" "x < real_of_int n + 1 / 2"
  shows "Math_round x = n"
  unfolding Math_round_def using assms by linarith

lemma reference_30_intermediate:
  "calculateIss [(''AV'', ''A''), (''AC'', ''H''), (''PR'', ''H''), (''UI'', ''R''),
      (''S'', ''U''), (''C'', ''N''), (''I'', ''N''), (''A'', ''L'')] = Inr 0.22"
  "calculateImpact [(''AV'', ''A''), (''AC'', ''H''), (''PR'', ''H''), (''UI'', ''R''),
      (''S'', ''U''), (''C'', ''N''), (''I'', ''N''), (''A'', ''L'')] 0.22 = 1.4124"
  "calculateExploitability [(''AV'', ''A''), (''AC'', ''H''), (''PR'', ''H''), (''UI'', ''R''),
      (''S'', ''U''), (''C'', ''N''), (''I'', ''N''), (''A'', ''L'')] = Inr 0.3753804384"
  by code_simp+

lemma reference_30_stable:
  assumes "\<bar>x - (1.4124 + 0.3753804384)\<bar> \<le> 1 / 1000000"
  shows "roundUp (min x 10) = 1.8"
proof -
  have x: "1.7877794384 \<le> x" "x \<le> 1.7877814384"
    using assms unfolding abs_le_iff by simp_all
  then have "min x 10 = x"
    by simp
  moreover have "Math_round (x * 100000) = 178778"
    using x by (intro Math_round_eq) simp_all
  ultimately show ?thesis
    by (simp add: roundUp_def Math_floor_def)
qed

lemma reference_31_intermediate:
  "calculateIss [(''AV'', ''N''), (''AC'', ''L''), (''PR'', ''N''), (''UI'', ''N''),
      (''S'', ''U''), (''C'', ''H''), (''I'', ''H''), (''A'', ''H'')] = Inr 0.914816"
  "calculateImpact [(''AV'', ''N''), (''AC'', ''L''), (''PR'', ''N''), (''UI'', ''N''),
      (''S'', ''U''), (''C'', ''H''), (''I'', ''H''), (''A'', ''H'')] 0.914816 = 5.87311872"
  "calculateExploitability [(''AV'', ''N''), (''AC'', ''L''), (''PR'', ''N''), (''UI'', ''N''),
      (''S'', ''U''), (''C'', ''H''), (''I'', ''H''), (''A'', ''H'')] = Inr 3.887042775"
  by code_simp+

lemma reference_31_stable:
  assumes "\<bar>x - (5.87311872 + 3.887042775)\<bar> \<le> 1 / 1000000"
  shows "roundUp (min x 10) = 9.8"
proof -
  have x: "9.760160495 \<le> x" "x \<le> 9.760162495"
    using assms unfolding abs_le_iff by simp_all
  then have "min x 10 = x"
    by simp
  moreover have "Math_round (x * 100000) = 976016"
    using x by (intro Math_round_eq) simp_all
  ultimately show ?thesis
    by (simp add: roundUp_def Math_floor_def)
qed

text \<open>
  With Scope Changed the sum times 1.08 is above 10.7, and every number from 10 on gives
  the score 10.
\<close>

lemma reference_31_changed_margin:
  "10.7 < 1.08 * (calculateImpact [(''AV'', ''N''), (''AC'', ''L''), (''PR'', ''N''),
      (''UI'', ''N''), (''S'', ''C''), (''C'', ''H''), (''I'', ''H''), (''A'', ''H'')] 0.914816
      + 3.887042775)"
  by (simp add: calculateImpact_def map_get_def power_divide)

lemma reference_31_changed_stable:
  assumes "10 \<le> x"
  shows "roundUp (min x 10) = 10"
  using assms by (simp add: roundUp_10)

section \<open>Temporal defaults and the Temporal score\<close>

lemma populateTemporalMetricDefaults_get:
  "map_get (populateTemporalMetricDefaults mm) k =
     (if k \<in> set temporalMetrics \<and> map_get mm k = None then Some ''X'' else map_get mm k)"
  by (simp add: populateTemporalMetricDefaults_def temporalMetrics_def populateTemporalStep_def
      map_has_iff_get map_get_map_set)

lemma populateTemporalMetricDefaults_keys:
  "set (map_keys (populateTemporalMetricDefaults mm)) = set (map_keys mm) \<union> set temporalMetrics"
proof -
  have "k \<in> set (map_keys (populateTemporalMetricDefaults mm)) \<longleftrightarrow>
      k \<in> set (map_keys mm) \<union> set temporalMetrics" for k
    using populateTemporalMetricDefaults_get [of mm k] map_get_None_iff [of mm k]
      map_get_None_iff [of "populateTemporalMetricDefaults mm" k]
    by (auto split: if_splits)
  then show ?thesis
    by blast
qed

lemma validated_populateTemporalMetricDefaults:
  assumes "validated mm"
  shows "validated (populateTemporalMetricDefaults mm)"
proof -
  have "set temporalMetrics \<subseteq> set allKnownMetrics"
    by (auto simp: allKnownMetrics_def)
  moreover have "''X'' \<in> set (legalValues m)" if "m \<in> set temporalMetrics" for m
    using that by (auto simp: temporalMetrics_def legalValues_simps)
  ultimately show ?thesis
    using assms
    by (auto simp: validated_def populateTemporalMetricDefaults_get
        populateTemporalMetricDefaults_keys split: if_splits)
qed

lemma temporal_weight:
  assumes "validated mm" "m \<in> {''E'', ''RL'', ''RC''}"
  shows "returns (getMetricNumericValue m (populateTemporalMetricDefaults mm))
           (\<lambda>w. 0 < w \<and> w \<le> 1)"
proof -
  let ?mm = "populateTemporalMetricDefaults mm"
  have m: "m \<in> set temporalMetrics" "m \<in> set allKnownMetrics"
    using assms(2) by (auto simp: temporalMetrics_def allKnownMetrics_def)
  then obtain v where v: "map_get ?mm m = Some v"
    by (cases "map_get mm m") (auto simp: populateTemporalMetricDefaults_get)
  then have "v \<in> set (legalValues m)"
    using validated_value [OF validated_populateTemporalMetricDefaults [OF assms(1)] m(2)]
    by blast
  then show ?thesis
    using weight_temporal_metric [OF assms(2) v] by blast
qed

lemma calculateTemporalScore_eq:
  assumes "validate s = Inr r"
    and "calculateBaseScore s = Inr b"
    and "getMetricNumericValue ''RC'' (populateTemporalMetricDefaults (metricsMap r)) = Inr rc"
    and "getMetricNumericValue ''E'' (populateTemporalMetricDefaults (metricsMap r)) = Inr e"
    and "getMetricNumericValue ''RL'' (populateTemporalMetricDefaults (metricsMap r)) = Inr rl"
  shows "calculateTemporalScore s = Inr (roundUp (b * rc * e * rl))"
proof -
  from assms(2) obtain br where "calculateBaseResult s = Inr br" "score br = b"
    by (auto simp: calculateBaseScore_def ebind_eq_Inr_iff)
  then show ?thesis
    using assms(1,3-5)
    by (simp add: calculateTemporalScore_def calculateTemporalResult_def Let_def)
qed

lemma temporal_product_le:
  fixes b :: real
  assumes "0 \<le> b" "0 < rc" "rc \<le> 1" "0 < e" "e \<le> 1" "0 < rl" "rl \<le> 1"
  shows "0 \<le> b * rc * e * rl" "b * rc * e * rl \<le> b"
proof -
  have 1: "0 \<le> b * rc" "b * rc \<le> b"
    using assms(1-3) by (simp_all add: mult_left_le)
  have 2: "0 \<le> b * rc * e" "b * rc * e \<le> b * rc"
    using 1(1) assms(4,5) by (simp_all add: mult_left_le)
  have 3: "0 \<le> b * rc * e * rl" "b * rc * e * rl \<le> b * rc * e"
    using 2(1) assms(6,7) by (simp_all add: mult_left_le)
  show "0 \<le> b * rc * e * rl"
    by (rule 3(1))
  show "b * rc * e * rl \<le> b"
    using 1(2) 2(2) 3(2) by linarith
qed

lemma temporal_and_base:
  assumes "validate s = Inr r"
  shows "\<exists>b t. calculateBaseScore s = Inr b \<and> calculateTemporalScore s = Inr t
           \<and> 0 \<le> t \<and> t \<le> b \<and> b \<le> 10 \<and> (\<exists>k. t = real_of_int k / 10)"
proof -
  have valid: "validated (metricsMap r)"
    by (rule validate_Inr_validated [OF assms])
  let ?mm = "populateTemporalMetricDefaults (metricsMap r)"
  obtain b k where b: "calculateBaseScore s = Inr b" "0 \<le> b" "b \<le> 10" "b = real_of_int k / 10"
    using calculateBaseScore_range [OF assms] by (auto simp: returns_iff)
  obtain rc where rc: "getMetricNumericValue ''RC'' ?mm = Inr rc" "0 < rc" "rc \<le> 1"
    using temporal_weight [OF valid, of "''RC''"] by (auto simp: returns_iff)
  obtain e where e: "getMetricNumericValue ''E'' ?mm = Inr e" "0 < e" "e \<le> 1"
    using temporal_weight [OF valid, of "''E''"] by (auto simp: returns_iff)
  obtain rl where rl: "getMetricNumericValue ''RL'' ?mm = Inr rl" "0 < rl" "rl \<le> 1"
    using temporal_weight [OF valid, of "''RL''"] by (auto simp: returns_iff)
  let ?x = "b * rc * e * rl"
  have t: "calculateTemporalScore s = Inr (roundUp ?x)"
    by (rule calculateTemporalScore_eq [OF assms b(1) rc(1) e(1) rl(1)])
  have x: "0 \<le> ?x" "?x \<le> b"
    using temporal_product_le [OF b(2) rc(2,3) e(2,3) rl(2,3)] by simp_all
  have "roundUp ?x \<le> roundUp b"
    by (rule roundUp_mono [OF x(2)])
  also have "roundUp b = b"
    unfolding b(4) by (rule roundUp_of_tenth)
  finally have le: "roundUp ?x \<le> b" .
  have "0 \<le> roundUp ?x"
    using roundUp_mono [OF x(1)] by (simp add: roundUp_0)
  moreover have "\<exists>k. roundUp ?x = real_of_int k / 10"
    using roundUp_tenths by blast
  ultimately show ?thesis
    using b(1,3) t le by blast
qed

text \<open>
  Claim C6. On every string that \<open>validate\<close> accepts, \<open>calculateBaseScore\<close> and
  \<open>calculateTemporalScore\<close> both return, and the Temporal score is at most the Base
  score.
\<close>

theorem temporal_score_le_base_score:
  assumes "validate s = Inr r"
  shows "\<exists>b t. calculateBaseScore s = Inr b \<and> calculateTemporalScore s = Inr t \<and> t \<le> b"
  using temporal_and_base [OF assms] by blast

theorem temporal_score_le_base_score_witness:
  "\<not> isl (validate ''CVSS:3.1/AV:N/AC:L/PR:N/UI:N/S:U/C:H/I:H/A:H/E:U/RL:O/RC:C'')
   \<and> calculateBaseScore ''CVSS:3.1/AV:N/AC:L/PR:N/UI:N/S:U/C:H/I:H/A:H/E:U/RL:O/RC:C'' = Inr 9.8
   \<and> calculateTemporalScore ''CVSS:3.1/AV:N/AC:L/PR:N/UI:N/S:U/C:H/I:H/A:H/E:U/RL:O/RC:C''
       = Inr 8.5
   \<and> (8.5 :: real) \<le> 9.8"
proof -
  let ?s = "''CVSS:3.1/AV:N/AC:L/PR:N/UI:N/S:U/C:H/I:H/A:H/E:U/RL:O/RC:C''"
  have ok: "\<not> isl (validate ?s)"
    by code_simp
  then obtain r where r: "validate ?s = Inr r"
    by (cases "validate ?s") auto
  have b: "calculateBaseScore ?s = Inr 9.8"
    by code_simp
  have t: "calculateTemporalScore ?s = Inr 8.5"
    by code_simp
  show ?thesis
    using ok b t temporal_score_le_base_score [OF r] by simp
qed

section \<open>Environmental defaults\<close>

lemma populateEnvironmentalStep_keep:
  assumes "map_get mm m = Some v" "v \<noteq> ''X''"
  shows "populateEnvironmentalStep mm m = Inr mm"
  using assms by (simp add: populateEnvironmentalStep_def map_has_iff_get)

lemma populateEnvironmentalStep_resolve:
  assumes "map_get mm m = None \<or> map_get mm m = Some ''X''"
    and "map_of modifiedMetricsMap m = Some b" and "b \<noteq> m" and "map_get mm b = Some vb"
  shows "\<exists>mm'. populateEnvironmentalStep mm m = Inr mm'
           \<and> (\<forall>k. map_get mm' k = (if k = m then Some vb else map_get mm k))"
  using assms
  by (auto simp: populateEnvironmentalStep_def Let_def map_has_iff_get map_get_map_set)

lemma populateEnvironmentalLoop_resolves:
  assumes "distinct ms"
    and "\<forall>m \<in> set ms. (\<exists>v. map_get mm m = Some v \<and> v \<noteq> ''X'')
           \<or> (\<exists>b. map_of modifiedMetricsMap m = Some b \<and> b \<notin> set ms \<and> map_get mm b \<noteq> None)"
  shows "\<exists>mm'. populateEnvironmentalLoop mm ms = Inr mm'
           \<and> (\<forall>k. map_get mm' k =
                 (if k \<in> set ms \<and> (map_get mm k = None \<or> map_get mm k = Some ''X'')
                  then map_get mm (the (map_of modifiedMetricsMap k)) else map_get mm k))"
  using assms
proof (induction ms arbitrary: mm)
  case Nil
  then show ?case by simp
next
  case (Cons m ms)
  have rest: "\<forall>m' \<in> set ms. (\<exists>v. map_get mm m' = Some v \<and> v \<noteq> ''X'')
      \<or> (\<exists>b. map_of modifiedMetricsMap m' = Some b \<and> b \<notin> set ms \<and> b \<noteq> m
            \<and> map_get mm b \<noteq> None)"
    using Cons.prems(2) by auto
  have dist: "distinct ms" "m \<notin> set ms"
    using Cons.prems(1) by simp_all
  consider (keep) v where "map_get mm m = Some v" "v \<noteq> ''X''"
    | (resolve) b vb where "map_get mm m = None \<or> map_get mm m = Some ''X''"
        "map_of modifiedMetricsMap m = Some b" "b \<noteq> m" "b \<notin> set ms" "map_get mm b = Some vb"
    using Cons.prems(2) by (cases "map_get mm m") auto
  then show ?case
  proof cases
    case keep
    have step: "populateEnvironmentalStep mm m = Inr mm"
      by (rule populateEnvironmentalStep_keep [OF keep])
    have "\<forall>m' \<in> set ms. (\<exists>v. map_get mm m' = Some v \<and> v \<noteq> ''X'')
        \<or> (\<exists>b. map_of modifiedMetricsMap m' = Some b \<and> b \<notin> set ms \<and> map_get mm b \<noteq> None)"
      using rest by blast
    from Cons.IH [OF dist(1) this] obtain mm' where mm':
      "populateEnvironmentalLoop mm ms = Inr mm'"
      "\<And>k. map_get mm' k =
             (if k \<in> set ms \<and> (map_get mm k = None \<or> map_get mm k = Some ''X'')
              then map_get mm (the (map_of modifiedMetricsMap k)) else map_get mm k)"
      by blast
    show ?thesis
      using keep step mm' by auto
  next
    case resolve
    obtain m1 where m1: "populateEnvironmentalStep mm m = Inr m1"
      "\<And>k. map_get m1 k = (if k = m then Some vb else map_get mm k)"
      using populateEnvironmentalStep_resolve [OF resolve(1,2,3,5)] by blast
    have "\<forall>m' \<in> set ms. (\<exists>v. map_get m1 m' = Some v \<and> v \<noteq> ''X'')
        \<or> (\<exists>b. map_of modifiedMetricsMap m' = Some b \<and> b \<notin> set ms \<and> map_get m1 b \<noteq> None)"
      using rest dist(2) by (auto simp: m1(2))
    from Cons.IH [OF dist(1) this] obtain mm' where mm':
      "populateEnvironmentalLoop m1 ms = Inr mm'"
      "\<And>k. map_get mm' k =
             (if k \<in> set ms \<and> (map_get m1 k = None \<or> map_get m1 k = Some ''X'')
              then map_get m1 (the (map_of modifiedMetricsMap k)) else map_get m1 k)"
      by blast
    show ?thesis
    proof (intro exI conjI allI)
      show "populateEnvironmentalLoop mm (m # ms) = Inr mm'"
        using m1(1) mm'(1) by simp
    next
      fix k
      show "map_get mm' k =
          (if k \<in> set (m # ms) \<and> (map_get mm k = None \<or> map_get mm k = Some ''X'')
           then map_get mm (the (map_of modifiedMetricsMap k)) else map_get mm k)"
      proof (cases "k = m")
        case True
        then show ?thesis
          using mm'(2) [of k] dist(2) m1(2) [of k] resolve by auto
      next
        case neq: False
        show ?thesis
        proof (cases "k \<in> set ms \<and> (map_get mm k = None \<or> map_get mm k = Some ''X'')")
          case True
          then obtain b' where "map_of modifiedMetricsMap k = Some b'" "b' \<noteq> m"
            using rest by force
          then show ?thesis
            using True neq mm'(2) [of k] m1(2) [of k] m1(2) [of b'] by simp
        next
          case False
          then show ?thesis
            using neq mm'(2) [of k] m1(2) [of k] by auto
        qed
      qed
    qed
  qed
qed

lemma modified_metric_facts:
  assumes "(m, b) \<in> set modifiedMetricsMap"
  shows "map_of modifiedMetricsMap m = Some b" "b \<in> set baseMetrics"
    "b \<notin> set environmentalMetrics" "m \<in> set environmentalMetrics"
    "m \<in> set allKnownMetrics" "legalValues m = ''X'' # legalValues b"
  using assms
  by (auto simp: modifiedMetricsMap_def baseMetrics_def environmentalMetrics_def
      allKnownMetrics_def legalValues_simps)

lemma populateEnvironmentalMetricDefaults_get:
  assumes "validated mm" "requirementsDefined mm"
  shows "\<exists>mm'. populateEnvironmentalMetricDefaults mm = Inr mm'
           \<and> (\<forall>k. map_get mm' k =
                 (case map_of modifiedMetricsMap k of
                    None \<Rightarrow> map_get mm k
                  | Some b \<Rightarrow> resolvedValue mm k b))"
proof -
  have dist: "distinct environmentalMetrics"
    by (simp add: environmentalMetrics_def)
  have base: "map_get mm b \<noteq> None" if "b \<in> set baseMetrics" for b
    using assms(1) that by (simp add: validated_def)
  have pre: "(\<exists>v. map_get mm m = Some v \<and> v \<noteq> ''X'')
      \<or> (\<exists>b. map_of modifiedMetricsMap m = Some b \<and> b \<notin> set environmentalMetrics
            \<and> map_get mm b \<noteq> None)"
    if m: "m \<in> set environmentalMetrics" for m
  proof (cases "m \<in> {''CR'', ''IR'', ''AR''}")
    case True
    then show ?thesis
      using assms(2) by (auto simp: requirementsDefined_def)
  next
    case False
    then have "m \<in> fst ` set modifiedMetricsMap"
      using m by (auto simp: environmentalMetrics_def modifiedMetricsMap_def)
    then obtain b where "(m, b) \<in> set modifiedMetricsMap"
      by auto
    then show ?thesis
      using modified_metric_facts(1-3) [of m b] base by blast
  qed
  obtain mm' where mm': "populateEnvironmentalLoop mm environmentalMetrics = Inr mm'"
    "\<And>k. map_get mm' k =
       (if k \<in> set environmentalMetrics \<and> (map_get mm k = None \<or> map_get mm k = Some ''X'')
        then map_get mm (the (map_of modifiedMetricsMap k)) else map_get mm k)"
    using populateEnvironmentalLoop_resolves [OF dist, of mm] pre by blast
  have "map_get mm' k =
      (case map_of modifiedMetricsMap k of
         None \<Rightarrow> map_get mm k
       | Some b \<Rightarrow> resolvedValue mm k b)" for k
  proof (cases "map_of modifiedMetricsMap k")
    case None
    then have "k \<in> set environmentalMetrics \<Longrightarrow> k \<in> {''CR'', ''IR'', ''AR''}"
      by (auto simp: environmentalMetrics_def modifiedMetricsMap_def split: if_splits)
    then have "\<not> (k \<in> set environmentalMetrics
        \<and> (map_get mm k = None \<or> map_get mm k = Some ''X''))"
      using assms(2) by (auto simp: requirementsDefined_def)
    then have "map_get mm' k = map_get mm k"
      using mm'(2) [of k] by (simp only: if_False)
    then show ?thesis
      using None by simp
  next
    case (Some b)
    then have "(k, b) \<in> set modifiedMetricsMap"
      by (rule map_of_SomeD)
    then have "k \<in> set environmentalMetrics"
      by (rule modified_metric_facts(4))
    then show ?thesis
      using Some mm'(2) [of k] by (auto simp: resolvedValue_def split: option.splits)
  qed
  then show ?thesis
    using mm'(1) by (simp add: populateEnvironmentalMetricDefaults_def)
qed

lemma resolvedValue_legal:
  assumes "validated mm" "(m, b) \<in> set modifiedMetricsMap"
  obtains v where "resolvedValue mm m b = Some v" "v \<noteq> ''X''" "v \<in> set (legalValues b)"
    "v \<in> set (legalValues m)"
proof -
  note facts = modified_metric_facts [OF assms(2)]
  obtain vb where vb: "map_get mm b = Some vb" "vb \<in> set (legalValues b)" "vb \<noteq> ''X''"
    using validated_base_value [OF assms(1) facts(2)] by blast
  show thesis
  proof (cases "map_get mm m")
    case None
    then have "resolvedValue mm m b = Some vb"
      by (simp add: resolvedValue_def vb(1))
    then show ?thesis
      using that vb facts(6) by simp
  next
    case (Some own)
    show ?thesis
    proof (cases "own = ''X''")
      case True
      then have "resolvedValue mm m b = Some vb"
        using Some by (simp add: resolvedValue_def vb(1))
      then show ?thesis
        using that vb facts(6) by simp
    next
      case False
      have "own \<in> set (legalValues m)"
        by (rule validated_value [OF assms(1) facts(5) Some])
      then have "own \<in> set (legalValues b)"
        using False facts(6) by simp
      moreover have "resolvedValue mm m b = Some own"
        using Some False by (simp add: resolvedValue_def)
      ultimately show ?thesis
        using that False facts(6) by simp
    qed
  qed
qed

lemma modified_weight:
  assumes "validated mm" "requirementsDefined mm"
    and "populateEnvironmentalMetricDefaults mm = Inr mm'"
    and "(m, b) \<in> set modifiedMetricsMap"
  shows "map_get mm' m = resolvedValue mm m b"
    and "returns (getMetricNumericValue m mm') (\<lambda>w. 0 \<le> w \<and> w \<le> 1)"
    and "m \<in> {''MAV'', ''MAC'', ''MPR'', ''MUI''} \<Longrightarrow>
           returns (getMetricNumericValue m mm') (\<lambda>w. 0 < w \<and> w \<le> 1)"
proof -
  have get: "map_get mm' k =
      (case map_of modifiedMetricsMap k of None \<Rightarrow> map_get mm k | Some b \<Rightarrow> resolvedValue mm k b)"
    for k
    using populateEnvironmentalMetricDefaults_get [OF assms(1,2)] assms(3) by auto
  have resolved: "map_get mm' m' = resolvedValue mm m' b'"
    if "(m', b') \<in> set modifiedMetricsMap" for m' b'
    using get [of m'] modified_metric_facts(1) [OF that] by simp
  show "map_get mm' m = resolvedValue mm m b"
    by (rule resolved [OF assms(4)])
  obtain v where v: "map_get mm' m = Some v" "v \<noteq> ''X''" "v \<in> set (legalValues m)"
    using resolvedValue_legal [OF assms(1,4)] resolved [OF assms(4)] by metis
  have ms: "(''MS'', ''S'') \<in> set modifiedMetricsMap"
    by (simp add: modifiedMetricsMap_def)
  obtain sc where sc: "map_get mm' ''MS'' = Some sc" "sc \<noteq> ''X''" "sc \<in> set (legalValues ''MS'')"
    using resolvedValue_legal [OF assms(1) ms] resolved [OF ms] by metis
  consider (impact) "m \<in> {''MC'', ''MI'', ''MA''}" | (expl) "m \<in> {''MAV'', ''MAC'', ''MUI''}"
    | (scope) "m = ''MS''" | (priv) "m = ''MPR''"
    using assms(4) by (auto simp: modifiedMetricsMap_def)
  then have "returns (getMetricNumericValue m mm') (\<lambda>w. 0 \<le> w \<and> w \<le> 1)
      \<and> (m \<in> {''MAV'', ''MAC'', ''MPR'', ''MUI''} \<longrightarrow>
            returns (getMetricNumericValue m mm') (\<lambda>w. 0 < w \<and> w \<le> 1))"
  proof cases
    case impact
    then have "returns (getMetricNumericValue m mm') (\<lambda>w. 0 \<le> w \<and> w \<le> 0.56)"
      using v by (intro weight_impact_metric) auto
    then have "returns (getMetricNumericValue m mm') (\<lambda>w. 0 \<le> w \<and> w \<le> 1)"
      by (rule returns_mono) simp
    then show ?thesis
      using impact by auto
  next
    case expl
    then have "returns (getMetricNumericValue m mm') (\<lambda>w. 0 < w \<and> w \<le> 1)"
      using v by (intro weight_exploitability_metric) auto
    moreover from this have "returns (getMetricNumericValue m mm') (\<lambda>w. 0 \<le> w \<and> w \<le> 1)"
      by (rule returns_mono) simp
    ultimately show ?thesis
      by simp
  next
    case scope
    then have "returns (getMetricNumericValue m mm') (\<lambda>w. w = 0)"
      using v by (intro weight_scope_metric) auto
    then have "returns (getMetricNumericValue m mm') (\<lambda>w. 0 \<le> w \<and> w \<le> 1)"
      by (rule returns_mono) simp
    then show ?thesis
      using scope by simp
  next
    case priv
    then have "returns (getMetricNumericValue m mm') (\<lambda>w. 0 < w \<and> w \<le> 1)"
      using v sc weight_modified_privileges_required [of mm' v sc] by simp
    moreover from this have "returns (getMetricNumericValue m mm') (\<lambda>w. 0 \<le> w \<and> w \<le> 1)"
      by (rule returns_mono) simp
    ultimately show ?thesis
      by simp
  qed
  then show "returns (getMetricNumericValue m mm') (\<lambda>w. 0 \<le> w \<and> w \<le> 1)"
    and "m \<in> {''MAV'', ''MAC'', ''MPR'', ''MUI''} \<Longrightarrow>
           returns (getMetricNumericValue m mm') (\<lambda>w. 0 < w \<and> w \<le> 1)"
    by blast+
qed

lemma requirementsDefined_populateTemporal:
  "requirementsDefined (populateTemporalMetricDefaults mm) = requirementsDefined mm"
  by (simp add: requirementsDefined_def populateTemporalMetricDefaults_get temporalMetrics_def)

text \<open>
  Claim C10. Take the metrics map of a validated vector (as \<open>validate\<close> returns it, or
  after the Temporal defaults, as \<open>calculateEnvironmentalResult\<close> passes it on) in which
  CR, IR and AR are present with values other than \<^verbatim>\<open>X\<close>. Then
  \<open>populateEnvironmentalMetricDefaults\<close> returns without error, and afterwards each
  Modified metric holds its own validated value if that is not \<^verbatim>\<open>X\<close>, and the value of
  its Base metric otherwise; this value is a legal value of the Base metric, hence not
  \<^verbatim>\<open>X\<close>, and the weight lookup for the Modified metric returns a weight.
\<close>

theorem modified_metrics_resolved:
  assumes "validate s = Inr r"
    and "mm = metricsMap r \<or> mm = populateTemporalMetricDefaults (metricsMap r)"
    and "requirementsDefined mm"
  shows "\<exists>mm'. populateEnvironmentalMetricDefaults mm = Inr mm'
          \<and> (\<forall>p \<in> set modifiedMetricsMap.
                map_get mm' (fst p) = resolvedValue mm (fst p) (snd p)
                \<and> (\<exists>v. map_get mm' (fst p) = Some v \<and> v \<noteq> ''X''
                       \<and> v \<in> set (legalValues (snd p)))
                \<and> returns (getMetricNumericValue (fst p) mm') (\<lambda>w. 0 \<le> w \<and> w \<le> 1))"
proof -
  have valid: "validated mm"
    using assms(2) validate_Inr_validated [OF assms(1)]
      validated_populateTemporalMetricDefaults by blast
  obtain mm' where mm': "populateEnvironmentalMetricDefaults mm = Inr mm'"
    using populateEnvironmentalMetricDefaults_get [OF valid assms(3)] by blast
  have "map_get mm' m = resolvedValue mm m b
      \<and> (\<exists>v. map_get mm' m = Some v \<and> v \<noteq> ''X'' \<and> v \<in> set (legalValues b))
      \<and> returns (getMetricNumericValue m mm') (\<lambda>w. 0 \<le> w \<and> w \<le> 1)"
    if mb: "(m, b) \<in> set modifiedMetricsMap" for m b
    using modified_weight(1,2) [OF valid assms(3) mm' mb] resolvedValue_legal [OF valid mb]
    by metis
  then show ?thesis
    using mm' by auto
qed

theorem modified_metrics_resolved_witness:
  "validate ''CVSS:3.1/AV:N/AC:L/PR:N/UI:N/S:U/C:H/I:H/A:H/CR:H/IR:M/AR:L/MS:C/MAV:X'' =
     Inr \<lparr>isTemporal = False, isEnvironmental = True,
          metricsMap = [(''AV'', ''N''), (''AC'', ''L''), (''PR'', ''N''), (''UI'', ''N''),
            (''S'', ''U''), (''C'', ''H''), (''I'', ''H''), (''A'', ''H''), (''CR'', ''H''),
            (''IR'', ''M''), (''AR'', ''L''), (''MS'', ''C''), (''MAV'', ''X'')],
          versionStr = Some ''3.1''\<rparr>
   \<and> requirementsDefined [(''AV'', ''N''), (''AC'', ''L''), (''PR'', ''N''), (''UI'', ''N''),
            (''S'', ''U''), (''C'', ''H''), (''I'', ''H''), (''A'', ''H''), (''CR'', ''H''),
            (''IR'', ''M''), (''AR'', ''L''), (''MS'', ''C''), (''MAV'', ''X'')]
   \<and> returns (populateEnvironmentalMetricDefaults
          [(''AV'', ''N''), (''AC'', ''L''), (''PR'', ''N''), (''UI'', ''N''),
            (''S'', ''U''), (''C'', ''H''), (''I'', ''H''), (''A'', ''H''), (''CR'', ''H''),
            (''IR'', ''M''), (''AR'', ''L''), (''MS'', ''C''), (''MAV'', ''X'')])
        (\<lambda>mm'. map_get mm' ''MAV'' = Some ''N'' \<and> map_get mm' ''MS'' = Some ''C''
               \<and> map_get mm' ''MC'' = Some ''H'')"
proof -
  define mm where "mm = [(''AV'', ''N''), (''AC'', ''L''), (''PR'', ''N''), (''UI'', ''N''),
            (''S'', ''U''), (''C'', ''H''), (''I'', ''H''), (''A'', ''H''), (''CR'', ''H''),
            (''IR'', ''M''), (''AR'', ''L''), (''MS'', ''C''), (''MAV'', ''X'')]"
  have v: "validate ''CVSS:3.1/AV:N/AC:L/PR:N/UI:N/S:U/C:H/I:H/A:H/CR:H/IR:M/AR:L/MS:C/MAV:X'' =
     Inr \<lparr>isTemporal = False, isEnvironmental = True, metricsMap = mm,
          versionStr = Some ''3.1''\<rparr>"
    unfolding mm_def by code_simp
  have req: "requirementsDefined mm"
    unfolding mm_def by code_simp
  have res: "resolvedValue mm ''MAV'' ''AV'' = Some ''N''"
    "resolvedValue mm ''MS'' ''S'' = Some ''C''" "resolvedValue mm ''MC'' ''C'' = Some ''H''"
    unfolding mm_def by code_simp+
  have mem: "(''MAV'', ''AV'') \<in> set modifiedMetricsMap" "(''MS'', ''S'') \<in> set modifiedMetricsMap"
    "(''MC'', ''C'') \<in> set modifiedMetricsMap"
    by (simp_all add: modifiedMetricsMap_def)
  obtain mm' where mm': "populateEnvironmentalMetricDefaults mm = Inr mm'"
    "\<forall>p \<in> set modifiedMetricsMap.
        map_get mm' (fst p) = resolvedValue mm (fst p) (snd p)
        \<and> (\<exists>v. map_get mm' (fst p) = Some v \<and> v \<noteq> ''X'' \<and> v \<in> set (legalValues (snd p)))
        \<and> returns (getMetricNumericValue (fst p) mm') (\<lambda>w. 0 \<le> w \<and> w \<le> 1)"
    using modified_metrics_resolved [OF v _ req] by auto
  have "map_get mm' ''MAV'' = Some ''N''" "map_get mm' ''MS'' = Some ''C''"
    "map_get mm' ''MC'' = Some ''H''"
    using mm'(2) [rule_format, OF mem(1)] mm'(2) [rule_format, OF mem(2)]
      mm'(2) [rule_format, OF mem(3)] res by simp_all
  then show ?thesis
    using v req mm'(1) unfolding mm_def [symmetric] by simp
qed

section \<open>Environmental defaults without defined requirement metrics\<close>

text \<open>
  The loop of \<open>populateEnvironmentalMetricDefaults\<close> visits AR, CR and IR first. None
  of them is a key of \<open>modifiedMetricsMap\<close>, so a requirement metric that is absent or
  \<^verbatim>\<open>X\<close> ends the loop with the throw.
\<close>

lemma populateEnvironmentalStep_requirement:
  assumes "metric \<in> {''AR'', ''CR'', ''IR''}"
    and "map_get mm metric = None \<or> map_get mm metric = Some ''X''"
  shows "populateEnvironmentalStep mm metric = Inl (MissingModifiedMetric metric)"
proof -
  have none: "map_of modifiedMetricsMap metric = None"
    using assms(1) by (auto simp: modifiedMetricsMap_def)
  show ?thesis
    using assms(2) none
    by (auto simp: populateEnvironmentalStep_def Let_def map_has_iff_get map_get_map_set)
qed

text \<open>
  In general: on a validated vector whose requirement metrics are not all defined,
  \<open>calculateEnvironmentalScore\<close> raises \<open>MissingModifiedMetric\<close>, for the first of AR,
  CR, IR that is absent or \<^verbatim>\<open>X\<close>.
\<close>

lemma populateEnvironmentalMetricDefaults_raises:
  assumes "\<not> requirementsDefined mm"
  shows "\<exists>q \<in> {''AR'', ''CR'', ''IR''}.
           populateEnvironmentalMetricDefaults mm = Inl (MissingModifiedMetric q)"
proof -
  have step: "populateEnvironmentalStep mm q =
      (if map_get mm q = None \<or> map_get mm q = Some ''X''
       then Inl (MissingModifiedMetric q) else Inr mm)"
    if "q \<in> {''AR'', ''CR'', ''IR''}" for q
  proof (cases "map_get mm q = None \<or> map_get mm q = Some ''X''")
    case True
    then show ?thesis
      using populateEnvironmentalStep_requirement [OF that] by simp
  next
    case False
    then obtain v where "map_get mm q = Some v" "v \<noteq> ''X''"
      by auto
    then show ?thesis
      using False populateEnvironmentalStep_keep by simp
  qed
  have "(map_get mm ''AR'' = None \<or> map_get mm ''AR'' = Some ''X'')
      \<or> (map_get mm ''CR'' = None \<or> map_get mm ''CR'' = Some ''X'')
      \<or> (map_get mm ''IR'' = None \<or> map_get mm ''IR'' = Some ''X'')"
    using assms by (auto simp: requirementsDefined_def)
  then show ?thesis
    using step [of "''AR''"] step [of "''CR''"] step [of "''IR''"]
    by (auto simp: populateEnvironmentalMetricDefaults_def environmentalMetrics_def)
qed

lemma calculateEnvironmentalScore_raises:
  assumes "validate s = Inr r" and "\<not> requirementsDefined (metricsMap r)"
  shows "\<exists>q \<in> {''AR'', ''CR'', ''IR''}.
           calculateEnvironmentalScore s = Inl (MissingModifiedMetric q)"
proof -
  have "\<not> requirementsDefined (populateTemporalMetricDefaults (metricsMap r))"
    using assms(2) by (simp add: requirementsDefined_populateTemporal)
  then obtain q where q: "q \<in> {''AR'', ''CR'', ''IR''}"
    "populateEnvironmentalMetricDefaults (populateTemporalMetricDefaults (metricsMap r)) =
       Inl (MissingModifiedMetric q)"
    using populateEnvironmentalMetricDefaults_raises by blast
  have "calculateEnvironmentalScore s = Inl (MissingModifiedMetric q)"
    unfolding calculateEnvironmentalScore_def calculateEnvironmentalResult_def
    by (simp only: assms(1) q(2) ebind_Inr ebind_Inl)
  then show ?thesis
    using q(1) by blast
qed

text \<open>
  Claim C1 says that default population never raises \<open>MissingModifiedMetric\<close>. On the
  Base vector \<^verbatim>\<open>CVSS:3.1/AV:N/AC:L/PR:N/UI:N/S:U/C:H/I:H/A:H\<close>, which \<open>validate\<close> accepts,
  default population raises it for AR, and so does \<open>calculateEnvironmentalScore\<close>.
\<close>

theorem environmental_score_raises_without_requirements:
  "\<not> isl (validate ''CVSS:3.1/AV:N/AC:L/PR:N/UI:N/S:U/C:H/I:H/A:H'')
   \<and> populateEnvironmentalMetricDefaults
        (populateTemporalMetricDefaults
          [(''AV'', ''N''), (''AC'', ''L''), (''PR'', ''N''), (''UI'', ''N''),
           (''S'', ''U''), (''C'', ''H''), (''I'', ''H''), (''A'', ''H'')])
       = Inl (MissingModifiedMetric ''AR'')
   \<and> calculateEnvironmentalScore ''CVSS:3.1/AV:N/AC:L/PR:N/UI:N/S:U/C:H/I:H/A:H''
       = Inl (MissingModifiedMetric ''AR'')"
  by code_simp

text \<open>
  Claim C2 says that the three score functions return a multiple of 0.1 between 0 and
  10 on every vector that \<open>validate\<close> accepts. On
  \<^verbatim>\<open>CVSS:3.0/AV:A/AC:H/PR:H/UI:R/S:U/C:N/I:N/A:L/CR:X/IR:H/AR:M\<close> the Base and the
  Temporal score are 1.8, and \<open>calculateEnvironmentalScore\<close> raises
  \<open>MissingModifiedMetric\<close> for CR.
\<close>

theorem environmental_score_raises_on_not_defined_requirement:
  "\<not> isl (validate ''CVSS:3.0/AV:A/AC:H/PR:H/UI:R/S:U/C:N/I:N/A:L/CR:X/IR:H/AR:M'')
   \<and> calculateBaseScore ''CVSS:3.0/AV:A/AC:H/PR:H/UI:R/S:U/C:N/I:N/A:L/CR:X/IR:H/AR:M''
       = Inr 1.8
   \<and> calculateTemporalScore ''CVSS:3.0/AV:A/AC:H/PR:H/UI:R/S:U/C:N/I:N/A:L/CR:X/IR:H/AR:M''
       = Inr 1.8
   \<and> calculateEnvironmentalScore ''CVSS:3.0/AV:A/AC:H/PR:H/UI:R/S:U/C:N/I:N/A:L/CR:X/IR:H/AR:M''
       = Inl (MissingModifiedMetric ''CR'')"
  by code_simp

section \<open>The Environmental score when the requirement metrics are defined\<close>

lemma calculateEnvironmentalScore_eq:
  assumes "validate s = Inr r"
    and "populateEnvironmentalMetricDefaults (populateTemporalMetricDefaults (metricsMap r))
           = Inr mm"
    and "calculateMiss mm = Inr miss"
    and "calculateModifiedExploitability mm = Inr expl"
  shows "calculateEnvironmentalScore s =
           environmentalScoreOf mm (map_get mm ''MS'' = Some ''U'')
             (calculateModifiedImpact mm miss (versionStr r)) expl"
proof -
  obtain ver where ver: "versionStr r = Some ver" "ver \<noteq> []"
    using validate_Inr_version [OF assms(1)] by auto
  let ?sc = "environmentalScoreOf mm (map_get mm ''MS'' = Some ''U'')
      (calculateModifiedImpact mm miss (versionStr r)) expl"
  have "calculateEnvironmentalResult s =
      ebind ?sc (\<lambda>sc. Inr \<lparr> score = sc,
        impact = (if calculateModifiedImpact mm miss (versionStr r) \<le> 0 then 0
                  else roundUp (calculateModifiedImpact mm miss (versionStr r))),
        exploitability = (if calculateModifiedImpact mm miss (versionStr r) \<le> 0 then 0
                          else roundUp expl),
        scoreMetricsMap = mm \<rparr>)"
    unfolding calculateEnvironmentalResult_def
    by (simp only: assms ebind_Inr Let_def ver option.simps if_False simp_thms)
  then show ?thesis
    by (cases ?sc) (simp_all add: calculateEnvironmentalScore_def)
qed

lemma environmentalScoreOf_range:
  assumes "0 < expl"
    and "getMetricNumericValue ''E'' mm = Inr e" "0 < e" "e \<le> 1"
    and "getMetricNumericValue ''RL'' mm = Inr rl" "0 < rl" "rl \<le> 1"
    and "getMetricNumericValue ''RC'' mm = Inr rc" "0 < rc" "rc \<le> 1"
  shows "returns (environmentalScoreOf mm u imp expl)
           (\<lambda>x. 0 \<le> x \<and> x \<le> 10 \<and> (\<exists>k. x = real_of_int k / 10))"
proof (cases "imp \<le> 0")
  case True
  then show ?thesis
    by (simp add: environmentalScoreOf_def)
next
  case False
  define y where "y = (if u then roundUp (min (imp + expl) 10)
    else roundUp (min (1.08 * (imp + expl)) 10))"
  have "0 \<le> imp + expl" "0 \<le> 1.08 * (imp + expl)"
    using False assms(1) by simp_all
  then have y: "0 \<le> y" "y \<le> 10"
    using roundUp_range [of "imp + expl"] roundUp_range [of "1.08 * (imp + expl)"]
    by (simp_all add: y_def)
  have prod: "0 \<le> y * e * rl * rc" "y * e * rl * rc \<le> y"
    using temporal_product_le [OF y(1) assms(3,4,6,7,9,10)] by simp_all
  then have "y * e * rl * rc \<le> 10"
    using y(2) by linarith
  then have "0 \<le> roundUp (y * e * rl * rc) \<and> roundUp (y * e * rl * rc) \<le> 10"
    using roundUp_bounds [OF prod(1)] by simp
  moreover have "\<exists>k. roundUp (y * e * rl * rc) = real_of_int k / 10"
    using roundUp_tenths by blast
  moreover have "environmentalScoreOf mm u imp expl = Inr (roundUp (y * e * rl * rc))"
    using False assms(2,5,8) by (simp add: environmentalScoreOf_def y_def)
  ultimately show ?thesis
    by simp
qed

lemma calculateEnvironmentalScore_range:
  assumes "validate s = Inr r" and "requirementsDefined (metricsMap r)"
  shows "returns (calculateEnvironmentalScore s)
           (\<lambda>x. 0 \<le> x \<and> x \<le> 10 \<and> (\<exists>k. x = real_of_int k / 10))"
proof -
  let ?mt = "populateTemporalMetricDefaults (metricsMap r)"
  have valid0: "validated (metricsMap r)"
    by (rule validate_Inr_validated [OF assms(1)])
  have valid: "validated ?mt"
    by (rule validated_populateTemporalMetricDefaults [OF valid0])
  have req: "requirementsDefined ?mt"
    using assms(2) by (simp add: requirementsDefined_populateTemporal)
  obtain mm where mm: "populateEnvironmentalMetricDefaults ?mt = Inr mm"
    and get: "\<And>k. map_get mm k =
      (case map_of modifiedMetricsMap k of None \<Rightarrow> map_get ?mt k | Some b \<Rightarrow> resolvedValue ?mt k b)"
    using populateEnvironmentalMetricDefaults_get [OF valid req] by blast
  have same: "map_get mm k = map_get ?mt k" if "map_of modifiedMetricsMap k = None" for k
    using get [of k] that by simp
  have lookup_same: "getMetricNumericValue k mm = getMetricNumericValue k ?mt"
    if "map_of modifiedMetricsMap k = None" "k \<noteq> ''PR''" "k \<noteq> ''MPR''" for k
    using same [OF that(1)] that(2,3) by (simp add: getMetricNumericValue_def getMetricValue_def)
  have temporal: "returns (getMetricNumericValue k mm) (\<lambda>w. 0 < w \<and> w \<le> 1)"
    if "k \<in> {''E'', ''RL'', ''RC''}" for k
  proof -
    have "getMetricNumericValue k mm = getMetricNumericValue k ?mt"
      using that by (intro lookup_same) (auto simp: modifiedMetricsMap_def)
    then show ?thesis
      using temporal_weight [OF valid0 that] by simp
  qed
  have requirement: "returns (getMetricNumericValue q mm) (\<lambda>w. 0 < w \<and> w \<le> 1.5)"
    if q: "q \<in> {''CR'', ''IR'', ''AR''}" for q
  proof -
    have "map_of modifiedMetricsMap q = None" "q \<in> set allKnownMetrics"
      using q by (auto simp: modifiedMetricsMap_def allKnownMetrics_def environmentalMetrics_def)
    moreover obtain v where "map_get ?mt q = Some v"
      using req q by (auto simp: requirementsDefined_def)
    ultimately have "map_get mm q = Some v" "v \<in> set (legalValues q)"
      using same [of q] validated_value [OF valid, of q v] by simp_all
    then show ?thesis
      using q by (intro weight_requirement_metric) auto
  qed
  have impact_metric: "returns (getMetricNumericValue m mm) (\<lambda>w. 0 \<le> w \<and> w \<le> 1)"
    if m: "m \<in> {''MC'', ''MI'', ''MA''}" for m
  proof -
    obtain b where "(m, b) \<in> set modifiedMetricsMap"
      using m by (auto simp: modifiedMetricsMap_def)
    then show ?thesis
      by (rule modified_weight(2) [OF valid req mm])
  qed
  have expl_metric: "returns (getMetricNumericValue m mm) (\<lambda>w. 0 < w \<and> w \<le> 1)"
    if m: "m \<in> {''MAV'', ''MAC'', ''MPR'', ''MUI''}" for m
  proof -
    obtain b where "(m, b) \<in> set modifiedMetricsMap"
      using m by (auto simp: modifiedMetricsMap_def)
    then show ?thesis
      using modified_weight(3) [OF valid req mm _ m] by blast
  qed
  obtain cr where cr: "getMetricNumericValue ''CR'' mm = Inr cr"
    using requirement [of "''CR''"] by (auto simp: returns_iff)
  obtain ir where ir: "getMetricNumericValue ''IR'' mm = Inr ir"
    using requirement [of "''IR''"] by (auto simp: returns_iff)
  obtain ar where ar: "getMetricNumericValue ''AR'' mm = Inr ar"
    using requirement [of "''AR''"] by (auto simp: returns_iff)
  obtain mc where mc: "getMetricNumericValue ''MC'' mm = Inr mc"
    using impact_metric [of "''MC''"] by (auto simp: returns_iff)
  obtain mi where mi: "getMetricNumericValue ''MI'' mm = Inr mi"
    using impact_metric [of "''MI''"] by (auto simp: returns_iff)
  obtain ma where ma: "getMetricNumericValue ''MA'' mm = Inr ma"
    using impact_metric [of "''MA''"] by (auto simp: returns_iff)
  obtain miss where miss: "calculateMiss mm = Inr miss"
    by (simp add: calculateMiss_def cr ir ar mc mi ma)
  obtain mav where mav: "getMetricNumericValue ''MAV'' mm = Inr mav" "0 < mav"
    using expl_metric [of "''MAV''"] by (auto simp: returns_iff)
  obtain mac where mac: "getMetricNumericValue ''MAC'' mm = Inr mac" "0 < mac"
    using expl_metric [of "''MAC''"] by (auto simp: returns_iff)
  obtain mpr where mpr: "getMetricNumericValue ''MPR'' mm = Inr mpr" "0 < mpr"
    using expl_metric [of "''MPR''"] by (auto simp: returns_iff)
  obtain mui where mui: "getMetricNumericValue ''MUI'' mm = Inr mui" "0 < mui"
    using expl_metric [of "''MUI''"] by (auto simp: returns_iff)
  have pos: "0 < 8.22 * mav * mac * mpr * mui"
    using mav(2) mac(2) mpr(2) mui(2) by (intro mult_pos_pos) simp_all
  have expl: "calculateModifiedExploitability mm = Inr (8.22 * mav * mac * mpr * mui)"
    by (simp only: calculateModifiedExploitability_def mav(1) mac(1) mpr(1) mui(1) ebind_Inr)
  obtain e where e: "getMetricNumericValue ''E'' mm = Inr e" "0 < e" "e \<le> 1"
    using temporal [of "''E''"] by (auto simp: returns_iff)
  obtain rl where rl: "getMetricNumericValue ''RL'' mm = Inr rl" "0 < rl" "rl \<le> 1"
    using temporal [of "''RL''"] by (auto simp: returns_iff)
  obtain rc where rc: "getMetricNumericValue ''RC'' mm = Inr rc" "0 < rc" "rc \<le> 1"
    using temporal [of "''RC''"] by (auto simp: returns_iff)
  show ?thesis
    unfolding calculateEnvironmentalScore_eq [OF assms(1) mm miss expl]
    by (rule environmentalScoreOf_range [OF pos e rl rc])
qed

section \<open>The version string\<close>












end
